theory Spec2Isabelle
  imports Main "HOL-Library.Sublist"
begin

unbundle bit_operations_syntax

section \<open>Go values shared by both packages\<close>

text \<open>
  A Go \<^verbatim>\<open>error\<close> is modelled by its message (the string \<^verbatim>\<open>err.Error()\<close> returns):
  the source wraps errors with \<^verbatim>\<open>fmt.Errorf("...: %w", err)\<close>, which prepends text to
  the message, and \<^verbatim>\<open>installFirefoxDriver\<close> inspects the message itself.
\<close>

type_synonym error = string

text \<open>
  The dynamic values that \<^verbatim>\<open>encoding/json\<close> stores in an \<^verbatim>\<open>interface{}\<close>:
  \<^verbatim>\<open>nil\<close>, \<^verbatim>\<open>bool\<close>, \<^verbatim>\<open>float64\<close> (its payload is never inspected by the program and is
  kept as an integer), \<^verbatim>\<open>string\<close>, \<^verbatim>\<open>[]interface{}\<close> and \<^verbatim>\<open>map[string]interface{}\<close>
  (an association list; \<open>map_of\<close> is the lookup).
\<close>

datatype go_value =
    Nil
  | Bool bool
  | Float64 int
  | String string
  | Array "go_value list"
  | Object "(string \<times> go_value) list"

text \<open>
  An HTTP response: \<open>BodyErr\<close> is the error, if any, that reading \<^verbatim>\<open>resp.Body\<close> to its
  end returns.
\<close>

record response =
  StatusCode :: int
  Status :: string
  Body :: string
  BodyErr :: "error option"

text \<open>\<^verbatim>\<open>%d\<close> of a Go \<^verbatim>\<open>int\<close>: decimal digits, with a minus sign below zero.\<close>

fun digits_of :: "nat \<Rightarrow> string" where
  "digits_of n =
     (if n < 10 then [char_of (48 + n)]
      else digits_of (n div 10) @ [char_of (48 + n mod 10)])"

declare digits_of.simps [simp del]

definition itoa :: "int \<Rightarrow> string" where
  "itoa i = (if i < 0 then CHR ''-'' # digits_of (nat (- i)) else digits_of (nat i))"

section \<open>Package browsers: the WebDriver session clients\<close>

text \<open>
  Everything the two clients do to the outside world is appended to a trace, oldest event
  first. What the outside world answers (whether a process starts, what the driver
  replies, whether a kill succeeds) is read from \<open>benv\<close>; each answer may depend on the
  trace so far. \<^verbatim>\<open>json.Marshal\<close> of a request payload is kept as the value marshalled.
\<close>

datatype event =
    Exec string "string list"
  | Start string "string list"
  | Sleep nat
  | HttpPost string string go_value
  | Kill nat
  | LogLine string

record benv =
  run_result :: "event list \<Rightarrow> string \<Rightarrow> string list \<Rightarrow> error option"
  start_result :: "event list \<Rightarrow> string \<Rightarrow> string list \<Rightarrow> error + nat"
  post_result :: "event list \<Rightarrow> string \<Rightarrow> go_value \<Rightarrow> error + response"
  kill_result :: "event list \<Rightarrow> nat \<Rightarrow> error option"
  json_Decode :: "string \<Rightarrow> go_value option"

text \<open>
  A Go call ends in one of three ways: it returns a value with a nil error, it returns an
  error, or it panics (a failed single-value type assertion panics).
\<close>

datatype 'a outcome = Ok 'a | Err error | Panic string

text \<open>\<^verbatim>\<open>exec.Cmd\<close>: \<open>Process\<close> is nil until \<^verbatim>\<open>Start\<close> has succeeded.\<close>

record Cmd =
  Path :: string
  Args :: "string list"
  Process :: "nat option"

record Firefox =
  cmd :: "Cmd option"
  sessionID :: string

record WebKit =
  cmd :: "Cmd option"
  sessionID :: string

text \<open>The zero values \<^verbatim>\<open>&Firefox{}\<close> and \<^verbatim>\<open>&WebKit{}\<close> that \<^verbatim>\<open>GetBrowser\<close> creates.\<close>

definition new_Firefox :: Firefox where
  "new_Firefox = \<lparr>Firefox.cmd = None, Firefox.sessionID = []\<rparr>"

definition new_WebKit :: WebKit where
  "new_WebKit = \<lparr>WebKit.cmd = None, WebKit.sessionID = []\<rparr>"

text \<open>
  \<^verbatim>\<open>json.NewDecoder(resp.Body).Decode(&result)\<close> with \<^verbatim>\<open>result\<close> a
  \<^verbatim>\<open>map[string]interface{}\<close>: a body that is not JSON, or whose value is neither an object
  nor \<^verbatim>\<open>null\<close>, is an error; \<^verbatim>\<open>null\<close> leaves the nil map, which reads like an empty one.
\<close>

definition decode_map :: "benv \<Rightarrow> response \<Rightarrow> error + (string \<times> go_value) list" where
  "decode_map env resp =
     (case BodyErr resp of
        Some e \<Rightarrow> Inl e
      | None \<Rightarrow>
          (case json_Decode env (Body resp) of
             None \<Rightarrow> Inl ''invalid character''
           | Some (Object kvs) \<Rightarrow> Inr kvs
           | Some Nil \<Rightarrow> Inr []
           | Some _ \<Rightarrow>
               Inl ''json: cannot unmarshal into Go value of type map[string]interface {}''))"

definition session_payload :: "string \<Rightarrow> go_value" where
  "session_payload browserName =
     Object [(''capabilities'',
              Object [(''alwaysMatch'', Object [(''browserName'', String browserName)])])]"

text \<open>
  \<^verbatim>\<open>Firefox.createSession\<close>. The session id is read by
  \<^verbatim>\<open>result["value"].(map[string]interface{})["sessionId"].(string)\<close>: the first type
  assertion is the single-value form, which panics when \<^verbatim>\<open>result["value"]\<close> is not a
  map (also when it is nil, the key being absent); only the second is the comma-ok form.
\<close>

definition Firefox_createSession :: "benv \<Rightarrow> event list \<Rightarrow> event list \<times> string outcome" where
  "Firefox_createSession env t =
     (let url = ''http://localhost:4444/session'';
          payload = session_payload ''firefox'';
          t1 = t @ [HttpPost url ''application/json'' payload]
      in case post_result env t url payload of
           Inl e \<Rightarrow> (t1, Err (''failed to create session: '' @ e))
         | Inr resp \<Rightarrow>
             (case decode_map env resp of
                Inl e \<Rightarrow> (t1, Err (''failed to decode session response: '' @ e))
              | Inr result \<Rightarrow>
                  (case map_of result ''value'' of
                     Some (Object sessionData) \<Rightarrow>
                       (case map_of sessionData ''sessionId'' of
                          Some (String sid) \<Rightarrow> (t1, Ok sid)
                        | _ \<Rightarrow> (t1, Err ''invalid session response format''))
                   | _ \<Rightarrow>
                       (t1, Panic ''interface conversion: interface {} is not map[string]interface {}''))))"

text \<open>\<^verbatim>\<open>WebKit.createSession\<close>: both type assertions are the comma-ok form.\<close>

definition WebKit_createSession :: "benv \<Rightarrow> event list \<Rightarrow> event list \<times> string outcome" where
  "WebKit_createSession env t =
     (let url = ''http://localhost:4444/session'';
          payload = session_payload ''safari'';
          t1 = t @ [HttpPost url ''application/json'' payload]
      in case post_result env t url payload of
           Inl e \<Rightarrow> (t1, Err (''failed to create session: '' @ e))
         | Inr resp \<Rightarrow>
             (case decode_map env resp of
                Inl e \<Rightarrow> (t1, Err (''failed to decode session response: '' @ e))
              | Inr result \<Rightarrow>
                  (case map_of result ''value'' of
                     Some (Object sessionData) \<Rightarrow>
                       (case map_of sessionData ''sessionId'' of
                          Some (String sid) \<Rightarrow> (t1, Ok sid)
                        | _ \<Rightarrow>
                            (t1, Err ''invalid session response format: sessionId not found''))
                   | _ \<Rightarrow> (t1, Err ''invalid session response format''))))"

text \<open>
  \<^verbatim>\<open>Firefox.Launch\<close>: start geckodriver on port 4444, sleep two seconds, create the
  session, store its id. The struct is returned with the fields the call has assigned.
\<close>

definition Firefox_Launch :: "benv \<Rightarrow> event list \<Rightarrow> Firefox \<Rightarrow> event list \<times> Firefox \<times> unit outcome" where
  "Firefox_Launch env t f =
     (let t1 = t @ [LogLine ''Launching Firefox...''];
          c = \<lparr>Path = ''geckodriver'', Args = [''--port=4444''], Process = None\<rparr>;
          f1 = f\<lparr>Firefox.cmd := Some c\<rparr>;
          t2 = t1 @ [Start ''geckodriver'' [''--port=4444'']]
      in case start_result env t1 ''geckodriver'' [''--port=4444''] of
           Inl e \<Rightarrow> (t2, f1, Err (''failed to start Geckodriver: '' @ e))
         | Inr pid \<Rightarrow>
             (let f2 = f1\<lparr>Firefox.cmd := Some (c\<lparr>Process := Some pid\<rparr>)\<rparr>
              in case Firefox_createSession env (t2 @ [Sleep 2]) of
                   (t3, Panic p) \<Rightarrow> (t3, f2, Panic p)
                 | (t3, Err e) \<Rightarrow> (t3, f2, Err (''failed to create session: '' @ e))
                 | (t3, Ok sid) \<Rightarrow>
                     (t3 @ [LogLine (''Firefox session created: '' @ sid)],
                      f2\<lparr>Firefox.sessionID := sid\<rparr>, Ok ())))"

text \<open>
  \<^verbatim>\<open>WebKit.Launch\<close>: run \<^verbatim>\<open>safaridriver --enable\<close> first, then as for Firefox.
\<close>

definition WebKit_Launch :: "benv \<Rightarrow> event list \<Rightarrow> WebKit \<Rightarrow> event list \<times> WebKit \<times> unit outcome" where
  "WebKit_Launch env t w =
     (let t1 = t @ [LogLine ''Launching Safari (WebKit)...''];
          t2 = t1 @ [Exec ''safaridriver'' [''--enable'']]
      in case run_result env t1 ''safaridriver'' [''--enable''] of
           Some e \<Rightarrow> (t2, w, Err (''failed to enable Safari WebDriver: '' @ e))
         | None \<Rightarrow>
             (let c = \<lparr>Path = ''safaridriver'', Args = [''--port=4444''], Process = None\<rparr>;
                  w1 = w\<lparr>WebKit.cmd := Some c\<rparr>;
                  t3 = t2 @ [Start ''safaridriver'' [''--port=4444'']]
              in case start_result env t2 ''safaridriver'' [''--port=4444''] of
                   Inl e \<Rightarrow> (t3, w1, Err (''failed to start Safari WebDriver: '' @ e))
                 | Inr pid \<Rightarrow>
                     (let w2 = w1\<lparr>WebKit.cmd := Some (c\<lparr>Process := Some pid\<rparr>)\<rparr>
                      in case WebKit_createSession env (t3 @ [Sleep 2]) of
                           (t4, Panic p) \<Rightarrow> (t4, w2, Panic p)
                         | (t4, Err e) \<Rightarrow> (t4, w2, Err (''failed to create session: '' @ e))
                         | (t4, Ok sid) \<Rightarrow>
                             (t4 @ [LogLine (''Safari session created: '' @ sid)],
                              w2\<lparr>WebKit.sessionID := sid\<rparr>, Ok ()))))"

text \<open>
  \<^verbatim>\<open>OpenURL\<close>, the same code in both clients apart from the messages: refuse an empty
  session id before anything else, otherwise post \<^verbatim>\<open>{"url": url}\<close> to
  \<^verbatim>\<open>/session/<id>/url\<close> and accept status 200 only.
\<close>

definition navigate_url :: "string \<Rightarrow> string" where
  "navigate_url sid = ''http://localhost:4444/session/'' @ sid @ ''/url''"

definition navigate_payload :: "string \<Rightarrow> go_value" where
  "navigate_payload url = Object [(''url'', String url)]"

definition Firefox_OpenURL :: "benv \<Rightarrow> event list \<Rightarrow> Firefox \<Rightarrow> string \<Rightarrow> event list \<times> unit outcome" where
  "Firefox_OpenURL env t f url =
     (if Firefox.sessionID f = [] then (t, Err ''no active session, start Firefox first'')
      else
        (let requestURL = navigate_url (Firefox.sessionID f);
             payload = navigate_payload url;
             t1 = t @ [HttpPost requestURL ''application/json'' payload]
         in case post_result env t requestURL payload of
              Inl e \<Rightarrow> (t1, Err (''failed to open URL: '' @ e))
            | Inr resp \<Rightarrow>
                (if StatusCode resp \<noteq> 200
                 then (t1, Err (''failed to navigate to URL, status code: '' @ itoa (StatusCode resp)))
                 else (t1 @ [LogLine (''Opened URL in Firefox: '' @ url)], Ok ()))))"

definition WebKit_OpenURL :: "benv \<Rightarrow> event list \<Rightarrow> WebKit \<Rightarrow> string \<Rightarrow> event list \<times> unit outcome" where
  "WebKit_OpenURL env t w urlStr =
     (if WebKit.sessionID w = [] then (t, Err ''no active session, start Safari first'')
      else
        (let requestURL = navigate_url (WebKit.sessionID w);
             payload = navigate_payload urlStr;
             t1 = t @ [HttpPost requestURL ''application/json'' payload]
         in case post_result env t requestURL payload of
              Inl e \<Rightarrow> (t1, Err (''failed to open URL: '' @ e))
            | Inr resp \<Rightarrow>
                (if StatusCode resp \<noteq> 200
                 then (t1, Err (''failed to navigate to URL, status code: '' @ itoa (StatusCode resp)))
                 else (t1 @ [LogLine (''Opened URL in Safari: '' @ urlStr)], Ok ()))))"

text \<open>
  \<^verbatim>\<open>Close\<close>: when the command and its process are non-nil, kill the process and return
  the kill's error, wrapped. Nothing is cleared or recorded in the struct.
\<close>

definition Firefox_Close :: "benv \<Rightarrow> event list \<Rightarrow> Firefox \<Rightarrow> event list \<times> unit outcome" where
  "Firefox_Close env t f =
     (case Firefox.cmd f of
        None \<Rightarrow> (t, Ok ())
      | Some c \<Rightarrow>
          (case Process c of
             None \<Rightarrow> (t, Ok ())
           | Some pid \<Rightarrow>
               (case kill_result env t pid of
                  Some e \<Rightarrow> (t @ [Kill pid], Err (''failed to close Firefox: '' @ e))
                | None \<Rightarrow>
                    (t @ [Kill pid, LogLine ''Firefox browser closed successfully.''], Ok ()))))"

definition WebKit_Close :: "benv \<Rightarrow> event list \<Rightarrow> WebKit \<Rightarrow> event list \<times> unit outcome" where
  "WebKit_Close env t w =
     (case WebKit.cmd w of
        None \<Rightarrow> (t, Ok ())
      | Some c \<Rightarrow>
          (case Process c of
             None \<Rightarrow> (t, Ok ())
           | Some pid \<Rightarrow>
               (case kill_result env t pid of
                  Some e \<Rightarrow> (t @ [Kill pid], Err (''failed to close Safari WebDriver: '' @ e))
                | None \<Rightarrow>
                    (t @ [Kill pid, LogLine ''Safari WebDriver closed successfully.''], Ok ()))))"

section \<open>Go library functions used by the installer\<close>

subsection \<open>Package strings and the regular expressions of the source\<close>

definition HasPrefix :: "string \<Rightarrow> string \<Rightarrow> bool" where
  "HasPrefix s p = prefix p s"

definition HasSuffix :: "string \<Rightarrow> string \<Rightarrow> bool" where
  "HasSuffix s p = suffix p s"

fun Contains :: "string \<Rightarrow> string \<Rightarrow> bool" where
  "Contains [] sub = (sub = [])"
| "Contains (c # cs) sub = (prefix sub (c # cs) \<or> Contains cs sub)"

text \<open>
  \<^verbatim>\<open>strings.TrimSpace\<close> removes the white space of Unicode at both ends. A Go string is a
  sequence of bytes that the function reads as UTF-8, and the characters with the property
  White_Space are the six of ASCII and U+0085, U+00A0, U+1680, U+2000 to U+200A, U+2028,
  U+2029, U+202F, U+205F and U+3000: \<open>space_runes\<close> lists their encodings. A byte that does
  not start (from the left) or end (from the right) one of these encodings belongs to a
  character that is not white space, or to no character at all, and stops the trimming.
\<close>

definition space_runes :: "string list" where
  "space_runes =
     [[CHR 0x09], [CHR 0x0A], [CHR 0x0B], [CHR 0x0C], [CHR 0x0D], [CHR 0x20],
      [CHR 0xC2, CHR 0x85], [CHR 0xC2, CHR 0xA0],
      [CHR 0xE1, CHR 0x9A, CHR 0x80],
      [CHR 0xE2, CHR 0x80, CHR 0x80], [CHR 0xE2, CHR 0x80, CHR 0x81],
      [CHR 0xE2, CHR 0x80, CHR 0x82], [CHR 0xE2, CHR 0x80, CHR 0x83],
      [CHR 0xE2, CHR 0x80, CHR 0x84], [CHR 0xE2, CHR 0x80, CHR 0x85],
      [CHR 0xE2, CHR 0x80, CHR 0x86], [CHR 0xE2, CHR 0x80, CHR 0x87],
      [CHR 0xE2, CHR 0x80, CHR 0x88], [CHR 0xE2, CHR 0x80, CHR 0x89],
      [CHR 0xE2, CHR 0x80, CHR 0x8A],
      [CHR 0xE2, CHR 0x80, CHR 0xA8], [CHR 0xE2, CHR 0x80, CHR 0xA9],
      [CHR 0xE2, CHR 0x80, CHR 0xAF], [CHR 0xE2, CHR 0x81, CHR 0x9F],
      [CHR 0xE3, CHR 0x80, CHR 0x80]]"

text \<open>Remove, as long as there is one, a leading occurrence of one of the byte sequences.\<close>

function trim_left :: "string list \<Rightarrow> string \<Rightarrow> string" where
  "trim_left runes s =
     (case find (\<lambda>r. r \<noteq> [] \<and> prefix r s) runes of
        None \<Rightarrow> s
      | Some r \<Rightarrow> trim_left runes (drop (length r) s))"
  by pat_completeness auto
termination
proof (relation "measure (\<lambda>(runes, s). length s)")
  show "wf (measure (\<lambda>(runes, s). length s))"
    by simp
next
  fix runes :: "string list" and s r :: string
  assume "find (\<lambda>r. r \<noteq> [] \<and> prefix r s) runes = Some r"
  then have "r \<noteq> []" and "prefix r s"
    by (auto simp: find_Some_iff)
  then show "((runes, drop (length r) s), (runes, s)) \<in> measure (\<lambda>(runes, s). length s)"
    by (auto simp: prefix_def)
qed

declare trim_left.simps [simp del]

definition TrimSpace :: "string \<Rightarrow> string" where
  "TrimSpace s = rev (trim_left (map rev space_runes) (rev (trim_left space_runes s)))"

definition is_digit :: "char \<Rightarrow> bool" where
  "is_digit c = (c \<in> set ''0123456789'')"

text \<open>
  \<^verbatim>\<open>\d+\<close> at the start of a string: the digits matched and the rest. The expressions of
  the source alternate digit runs and literal dots, so the greedy match of each run is the
  only one that can be continued.
\<close>

definition digit_run :: "string \<Rightarrow> (string \<times> string) option" where
  "digit_run s =
     (let ds = takeWhile is_digit s
      in if ds = [] then None else Some (ds, dropWhile is_digit s))"

text \<open>\<^verbatim>\<open>\.\d+\<close> at the start of a string.\<close>

definition dot_digit_run :: "string \<Rightarrow> (string \<times> string) option" where
  "dot_digit_run s =
     (case s of
        [] \<Rightarrow> None
      | c # r \<Rightarrow>
          if c = CHR ''.''
          then (case digit_run r of None \<Rightarrow> None | Some (ds, rest) \<Rightarrow> Some (c # ds, rest))
          else None)"

text \<open>\<^verbatim>\<open>\d+\.\d+\.\d+\<close> and \<^verbatim>\<open>\d+\.\d+\.\d+\.\d+\<close> at the start of a string.\<close>

definition version3_at :: "string \<Rightarrow> string option" where
  "version3_at s =
     (case digit_run s of
        None \<Rightarrow> None
      | Some (a, r1) \<Rightarrow>
          (case dot_digit_run r1 of
             None \<Rightarrow> None
           | Some (b, r2) \<Rightarrow>
               (case dot_digit_run r2 of
                  None \<Rightarrow> None
                | Some (c, r3) \<Rightarrow> Some (a @ b @ c))))"

definition version4_at :: "string \<Rightarrow> string option" where
  "version4_at s =
     (case digit_run s of
        None \<Rightarrow> None
      | Some (a, r1) \<Rightarrow>
          (case dot_digit_run r1 of
             None \<Rightarrow> None
           | Some (b, r2) \<Rightarrow>
               (case dot_digit_run r2 of
                  None \<Rightarrow> None
                | Some (c, r3) \<Rightarrow>
                    (case dot_digit_run r3 of
                       None \<Rightarrow> None
                     | Some (d, r4) \<Rightarrow> Some (a @ b @ c @ d)))))"

text \<open>The leftmost match: try the start of the string, then each later position.\<close>

fun find_first :: "(string \<Rightarrow> 'a option) \<Rightarrow> string \<Rightarrow> 'a option" where
  "find_first m [] = m []"
| "find_first m (c # cs) =
     (case m (c # cs) of Some x \<Rightarrow> Some x | None \<Rightarrow> find_first m cs)"

text \<open>\<^verbatim>\<open>^(\d+)\.\<close> with \<^verbatim>\<open>FindStringSubmatch\<close>: the group, when the expression matches.\<close>

definition major_version :: "string \<Rightarrow> string option" where
  "major_version v =
     (case digit_run v of
        None \<Rightarrow> None
      | Some (ds, rest) \<Rightarrow>
          (case rest of [] \<Rightarrow> None | c # r \<Rightarrow> if c = CHR ''.'' then Some ds else None))"

text \<open>\<^verbatim>\<open>geckodriver (\d+\.\d+\.\d+)\<close>: the group of the leftmost match.\<close>

definition gecko_version_at :: "string \<Rightarrow> string option" where
  "gecko_version_at s =
     (if prefix ''geckodriver '' s then version3_at (drop (length ''geckodriver '') s) else None)"

subsection \<open>Package path/filepath, on a system whose separator is the slash\<close>

text \<open>
  \<^verbatim>\<open>filepath.Clean\<close> by its documented rules: empty elements and \<^verbatim>\<open>.\<close> are dropped, an
  inner \<^verbatim>\<open>..\<close> removes the element before it, a \<^verbatim>\<open>..\<close> that would climb above the root
  of a rooted path is dropped, and one that cannot be resolved in a relative path is kept;
  the empty result is \<^verbatim>\<open>.\<close>. Volume names and the backslash of Windows are not
  modelled. In \<open>clean_elems\<close> the elements kept so far are a stack, last one first.
\<close>

fun split_path :: "string \<Rightarrow> string list" where
  "split_path [] = [[]]"
| "split_path (c # cs) =
     (if c = CHR ''/'' then [] # split_path cs
      else (case split_path cs of [] \<Rightarrow> [[c]] | e # es \<Rightarrow> (c # e) # es))"

fun join_sep :: "string list \<Rightarrow> string" where
  "join_sep [] = []"
| "join_sep [e] = e"
| "join_sep (e # es) = e @ CHR ''/'' # join_sep es"

fun clean_elems :: "bool \<Rightarrow> string list \<Rightarrow> string list \<Rightarrow> string list" where
  "clean_elems rooted out [] = rev out"
| "clean_elems rooted out (e # es) =
     (if e = [] \<or> e = ''.'' then clean_elems rooted out es
      else if e = ''..'' then
        (case out of
           [] \<Rightarrow> clean_elems rooted (if rooted then [] else [''..'']) es
         | t # ts \<Rightarrow>
             if t = ''..'' then clean_elems rooted (''..'' # out) es
             else clean_elems rooted ts es)
      else clean_elems rooted (e # out) es)"

definition filepath_Clean :: "string \<Rightarrow> string" where
  "filepath_Clean p =
     (if p = [] then ''.''
      else
        (let rooted = (hd p = CHR ''/'');
             elems = clean_elems rooted [] (split_path p)
         in if rooted then CHR ''/'' # join_sep elems
            else if elems = [] then ''.''
            else join_sep elems))"

text \<open>\<^verbatim>\<open>filepath.Join\<close>: leading empty elements are ignored, the rest is joined and cleaned.\<close>

definition filepath_Join :: "string list \<Rightarrow> string" where
  "filepath_Join elem =
     (case dropWhile (\<lambda>e. e = []) elem of
        [] \<Rightarrow> []
      | e # es \<Rightarrow> filepath_Clean (join_sep (e # es)))"

text \<open>\<^verbatim>\<open>filepath.Dir\<close>: the path up to its last separator, cleaned.\<close>

definition filepath_Dir :: "string \<Rightarrow> string" where
  "filepath_Dir p = filepath_Clean (rev (dropWhile (\<lambda>c. c \<noteq> CHR ''/'') (rev p)))"

definition IsAbs :: "string \<Rightarrow> bool" where
  "IsAbs p = prefix ''/'' p"

subsection \<open>The operating system and the network\<close>

text \<open>
  The operating system is modelled as Linux and macOS have it. Windows, which the code
  supports as well, differs in the separator, in the temporary directory and in the
  search of \<^verbatim>\<open>exec.LookPath\<close> (the extensions of \<^verbatim>\<open>%PATHEXT%\<close>, no permission bit); the
  branches of the code for Windows are embedded as they are written and run over this
  model.

  The file system maps a cleaned path to what is stored there; the first pair with a key
  is the current one. Every operation cleans the path it is given: without symbolic
  links, and with the one working directory the program never changes, the kernel
  resolves a path as \<^verbatim>\<open>filepath.Clean\<close> rewrites it. Parent directories are not tracked.
  A file is stored with its content and its nine permission bits; the set-user-ID,
  set-group-ID and sticky bits are not tracked (nothing in the program reads them).
\<close>

datatype node = File string nat | Dir

datatype fs_op = OpStat | OpMkdir | OpOpen | OpCreate | OpWrite | OpSync | OpChmod

text \<open>
  The state the installer changes: the file system, the paths it has passed to
  \<^verbatim>\<open>os.OpenFile\<close> and \<^verbatim>\<open>os.Create\<close> when they opened a file for writing, the URLs it
  has requested, the commands it has run and the lines it has printed, each list oldest
  first.
\<close>

record world =
  fs :: "(string \<times> node) list"
  writes :: "string list"
  requests :: "string list"
  commands :: "(string \<times> string list) list"
  stdout :: "string list"

text \<open>
  One member of a zip archive as \<^verbatim>\<open>archive/zip\<close> presents it: \<open>Perm\<close> are the permission
  bits of \<^verbatim>\<open>file.Mode()\<close> and \<open>IsDir\<close> its directory bit, \<open>open_err\<close> the error of
  \<^verbatim>\<open>file.Open()\<close>, \<open>data\<close> the bytes read from it and \<open>read_err\<close> the error that ends the
  reading (a checksum mismatch is reported after the last byte).
\<close>

record zip_file =
  Name :: string
  IsDir :: bool
  Perm :: nat
  open_err :: "error option"
  data :: string
  read_err :: "error option"

text \<open>
  What \<^verbatim>\<open>tarReader.Next()\<close> returns: a header (with the bytes that follow it) or an error;
  the end of the list is \<^verbatim>\<open>io.EOF\<close>.
\<close>

record tar_header =
  Name :: string
  Typeflag :: char
  Mode :: nat
  data :: string
  read_err :: "error option"

datatype tar_item = Header tar_header | Broken error

definition TypeReg :: char where
  "TypeReg = CHR ''0''"

definition TypeDir :: char where
  "TypeDir = CHR ''5''"

text \<open>
  What the installer reads from outside: the platform, the environment variables, the
  directories of \<^verbatim>\<open>$PATH\<close>, the answer to each HTTP GET, the combined output and error of
  each command, the operations the file system refuses, the decoders of the archive and
  JSON libraries, the random numbers of \<^verbatim>\<open>os.MkdirTemp\<close>, and the file mode creation mask
  of the process.
\<close>

record env =
  GOOS :: string
  GOARCH :: string
  Getenv :: "string \<Rightarrow> string"
  PATH :: "string list"
  UserHomeDir :: "error + string"
  http_Get :: "string \<Rightarrow> error + response"
  CombinedOutput :: "string \<Rightarrow> string list \<Rightarrow> string \<times> error option"
  fs_error :: "fs_op \<Rightarrow> string \<Rightarrow> error option"
  zip_NewReader :: "string \<Rightarrow> error + zip_file list"
  gzip_tar_NewReader :: "string \<Rightarrow> error + tar_item list"
  json_Unmarshal :: "string \<Rightarrow> error + go_value"
  nextRandom :: "nat \<Rightarrow> nat"
  Umask :: nat

definition Println :: "string \<Rightarrow> world \<Rightarrow> world" where
  "Println line w = w\<lparr>stdout := stdout w @ [line]\<rparr>"

definition lookup :: "world \<Rightarrow> string \<Rightarrow> node option" where
  "lookup w p = map_of (fs w) (filepath_Clean p)"

definition put :: "string \<Rightarrow> node \<Rightarrow> world \<Rightarrow> world" where
  "put p n w = w\<lparr>fs := (filepath_Clean p, n) # fs w\<rparr>"

text \<open>\<^verbatim>\<open>os.Stat\<close>: the node, \<^verbatim>\<open>ErrNotExist\<close>, or another error.\<close>

datatype stat = StatOk node | NotExist | StatErr error

definition os_Stat :: "env \<Rightarrow> world \<Rightarrow> string \<Rightarrow> stat" where
  "os_Stat env w p =
     (case fs_error env OpStat p of
        Some e \<Rightarrow> StatErr e
      | None \<Rightarrow> (case lookup w p of None \<Rightarrow> NotExist | Some n \<Rightarrow> StatOk n))"

definition os_MkdirAll :: "env \<Rightarrow> world \<Rightarrow> string \<Rightarrow> world \<times> error option" where
  "os_MkdirAll env w p =
     (case fs_error env OpMkdir p of
        Some e \<Rightarrow> (w, Some e)
      | None \<Rightarrow>
          (case lookup w p of
             Some (File c m) \<Rightarrow> (w, Some (''mkdir '' @ p @ '': not a directory''))
           | _ \<Rightarrow> (put p Dir w, None)))"

text \<open>
  The permission bits of a file that is created with the mode \<open>perm\<close>: the nine low bits
  of \<open>perm\<close> (\<^verbatim>\<open>FileMode.Perm\<close>; the type bits of a mode taken from an archive are dropped)
  without the bits of the file mode creation mask.
\<close>

definition created_mode :: "env \<Rightarrow> nat \<Rightarrow> nat" where
  "created_mode env perm = (perm mod 512) AND (511 - Umask env mod 512)"

text \<open>
  \<^verbatim>\<open>os.OpenFile(p, O_WRONLY|O_CREATE|O_TRUNC, perm)\<close>: an existing file is emptied and
  keeps its permission bits, a new one gets those of \<open>created_mode\<close>. \<^verbatim>\<open>os.Create\<close> is
  the same with 0666.
\<close>

definition os_OpenFile :: "env \<Rightarrow> world \<Rightarrow> string \<Rightarrow> nat \<Rightarrow> world \<times> error option" where
  "os_OpenFile env w p perm =
     (case fs_error env OpCreate p of
        Some e \<Rightarrow> (w, Some e)
      | None \<Rightarrow>
          (case lookup w p of
             Some Dir \<Rightarrow> (w, Some (''open '' @ p @ '': is a directory''))
           | Some (File c m) \<Rightarrow>
               ((put p (File [] m) w)\<lparr>writes := writes w @ [p]\<rparr>, None)
           | None \<Rightarrow>
               ((put p (File [] (created_mode env perm)) w)\<lparr>writes := writes w @ [p]\<rparr>, None)))"

definition os_Create :: "env \<Rightarrow> world \<Rightarrow> string \<Rightarrow> world \<times> error option" where
  "os_Create env w p = os_OpenFile env w p 438"

text \<open>
  \<^verbatim>\<open>io.Copy\<close> into the open file at \<open>p\<close> from a source that yields \<open>content\<close> and then
  \<open>src_err\<close>: a write the file system refuses stores nothing; otherwise the bytes read
  are stored and the source's error, if any, is returned.
\<close>

definition io_Copy :: "env \<Rightarrow> world \<Rightarrow> string \<Rightarrow> string \<Rightarrow> error option \<Rightarrow> world \<times> error option" where
  "io_Copy env w p content src_err =
     (case fs_error env OpWrite p of
        Some e \<Rightarrow> (w, Some e)
      | None \<Rightarrow>
          (case lookup w p of
             Some (File c m) \<Rightarrow> (put p (File content m) w, src_err)
           | _ \<Rightarrow> (w, src_err)))"

text \<open>\<^verbatim>\<open>os.Chmod\<close> sets the permission bits as given; the mask does not apply.\<close>

definition os_Chmod :: "env \<Rightarrow> world \<Rightarrow> string \<Rightarrow> nat \<Rightarrow> world \<times> error option" where
  "os_Chmod env w p perm =
     (case fs_error env OpChmod p of
        Some e \<Rightarrow> (w, Some e)
      | None \<Rightarrow>
          (case lookup w p of
             None \<Rightarrow> (w, Some (''chmod '' @ p @ '': no such file or directory''))
           | Some Dir \<Rightarrow> (w, None)
           | Some (File c m) \<Rightarrow> (put p (File c (perm mod 512)) w, None)))"

text \<open>\<open>at_or_under d q\<close>: the cleaned path \<open>q\<close> is \<open>d\<close> or lies below it.\<close>

definition at_or_under :: "string \<Rightarrow> string \<Rightarrow> bool" where
  "at_or_under d q = (q = d \<or> prefix (d @ ''/'') q)"

text \<open>\<^verbatim>\<open>os.RemoveAll\<close>; the source discards its error, and the model removes everything.\<close>

definition os_RemoveAll :: "world \<Rightarrow> string \<Rightarrow> world" where
  "os_RemoveAll w p =
     w\<lparr>fs := filter (\<lambda>kv. \<not> at_or_under (filepath_Clean p) (fst kv)) (fs w)\<rparr>"

text \<open>
  \<^verbatim>\<open>os.MkdirTemp("", pattern)\<close> for a pattern without a star: the name is the temporary
  directory, a separator unless it ends in one, the pattern and a random decimal number.
  A name that exists is retried, 10000 names at most; the path in the message of the
  error after the last one holds the temporary directory twice, as in the library. A name
  exists when something is stored at it; nothing is stored below a name that does not
  exist, which the flat map does not know, so the model asks for both.
\<close>

definition TempDir :: "env \<Rightarrow> string" where
  "TempDir env = (if Getenv env ''TMPDIR'' = [] then ''/tmp'' else Getenv env ''TMPDIR'')"

definition joinPath :: "string \<Rightarrow> string \<Rightarrow> string" where
  "joinPath dir name =
     (if dir \<noteq> [] \<and> last dir = CHR ''/'' then dir @ name else dir @ ''/'' @ name)"

definition temp_name :: "env \<Rightarrow> string \<Rightarrow> nat \<Rightarrow> string" where
  "temp_name env pattern i = joinPath (TempDir env) pattern @ digits_of (nextRandom env i)"

definition occupied :: "world \<Rightarrow> string \<Rightarrow> bool" where
  "occupied w name = list_ex (\<lambda>kv. at_or_under (filepath_Clean name) (fst kv)) (fs w)"

function try_MkdirTemp :: "env \<Rightarrow> world \<Rightarrow> string \<Rightarrow> nat \<Rightarrow> world \<times> (error + string)" where
  "try_MkdirTemp env w pattern i =
     (if 10000 \<le> i
      then (w, Inl (''mkdirtemp '' @ TempDir env @ ''/'' @ joinPath (TempDir env) pattern
                    @ ''*: file exists''))
      else
        (let name = temp_name env pattern i
         in case fs_error env OpMkdir name of
              Some e \<Rightarrow> (w, Inl e)
            | None \<Rightarrow>
                if occupied w name then try_MkdirTemp env w pattern (Suc i)
                else (put name Dir w, Inr name)))"
  by pat_completeness auto
termination
  by (relation "measure (\<lambda>(env, w, pattern, i). 10000 - i)") auto

declare try_MkdirTemp.simps [simp del]

definition os_MkdirTemp :: "env \<Rightarrow> world \<Rightarrow> string \<Rightarrow> world \<times> (error + string)" where
  "os_MkdirTemp env w pattern = try_MkdirTemp env w pattern 0"

text \<open>
  \<^verbatim>\<open>exec.LookPath\<close> for a name without a separator (Go 1.19 and later): the first
  directory of \<^verbatim>\<open>$PATH\<close> that holds a regular file of that name with an executable bit;
  a hit at a relative path is returned together with \<^verbatim>\<open>ErrDot\<close>. The messages quote the
  name with \<^verbatim>\<open>strconv.Quote\<close>; the names searched by the program need no escapes.
\<close>

definition quoted :: "string \<Rightarrow> string" where
  "quoted name = [CHR 0x22] @ name @ [CHR 0x22]"

definition executable :: "node \<Rightarrow> bool" where
  "executable n =
     (case n of
        Dir \<Rightarrow> False
      | File c m \<Rightarrow> m mod 2 = 1 \<or> (m div 8) mod 2 = 1 \<or> (m div 64) mod 2 = 1)"

fun find_in_PATH :: "world \<Rightarrow> string list \<Rightarrow> string \<Rightarrow> string option" where
  "find_in_PATH w [] file = None"
| "find_in_PATH w (dir # dirs) file =
     (let path = filepath_Join [if dir = [] then ''.'' else dir, file]
      in case lookup w path of
           Some n \<Rightarrow> if executable n then Some path else find_in_PATH w dirs file
         | None \<Rightarrow> find_in_PATH w dirs file)"

definition LookPath :: "env \<Rightarrow> world \<Rightarrow> string \<Rightarrow> error + string" where
  "LookPath env w file =
     (case find_in_PATH w (PATH env) file of
        None \<Rightarrow> Inl (''exec: '' @ quoted file @ '': executable file not found in $PATH'')
      | Some path \<Rightarrow>
          if IsAbs path then Inr path
          else Inl (''exec: '' @ quoted file
                    @ '': cannot run executable found relative to current directory''))"

definition http_get :: "env \<Rightarrow> world \<Rightarrow> string \<Rightarrow> world \<times> (error + response)" where
  "http_get env w url = (w\<lparr>requests := requests w @ [url]\<rparr>, http_Get env url)"

definition run_command :: "env \<Rightarrow> world \<Rightarrow> string \<Rightarrow> string list \<Rightarrow> world \<times> string \<times> error option" where
  "run_command env w name args =
     (w\<lparr>commands := commands w @ [(name, args)]\<rparr>, CombinedOutput env name args)"

section \<open>Package main: the driver installer\<close>

subsection \<open>Downloading, copying and extracting\<close>

definition downloadFile :: "env \<Rightarrow> world \<Rightarrow> string \<Rightarrow> string \<Rightarrow> world \<times> error option" where
  "downloadFile env w url outputPath =
     (case http_get env w url of
        (w1, Inl e) \<Rightarrow> (w1, Some e)
      | (w1, Inr resp) \<Rightarrow>
          if StatusCode resp \<noteq> 200
          then (w1, Some (''download failed with status: '' @ Status resp))
          else
            (case os_Create env w1 outputPath of
               (w2, Some e) \<Rightarrow> (w2, Some e)
             | (w2, None) \<Rightarrow> io_Copy env w2 outputPath (Body resp) (BodyErr resp)))"

text \<open>
  \<^verbatim>\<open>copyFile\<close>: open the source, create the destination, copy, sync. The source is read
  after the destination has been created (and emptied).
\<close>

definition copyFile :: "env \<Rightarrow> world \<Rightarrow> string \<Rightarrow> string \<Rightarrow> world \<times> error option" where
  "copyFile env w src dst =
     (case fs_error env OpOpen src of
        Some e \<Rightarrow> (w, Some e)
      | None \<Rightarrow>
          (case lookup w src of
             None \<Rightarrow> (w, Some (''open '' @ src @ '': no such file or directory''))
           | Some n \<Rightarrow>
               (case os_Create env w dst of
                  (w1, Some e) \<Rightarrow> (w1, Some e)
                | (w1, None) \<Rightarrow>
                    (case lookup w1 src of
                       Some (File c m) \<Rightarrow>
                         (case io_Copy env w1 dst c None of
                            (w2, Some e) \<Rightarrow> (w2, Some e)
                          | (w2, None) \<Rightarrow> (w2, fs_error env OpSync dst))
                     | _ \<Rightarrow> (w1, Some (''read '' @ src @ '': is a directory''))))))"

text \<open>
  The guard of both extractors: the joined path must start with the cleaned destination
  directory followed by the separator.
\<close>

definition Separator :: char where
  "Separator = CHR ''/''"

definition illegal_path :: "string \<Rightarrow> string \<Rightarrow> bool" where
  "illegal_path destDir path = (\<not> HasPrefix path (filepath_Clean destDir @ [Separator]))"

text \<open>The loop of \<^verbatim>\<open>extractZip\<close> over \<^verbatim>\<open>reader.File\<close>.\<close>

fun extractZip_files :: "env \<Rightarrow> world \<Rightarrow> string \<Rightarrow> zip_file list \<Rightarrow> world \<times> error option" where
  "extractZip_files env w destDir [] = (w, None)"
| "extractZip_files env w destDir (file # files) =
     (let path = filepath_Join [destDir, zip_file.Name file]
      in if illegal_path destDir path then (w, Some (''illegal file path: '' @ path))
         else if IsDir file
         then extractZip_files env (fst (os_MkdirAll env w path)) destDir files
         else
           (case os_MkdirAll env w (filepath_Dir path) of
              (w1, Some e) \<Rightarrow> (w1, Some e)
            | (w1, None) \<Rightarrow>
                (case os_OpenFile env w1 path (Perm file) of
                   (w2, Some e) \<Rightarrow> (w2, Some e)
                 | (w2, None) \<Rightarrow>
                     (case open_err file of
                        Some e \<Rightarrow> (w2, Some e)
                      | None \<Rightarrow>
                          (case io_Copy env w2 path (zip_file.data file) (zip_file.read_err file) of
                             (w3, Some e) \<Rightarrow> (w3, Some e)
                           | (w3, None) \<Rightarrow> extractZip_files env w3 destDir files)))))"

text \<open>\<^verbatim>\<open>zip.OpenReader\<close> opens the file at \<open>p\<close> and decodes its bytes.\<close>

definition read_archive :: "env \<Rightarrow> world \<Rightarrow> string \<Rightarrow> error + string" where
  "read_archive env w p =
     (case fs_error env OpOpen p of
        Some e \<Rightarrow> Inl e
      | None \<Rightarrow>
          (case lookup w p of
             None \<Rightarrow> Inl (''open '' @ p @ '': no such file or directory'')
           | Some Dir \<Rightarrow> Inl (''read '' @ p @ '': is a directory'')
           | Some (File c m) \<Rightarrow> Inr c))"

definition extractZip :: "env \<Rightarrow> world \<Rightarrow> string \<Rightarrow> string \<Rightarrow> world \<times> error option" where
  "extractZip env w zipPath destDir =
     (case read_archive env w zipPath of
        Inl e \<Rightarrow> (w, Some e)
      | Inr bytes \<Rightarrow>
          (case zip_NewReader env bytes of
             Inl e \<Rightarrow> (w, Some e)
           | Inr files \<Rightarrow> extractZip_files env w destDir files))"

text \<open>
  The loop of \<^verbatim>\<open>extractTarGz\<close> over \<^verbatim>\<open>tarReader.Next()\<close>: directories and regular files
  are extracted, every other type of entry is skipped after the guard.
\<close>

fun extractTarGz_items :: "env \<Rightarrow> world \<Rightarrow> string \<Rightarrow> tar_item list \<Rightarrow> world \<times> error option" where
  "extractTarGz_items env w destDir [] = (w, None)"
| "extractTarGz_items env w destDir (Broken e # items) = (w, Some e)"
| "extractTarGz_items env w destDir (Header header # items) =
     (let path = filepath_Join [destDir, tar_header.Name header]
      in if illegal_path destDir path then (w, Some (''illegal file path: '' @ path))
         else if Typeflag header = TypeDir
         then
           (case os_MkdirAll env w path of
              (w1, Some e) \<Rightarrow> (w1, Some e)
            | (w1, None) \<Rightarrow> extractTarGz_items env w1 destDir items)
         else if Typeflag header = TypeReg
         then
           (case os_MkdirAll env w (filepath_Dir path) of
              (w1, Some e) \<Rightarrow> (w1, Some e)
            | (w1, None) \<Rightarrow>
                (case os_OpenFile env w1 path (Mode header) of
                   (w2, Some e) \<Rightarrow> (w2, Some e)
                 | (w2, None) \<Rightarrow>
                     (case io_Copy env w2 path (tar_header.data header) (tar_header.read_err header) of
                        (w3, Some e) \<Rightarrow> (w3, Some e)
                      | (w3, None) \<Rightarrow> extractTarGz_items env w3 destDir items)))
         else extractTarGz_items env w destDir items)"

definition extractTarGz :: "env \<Rightarrow> world \<Rightarrow> string \<Rightarrow> string \<Rightarrow> world \<times> error option" where
  "extractTarGz env w tarGzPath destDir =
     (case read_archive env w tarGzPath of
        Inl e \<Rightarrow> (w, Some e)
      | Inr bytes \<Rightarrow>
          (case gzip_tar_NewReader env bytes of
             Inl e \<Rightarrow> (w, Some e)
           | Inr items \<Rightarrow> extractTarGz_items env w destDir items))"

subsection \<open>The Chrome family\<close>

text \<open>
  The loops of \<^verbatim>\<open>getInstalledChromeVersion\<close>. Each keeps the output of the last command
  it ran, also of one that failed, and stops at the first command that succeeds. On macOS
  and Windows a candidate path is probed when \<^verbatim>\<open>os.Stat\<close> finds it, with the command
  \<open>mk path\<close>; on Linux a candidate name is probed when \<^verbatim>\<open>which\<close> finds it.
\<close>

fun probe_paths ::
  "env \<Rightarrow> world \<Rightarrow> string \<Rightarrow> (string \<Rightarrow> string \<times> string list) \<Rightarrow> string list \<Rightarrow> world \<times> string" where
  "probe_paths env w output mk [] = (w, output)"
| "probe_paths env w output mk (path # paths) =
     (case os_Stat env w path of
        StatOk n \<Rightarrow>
          (case run_command env w (fst (mk path)) (snd (mk path)) of
             (w1, out, None) \<Rightarrow> (w1, out)
           | (w1, out, Some e) \<Rightarrow> probe_paths env w1 out mk paths)
      | _ \<Rightarrow> probe_paths env w output mk paths)"

fun probe_which :: "env \<Rightarrow> world \<Rightarrow> string \<Rightarrow> string list \<Rightarrow> world \<times> string" where
  "probe_which env w output [] = (w, output)"
| "probe_which env w output (browser # browsers) =
     (case run_command env w ''which'' [browser] of
        (w1, out0, None) \<Rightarrow>
          (case run_command env w1 browser [''--version''] of
             (w2, out, None) \<Rightarrow> (w2, out)
           | (w2, out, Some e) \<Rightarrow> probe_which env w2 out browsers)
      | (w1, out0, Some e) \<Rightarrow> probe_which env w1 output browsers)"

definition chrome_probe :: "env \<Rightarrow> world \<Rightarrow> error + world \<times> string" where
  "chrome_probe env w =
     (if GOOS env = ''darwin'' then
        Inr (probe_paths env w [] (\<lambda>path. (path, [''--version'']))
               [''/Applications/Google Chrome.app/Contents/MacOS/Google Chrome'',
                ''/Applications/Chrome.app/Contents/MacOS/Chrome''])
      else if GOOS env = ''linux'' then
        Inr (probe_which env w []
               [''google-chrome'', ''google-chrome-stable'', ''chromium'', ''chromium-browser''])
      else if GOOS env = ''windows'' then
        Inr (probe_paths env w []
               (\<lambda>path. (''powershell'',
                          [''-Command'', ''(Get-Item '' @ [CHR 0x27] @ path @ [CHR 0x27]
                                          @ '').VersionInfo.FileVersion'']))
               [filepath_Join [Getenv env ''ProgramFiles'', ''Google'', ''Chrome'',
                               ''Application'', ''chrome.exe''],
                filepath_Join [Getenv env ''ProgramFiles(x86)'', ''Google'', ''Chrome'',
                               ''Application'', ''chrome.exe''],
                filepath_Join [Getenv env ''LocalAppData'', ''Google'', ''Chrome'',
                               ''Application'', ''chrome.exe'']])
      else Inl (''unsupported OS for Chrome detection: '' @ GOOS env))"

definition getInstalledChromeVersion :: "env \<Rightarrow> world \<Rightarrow> world \<times> (error + string)" where
  "getInstalledChromeVersion env w =
     (case chrome_probe env w of
        Inl e \<Rightarrow> (w, Inl e)
      | Inr (w1, output) \<Rightarrow>
          (let version = TrimSpace output
           in if version = [] then (w1, Inl ''Chrome not found'')
              else
                (case find_first version4_at version of
                   Some m \<Rightarrow> (w1, Inr m)
                 | None \<Rightarrow>
                     (case find_first version3_at version of
                        Some m \<Rightarrow> (w1, Inr m)
                      | None \<Rightarrow>
                          (w1, Inl (''failed to parse Chrome version from: '' @ version))))))"

definition LATEST_RELEASE :: string where
  "LATEST_RELEASE = ''https://chromedriver.storage.googleapis.com/LATEST_RELEASE''"

definition getLatestChromeDriverVersion :: "env \<Rightarrow> world \<Rightarrow> world \<times> (error + string)" where
  "getLatestChromeDriverVersion env w =
     (case http_get env w LATEST_RELEASE of
        (w1, Inl e) \<Rightarrow> (w1, Inl e)
      | (w1, Inr resp) \<Rightarrow>
          if StatusCode resp \<noteq> 200
          then (w1, Inl (''unexpected status code: '' @ itoa (StatusCode resp)))
          else
            (case BodyErr resp of
               Some e \<Rightarrow> (w1, Inl e)
             | None \<Rightarrow> (w1, Inr (TrimSpace (Body resp)))))"

text \<open>
  \<^verbatim>\<open>getChromeDriverPath\<close>: a driver on the search path wins, then one in
  \<^verbatim>\<open>/usr/local/bin\<close> or \<^verbatim>\<open>/usr/bin\<close>; otherwise the bin directory is created and the
  path in it returned (\<open>default_location\<close> is the code after the switch).
\<close>

fun first_existing :: "env \<Rightarrow> world \<Rightarrow> string list \<Rightarrow> string \<Rightarrow> string option" where
  "first_existing env w [] execName = None"
| "first_existing env w (dir # dirs) execName =
     (let path = filepath_Join [dir, execName]
      in case os_Stat env w path of
           StatOk n \<Rightarrow> Some path
         | _ \<Rightarrow> first_existing env w dirs execName)"

definition default_location :: "env \<Rightarrow> world \<Rightarrow> string \<Rightarrow> string \<Rightarrow> world \<times> (error + string)" where
  "default_location env w binPath execName =
     (case os_MkdirAll env w binPath of
        (w1, Some e) \<Rightarrow> (w1, Inl (''failed to create bin directory: '' @ e))
      | (w1, None) \<Rightarrow> (w1, Inr (filepath_Join [binPath, execName])))"

definition getChromeDriverPath :: "env \<Rightarrow> world \<Rightarrow> world \<times> (error + string)" where
  "getChromeDriverPath env w =
     (let execName = (if GOOS env = ''windows'' then ''chromedriver.exe'' else ''chromedriver'')
      in case LookPath env w execName of
           Inr path \<Rightarrow> (w, Inr path)
         | Inl e \<Rightarrow>
             if GOOS env = ''darwin'' \<or> GOOS env = ''linux'' then
               (case first_existing env w [''/usr/local/bin'', ''/usr/bin''] execName of
                  Some path \<Rightarrow> (w, Inr path)
                | None \<Rightarrow> default_location env w ''/usr/local/bin'' execName)
             else if GOOS env = ''windows'' then
               default_location env w (filepath_Join [Getenv env ''USERPROFILE'', ''bin'']) execName
             else (w, Inl (''unsupported OS for ChromeDriver: '' @ GOOS env)))"

definition chrome_platform :: "env \<Rightarrow> string option" where
  "chrome_platform env =
     (if GOOS env = ''darwin'' then
        (if GOARCH env = ''arm64'' then Some ''mac_arm64'' else Some ''mac64'')
      else if GOOS env = ''linux'' then Some ''linux64''
      else if GOOS env = ''windows'' then Some ''win32''
      else None)"

text \<open>
  \<^verbatim>\<open>downloadAndInstallChromeDriver\<close> from the point where the temporary directory exists:
  download, resolve the install path, extract, copy, make executable.
\<close>

definition place_chromedriver ::
  "env \<Rightarrow> world \<Rightarrow> string \<Rightarrow> string \<Rightarrow> string \<Rightarrow> world \<times> error option" where
  "place_chromedriver env w tempDir downloadURL driverVersion =
     (let archivePath = filepath_Join [tempDir, ''chromedriver.zip'']
      in case downloadFile env w downloadURL archivePath of
           (w1, Some e) \<Rightarrow> (w1, Some (''download failed: '' @ e))
         | (w1, None) \<Rightarrow>
             (case getChromeDriverPath env w1 of
                (w2, Inl e) \<Rightarrow> (w2, Some e)
              | (w2, Inr driverPath) \<Rightarrow>
                  (case extractZip env w2 archivePath tempDir of
                     (w3, Some e) \<Rightarrow> (w3, Some (''extraction failed: '' @ e))
                   | (w3, None) \<Rightarrow>
                       (let srcDriver =
                              filepath_Join [tempDir, ''chromedriver'']
                              @ (if GOOS env = ''windows'' then ''.exe'' else []);
                            targetDir = filepath_Dir driverPath
                        in case os_MkdirAll env w3 targetDir of
                             (w4, Some e) \<Rightarrow>
                               (w4, Some (''failed to create target directory: '' @ e))
                           | (w4, None) \<Rightarrow>
                               (case copyFile env w4 srcDriver driverPath of
                                  (w5, Some e) \<Rightarrow>
                                    (w5, Some (''failed to install driver: '' @ e))
                                | (w5, None) \<Rightarrow>
                                    (case (if GOOS env \<noteq> ''windows''
                                           then os_Chmod env w5 driverPath 493
                                           else (w5, None)) of
                                       (w6, Some e) \<Rightarrow>
                                         (w6, Some (''failed to make driver executable: '' @ e))
                                     | (w6, None) \<Rightarrow>
                                         (Println (''ChromeDriver '' @ driverVersion
                                                   @ '' installed successfully at '' @ driverPath)
                                            w6, None)))))))"

text \<open>
  The deferred \<^verbatim>\<open>os.RemoveAll(tempDir)\<close> runs on every return after the temporary
  directory has been made.
\<close>

definition downloadAndInstallChromeDriver :: "env \<Rightarrow> world \<Rightarrow> string \<Rightarrow> world \<times> error option" where
  "downloadAndInstallChromeDriver env w chromeMajorVersion =
     (let url = LATEST_RELEASE @ ''_'' @ chromeMajorVersion
      in case http_get env w url of
           (w1, Inl e) \<Rightarrow> (w1, Some e)
         | (w1, Inr resp) \<Rightarrow>
             if StatusCode resp \<noteq> 200
             then (w1, Some (''failed to get ChromeDriver version: status ''
                             @ itoa (StatusCode resp)))
             else
               (case BodyErr resp of
                  Some e \<Rightarrow> (w1, Some e)
                | None \<Rightarrow>
                    (let driverVersion = TrimSpace (Body resp)
                     in case chrome_platform env of
                          None \<Rightarrow> (w1, Some (''unsupported OS: '' @ GOOS env))
                        | Some platform \<Rightarrow>
                            (let downloadURL =
                                   ''https://chromedriver.storage.googleapis.com/'' @ driverVersion
                                   @ ''/chromedriver_'' @ platform @ ''.zip'';
                                 w2 = Println (''Downloading ChromeDriver '' @ driverVersion
                                               @ '' for Chrome '' @ chromeMajorVersion
                                               @ '' from '' @ downloadURL) w1
                             in case os_MkdirTemp env w2 ''chromedriver'' of
                                  (w3, Inl e) \<Rightarrow> (w3, Some e)
                                | (w3, Inr tempDir) \<Rightarrow>
                                    (case place_chromedriver env w3 tempDir downloadURL
                                            driverVersion of
                                       (w4, r) \<Rightarrow> (os_RemoveAll w4 tempDir, r))))))"

definition installChromeDriver :: "env \<Rightarrow> world \<Rightarrow> world \<times> error option" where
  "installChromeDriver env w =
     (case getInstalledChromeVersion env (Println ''Checking Chrome version...'' w) of
        (w1, Inl e) \<Rightarrow> (w1, Some (''failed to get installed Chrome version: '' @ e))
      | (w1, Inr installedVersion) \<Rightarrow>
          if installedVersion = []
          then (w1, Some ''Chrome is not installed. Please install Chrome manually'')
          else
            (case getLatestChromeDriverVersion env w1 of
               (w2, Inl e) \<Rightarrow> (w2, Some (''failed to get latest Chrome driver version: '' @ e))
             | (w2, Inr latestVersion) \<Rightarrow>
                 (let w3 = Println (''Chrome version: '' @ installedVersion
                                    @ '', Latest ChromeDriver: '' @ latestVersion) w2
                  in case major_version installedVersion of
                       None \<Rightarrow>
                         (w3, Some (''failed to parse Chrome version: '' @ installedVersion))
                     | Some installedMajor \<Rightarrow>
                         (case getChromeDriverPath env w3 of
                            (w4, Inl e) \<Rightarrow> (w4, Some e)
                          | (w4, Inr chromeDriverPath) \<Rightarrow>
                              (case os_Stat env w4 chromeDriverPath of
                                 NotExist \<Rightarrow>
                                   downloadAndInstallChromeDriver env
                                     (Println ''ChromeDriver not found. Installing...'' w4)
                                     installedMajor
                               | _ \<Rightarrow>
                                   (Println (''ChromeDriver is already installed. ''
                                             @ ''Use 'owl setup --force' to reinstall drivers.'')
                                      w4, None))))))"

subsection \<open>The Firefox family\<close>

definition getInstalledGeckoDriverVersion :: "env \<Rightarrow> world \<Rightarrow> world \<times> (error + string)" where
  "getInstalledGeckoDriverVersion env w =
     (case LookPath env w ''geckodriver'' of
        Inl e \<Rightarrow> (w, Inl (''geckodriver not installed: '' @ e))
      | Inr geckoPath \<Rightarrow>
          (case run_command env w geckoPath [''--version''] of
             (w1, output, Some e) \<Rightarrow> (w1, Inl (''failed to get geckodriver version: '' @ e))
           | (w1, output, None) \<Rightarrow>
               (case find_first gecko_version_at output of
                  None \<Rightarrow> (w1, Inl (''failed to parse geckodriver version from: '' @ output))
                | Some v \<Rightarrow> (w1, Inr v))))"

text \<open>
  Decoding the release document into a struct with the one field \<^verbatim>\<open>TagName\<close>, tagged
  \<^verbatim>\<open>json:"tag_name"\<close>. \<^verbatim>\<open>encoding/json\<close> goes through the members of the object in the
  order of the document, here the order of the list. A key names the field when it
  equals \<^verbatim>\<open>tag_name\<close> without regard to the case of its letters (\<open>EqualFold\<close>; no character
  beyond ASCII folds to a letter of this name). A string value is stored in the field,
  so that the last one stays; \<^verbatim>\<open>null\<close> leaves the field as it is; any other value is an
  error. Members with other keys are ignored, and the field of a document without the key
  is empty.
\<close>

definition to_lower :: "char \<Rightarrow> char" where
  "to_lower c =
     (if 65 \<le> (of_char c :: nat) \<and> (of_char c :: nat) \<le> 90
      then char_of ((of_char c :: nat) + 32) else c)"

definition EqualFold :: "string \<Rightarrow> string \<Rightarrow> bool" where
  "EqualFold s t = (map to_lower s = map to_lower t)"

text \<open>How the messages of \<^verbatim>\<open>encoding/json\<close> name the kind of a value.\<close>

fun json_kind :: "go_value \<Rightarrow> string" where
  "json_kind Nil = ''null''"
| "json_kind (Bool b) = ''bool''"
| "json_kind (Float64 x) = ''number''"
| "json_kind (String t) = ''string''"
| "json_kind (Array vs) = ''array''"
| "json_kind (Object kvs) = ''object''"

fun decode_TagName :: "(string \<times> go_value) list \<Rightarrow> string \<Rightarrow> error + string" where
  "decode_TagName [] field = Inr field"
| "decode_TagName ((k, v) # kvs) field =
     (if EqualFold k ''tag_name'' then
        (case v of
           Nil \<Rightarrow> decode_TagName kvs field
         | String t \<Rightarrow> decode_TagName kvs t
         | _ \<Rightarrow> Inl (''json: cannot unmarshal '' @ json_kind v
                      @ '' into Go struct field .tag_name of type string''))
      else decode_TagName kvs field)"

text \<open>
  \<^verbatim>\<open>json.NewDecoder(resp.Body).Decode(&release)\<close>: the body is read, the first JSON value
  in it is parsed (\<open>json_Unmarshal\<close> gives the value, or the message of the syntax error),
  and the value is stored in the struct.
\<close>

definition decode_release :: "env \<Rightarrow> response \<Rightarrow> error + string" where
  "decode_release env resp =
     (case BodyErr resp of
        Some e \<Rightarrow> Inl e
      | None \<Rightarrow>
          (case json_Unmarshal env (Body resp) of
             Inl e \<Rightarrow> Inl e
           | Inr (Object kvs) \<Rightarrow> decode_TagName kvs []
           | Inr Nil \<Rightarrow> Inr []
           | Inr v \<Rightarrow>
               Inl (''json: cannot unmarshal '' @ json_kind v
                    @ '' into Go value of type struct { TagName string '' @ [CHR 0x22]
                    @ ''json:'' @ [CHR 0x5C, CHR 0x22] @ ''tag_name''
                    @ [CHR 0x5C, CHR 0x22, CHR 0x22] @ '' }'')))"

definition GECKO_LATEST :: string where
  "GECKO_LATEST = ''https://api.github.com/repos/mozilla/geckodriver/releases/latest''"

definition getLatestGeckoDriverVersion :: "env \<Rightarrow> world \<Rightarrow> world \<times> (error + string)" where
  "getLatestGeckoDriverVersion env w =
     (case http_get env w GECKO_LATEST of
        (w1, Inl e) \<Rightarrow> (w1, Inl e)
      | (w1, Inr resp) \<Rightarrow>
          if StatusCode resp \<noteq> 200
          then (w1, Inl (''unexpected status code: '' @ itoa (StatusCode resp)))
          else
            (case decode_release env resp of
               Inl e \<Rightarrow> (w1, Inl e)
             | Inr version \<Rightarrow>
                 (w1, Inr (if HasPrefix version ''v'' then drop 1 version else version))))"

definition getBinDirectory :: "env \<Rightarrow> world \<Rightarrow> world \<times> string" where
  "getBinDirectory env w =
     (if GOOS env = ''darwin'' \<or> GOOS env = ''linux'' then
        (case os_MkdirAll env w ''/usr/local/bin'' of
           (w1, None) \<Rightarrow> (w1, ''/usr/local/bin'')
         | (w1, Some e) \<Rightarrow>
             (case UserHomeDir env of
                Inr homeDir \<Rightarrow>
                  (let binDir = filepath_Join [homeDir, ''bin'']
                   in (fst (os_MkdirAll env w1 binDir), binDir))
              | Inl e' \<Rightarrow> (w1, ''.'')))
      else if GOOS env = ''windows'' then
        (let binDir = filepath_Join [Getenv env ''USERPROFILE'', ''bin'']
         in (fst (os_MkdirAll env w binDir), binDir))
      else (w, ''.''))"

text \<open>The download URL and the archive extension for the platform.\<close>

definition gecko_release :: "string \<Rightarrow> string \<Rightarrow> string" where
  "gecko_release version asset =
     ''https://github.com/mozilla/geckodriver/releases/download/v'' @ version
     @ ''/geckodriver-v'' @ version @ asset"

definition gecko_download :: "env \<Rightarrow> string \<Rightarrow> (string \<times> string) option" where
  "gecko_download env version =
     (if GOOS env = ''darwin'' then
        Some (if GOARCH env = ''arm64'' then gecko_release version ''-macos-aarch64.tar.gz''
              else gecko_release version ''-macos.tar.gz'', ''.tar.gz'')
      else if GOOS env = ''linux'' then
        Some (if GOARCH env = ''arm64'' then gecko_release version ''-linux-aarch64.tar.gz''
              else gecko_release version ''-linux64.tar.gz'', ''.tar.gz'')
      else if GOOS env = ''windows'' then
        Some (gecko_release version ''-win64.zip'', ''.zip'')
      else None)"

text \<open>
  \<^verbatim>\<open>downloadAndInstallGeckoDriver\<close> from the point where the temporary directory exists.
\<close>

definition place_geckodriver ::
  "env \<Rightarrow> world \<Rightarrow> string \<Rightarrow> string \<Rightarrow> string \<Rightarrow> string \<Rightarrow> world \<times> error option" where
  "place_geckodriver env w tempDir downloadURL archiveExt version =
     (let archivePath = filepath_Join [tempDir, ''geckodriver'' @ archiveExt]
      in case downloadFile env (Println (''Downloading Geckodriver from: '' @ downloadURL) w)
                downloadURL archivePath of
           (w1, Some e) \<Rightarrow> (w1, Some (''download failed: '' @ e))
         | (w1, None) \<Rightarrow>
             (case (if HasSuffix archivePath ''.zip''
                    then extractZip env (Println ''Extracting Geckodriver...'' w1) archivePath tempDir
                    else extractTarGz env (Println ''Extracting Geckodriver...'' w1) archivePath tempDir) of
                (w2, Some e) \<Rightarrow> (w2, Some (''extraction failed: '' @ e))
              | (w2, None) \<Rightarrow>
                  (case getBinDirectory env w2 of
                     (w3, binPath) \<Rightarrow>
                       (case os_MkdirAll env w3 binPath of
                          (w4, Some e) \<Rightarrow> (w4, Some (''failed to create bin directory: '' @ e))
                        | (w4, None) \<Rightarrow>
                            (let driverName =
                                   ''geckodriver'' @ (if GOOS env = ''windows'' then ''.exe'' else []);
                                 srcPath = filepath_Join [tempDir, driverName];
                                 dstPath = filepath_Join [binPath, driverName]
                             in case copyFile env w4 srcPath dstPath of
                                  (w5, Some e) \<Rightarrow> (w5, Some (''failed to install driver: '' @ e))
                                | (w5, None) \<Rightarrow>
                                    (case (if GOOS env \<noteq> ''windows''
                                           then os_Chmod env w5 dstPath 493
                                           else (w5, None)) of
                                       (w6, Some e) \<Rightarrow>
                                         (w6, Some (''failed to make driver executable: '' @ e))
                                     | (w6, None) \<Rightarrow>
                                         (Println (''Geckodriver v'' @ version
                                                   @ '' installed successfully at '' @ dstPath)
                                            w6, None)))))))"

definition downloadAndInstallGeckoDriver :: "env \<Rightarrow> world \<Rightarrow> string \<Rightarrow> world \<times> error option" where
  "downloadAndInstallGeckoDriver env w version =
     (case gecko_download env version of
        None \<Rightarrow> (w, Some (''unsupported OS for Geckodriver installation: '' @ GOOS env))
      | Some (downloadURL, archiveExt) \<Rightarrow>
          (case os_MkdirTemp env w ''geckodriver'' of
             (w1, Inl e) \<Rightarrow> (w1, Some e)
           | (w1, Inr tempDir) \<Rightarrow>
               (case place_geckodriver env w1 tempDir downloadURL archiveExt version of
                  (w2, r) \<Rightarrow> (os_RemoveAll w2 tempDir, r))))"

text \<open>
  \<^verbatim>\<open>installFirefoxDriver\<close>. An error of the version check is fatal unless its message
  contains \<^verbatim>\<open>not installed\<close>; \<open>update_geckodriver\<close> is the code after that check, with
  the installed version (empty after an error).
\<close>

definition update_geckodriver :: "env \<Rightarrow> world \<Rightarrow> string \<Rightarrow> world \<times> error option" where
  "update_geckodriver env w installedVersion =
     (case getLatestGeckoDriverVersion env w of
        (w1, Inl e) \<Rightarrow> (w1, Some (''failed to get latest Geckodriver version: '' @ e))
      | (w1, Inr latestVersion) \<Rightarrow>
          if installedVersion = latestVersion
          then (Println (''Geckodriver is up to date (version '' @ installedVersion @ '')'') w1,
                None)
          else
            (case downloadAndInstallGeckoDriver env
                    (Println (''Updating Geckodriver (Installed: '' @ installedVersion
                              @ '', Latest: '' @ latestVersion @ '')...'') w1)
                    latestVersion of
               (w2, Some e) \<Rightarrow> (w2, Some (''failed to install Geckodriver: '' @ e))
             | (w2, None) \<Rightarrow> (Println ''Geckodriver updated successfully.'' w2, None)))"

definition installFirefoxDriver :: "env \<Rightarrow> world \<Rightarrow> world \<times> error option" where
  "installFirefoxDriver env w =
     (case getInstalledGeckoDriverVersion env (Println ''Checking Geckodriver version...'' w) of
        (w1, Inl e) \<Rightarrow>
          if \<not> Contains e ''not installed''
          then (w1, Some (''failed to check installed Geckodriver: '' @ e))
          else update_geckodriver env w1 []
      | (w1, Inr installedVersion) \<Rightarrow> update_geckodriver env w1 installedVersion)"

subsection \<open>The WebKit family\<close>

definition installWebkitDriver :: "env \<Rightarrow> world \<Rightarrow> world \<times> error option" where
  "installWebkitDriver env w =
     (if GOOS env \<noteq> ''darwin''
      then (Println ''WebKit (Safari) automation is only supported on macOS. Skipping.'' w, None)
      else
        (let w1 = Println ''Checking Safari WebDriver...'' w
         in case LookPath env w1 ''safaridriver'' of
              Inl e \<Rightarrow> (w1, Some (''safaridriver not found: '' @ e))
            | Inr path \<Rightarrow>
                (case run_command env (Println ''Enabling Safari WebDriver...'' w1)
                        ''safaridriver'' [''--enable''] of
                   (w2, output, None) \<Rightarrow>
                     (Println ''Safari WebDriver enabled successfully.'' w2, None)
                 | (w2, output, Some e) \<Rightarrow>
                     if Contains output ''administrator privileges''
                     then
                       (Println ''  sudo safaridriver --enable''
                          (Println ''Please run the following command manually in Terminal:''
                             (Println ''Safari WebDriver requires administrator privileges to enable.''
                                w2)), None)
                     else
                       (w2, Some (''failed to enable Safari WebDriver: '' @ e
                                  @ '', output: '' @ output)))))"

subsection \<open>The setup command\<close>

text \<open>
  The function \<^verbatim>\<open>setup\<close> (\<open>owl_setup\<close> here) runs the three installers one after the other, collects the message of each
  one that failed, prints the list, and returns an error that counts them.
\<close>

definition issue :: "string \<Rightarrow> error option \<Rightarrow> string list" where
  "issue family r = (case r of None \<Rightarrow> [] | Some e \<Rightarrow> [family @ '' driver: '' @ e])"

definition report :: "string list \<Rightarrow> world \<Rightarrow> world" where
  "report setupErrors w =
     (if 0 < length setupErrors
      then foldl (\<lambda>w' e. Println (''- '' @ e) w')
             (Println ''Setup completed with some issues:'' w) setupErrors
      else Println ''Setup completed successfully.'' w)"

definition owl_setup :: "env \<Rightarrow> world \<Rightarrow> world \<times> error option" where
  "owl_setup env w =
     (case installChromeDriver env (Println ''Setting up Owl Automation Framework...'' w) of
        (w1, r1) \<Rightarrow>
          (case installFirefoxDriver env w1 of
             (w2, r2) \<Rightarrow>
               (case installWebkitDriver env w2 of
                  (w3, r3) \<Rightarrow>
                    (let setupErrors = issue ''Chrome'' r1 @ issue ''Firefox'' r2 @ issue ''Webkit'' r3;
                         w4 = Println ''Run your tests with `go test ./tests -v`.''
                                (report setupErrors w3)
                     in if 0 < length setupErrors
                        then (w4, Some (''setup completed with ''
                                        @ itoa (int (length setupErrors)) @ '' issues''))
                        else (w4, None)))))"

text \<open>
  \<^verbatim>\<open>Run\<close> with the arguments of the process: \<open>Some c\<close> is \<^verbatim>\<open>os.Exit(c)\<close>, \<open>None\<close> is a
  normal return. A Go process whose main function returns ends with status 0.
\<close>

definition Run :: "env \<Rightarrow> world \<Rightarrow> string list \<Rightarrow> world \<times> nat option" where
  "Run env w args =
     (if length args < 2
      then (Println ''  setup  Install or update required browser drivers''
              (Println ''Available commands:'' (Println ''Usage: owl <command>'' w)), Some 1)
      else if args ! 1 = ''setup'' then
        (case owl_setup env w of
           (w1, Some e) \<Rightarrow> (Println (''Setup encountered errors: '' @ e) w1, Some 1)
         | (w1, None) \<Rightarrow> (w1, None))
      else (Println (''Unknown command: '' @ args ! 1) w, Some 1))"

definition exit_code :: "nat option \<Rightarrow> nat" where
  "exit_code r = (case r of Some c \<Rightarrow> c | None \<Rightarrow> 0)"

section \<open>Concrete clients, environments and notions used in the statements\<close>

subsection \<open>For the session clients\<close>

text \<open>The HTTP POSTs of a trace.\<close>

definition posts :: "event list \<Rightarrow> event list" where
  "posts t = filter (\<lambda>e. case e of HttpPost u c b \<Rightarrow> True | _ \<Rightarrow> False) t"

text \<open>A client whose driver process was never started: no command, or one without process.\<close>

definition never_started :: "Cmd option \<Rightarrow> bool" where
  "never_started c = (case c of None \<Rightarrow> True | Some c' \<Rightarrow> Process c' = None)"

text \<open>
  A driver on port 4444 that answers \<^verbatim>\<open>POST /session\<close> with the body \<open>reply\<close> and accepts
  navigation in session \<^verbatim>\<open>abc123\<close> only; the operating system under it starts every
  process as number 1 and refuses to kill a process that has been killed before (as
  Windows does, and as \<^verbatim>\<open>os.ErrProcessDone\<close> reports).
\<close>

definition reply_with :: "int \<Rightarrow> string \<Rightarrow> response" where
  "reply_with code b = \<lparr>StatusCode = code, Status = itoa code, Body = b, BodyErr = None\<rparr>"

definition mock_json :: "string \<Rightarrow> go_value option" where
  \<open>mock_json b =
     (if b = ''{"value":{"sessionId":"abc123"}}''
      then Some (Object [(''value'', Object [(''sessionId'', String ''abc123'')])])
      else if b = ''{"value":null}'' then Some (Object [(''value'', Nil)])
      else if b = ''{}'' then Some (Object [])
      else None)\<close>

definition driver_replying :: "string \<Rightarrow> benv" where
  "driver_replying reply =
     \<lparr>run_result = (\<lambda>t c a. None),
      start_result = (\<lambda>t c a. Inr 1),
      post_result = (\<lambda>t u b.
        if u = ''http://localhost:4444/session'' then Inr (reply_with 200 reply)
        else if u = ''http://localhost:4444/session/abc123/url'' then Inr (reply_with 200 ''{}'')
        else Inr (reply_with 404 ''{}'')),
      kill_result = (\<lambda>t pid.
        if Kill pid \<in> set t then Some ''os: process already finished'' else None),
      json_Decode = mock_json\<rparr>"

definition mock_driver :: benv where
  \<open>mock_driver = driver_replying ''{"value":{"sessionId":"abc123"}}''\<close>

definition launched_Firefox :: Firefox where
  "launched_Firefox =
     \<lparr>Firefox.cmd = Some \<lparr>Path = ''geckodriver'', Args = [''--port=4444''], Process = Some 1\<rparr>,
      Firefox.sessionID = ''abc123''\<rparr>"

definition launched_WebKit :: WebKit where
  "launched_WebKit =
     \<lparr>WebKit.cmd = Some \<lparr>Path = ''safaridriver'', Args = [''--port=4444''], Process = Some 1\<rparr>,
      WebKit.sessionID = ''abc123''\<rparr>"

subsection \<open>For the installer\<close>

text \<open>
  Chrome is absent when no probe of \<^verbatim>\<open>getInstalledChromeVersion\<close> finds it: no candidate
  path exists (macOS, Windows), no candidate name is found by \<^verbatim>\<open>which\<close> (Linux); on
  any other system nothing is probed.
\<close>

definition chrome_absent :: "env \<Rightarrow> world \<Rightarrow> bool" where
  "chrome_absent env w =
     (if GOOS env = ''darwin'' then
        list_all (\<lambda>p. case os_Stat env w p of StatOk n \<Rightarrow> False | _ \<Rightarrow> True)
          [''/Applications/Google Chrome.app/Contents/MacOS/Google Chrome'',
           ''/Applications/Chrome.app/Contents/MacOS/Chrome'']
      else if GOOS env = ''linux'' then
        list_all (\<lambda>b. snd (CombinedOutput env ''which'' [b]) \<noteq> None)
          [''google-chrome'', ''google-chrome-stable'', ''chromium'', ''chromium-browser'']
      else if GOOS env = ''windows'' then
        list_all (\<lambda>p. case os_Stat env w p of StatOk n \<Rightarrow> False | _ \<Rightarrow> True)
          [filepath_Join [Getenv env ''ProgramFiles'', ''Google'', ''Chrome'',
                          ''Application'', ''chrome.exe''],
           filepath_Join [Getenv env ''ProgramFiles(x86)'', ''Google'', ''Chrome'',
                          ''Application'', ''chrome.exe''],
           filepath_Join [Getenv env ''LocalAppData'', ''Google'', ''Chrome'',
                          ''Application'', ''chrome.exe'']]
      else True)"

text \<open>
  A Linux machine with an empty file system and without network, on which every command
  fails; then the same machine with the two registries reachable (\<open>online\<close>), with Chrome
  120.0.6099.109 and a geckodriver that reports 0.34.0 (\<open>with_chrome\<close>), and the latter
  without network (\<open>with_chrome_offline\<close>).
\<close>

definition empty_world :: world where
  "empty_world = \<lparr>fs = [], writes = [], requests = [], commands = [], stdout = []\<rparr>"

definition offline :: env where
  "offline =
     \<lparr>GOOS = ''linux'', GOARCH = ''amd64'', Getenv = (\<lambda>k. []),
      PATH = [''/usr/local/bin'', ''/usr/bin''], UserHomeDir = Inr ''/home/owl'',
      http_Get = (\<lambda>u. Inl ''dial tcp: no route to host''),
      CombinedOutput = (\<lambda>c a. ([], Some ''exit status 1'')),
      fs_error = (\<lambda>op p. None),
      zip_NewReader = (\<lambda>b. Inl ''zip: not a valid zip file''),
      gzip_tar_NewReader = (\<lambda>b. Inl ''gzip: invalid header''),
      json_Unmarshal = (\<lambda>b. Inl ''unexpected end of JSON input''),
      nextRandom = (\<lambda>i. 1234 + i),
      Umask = 18\<rparr>"

definition ok_response :: "string \<Rightarrow> response" where
  "ok_response b = \<lparr>StatusCode = 200, Status = ''200 OK'', Body = b, BodyErr = None\<rparr>"

definition not_found :: response where
  "not_found = \<lparr>StatusCode = 404, Status = ''404 Not Found'', Body = [], BodyErr = None\<rparr>"

definition registry :: "string \<Rightarrow> error + response" where
  \<open>registry u =
     (if u = LATEST_RELEASE then Inr (ok_response (''121.0.6167.85'' @ [CHR 0x0A]))
      else if u = LATEST_RELEASE @ ''_120'' then Inr (ok_response ''120.0.6099.71'')
      else if u = ''https://chromedriver.storage.googleapis.com/120.0.6099.71/chromedriver_linux64.zip''
      then Inr (ok_response ''PK-chromedriver'')
      else if u = GECKO_LATEST then Inr (ok_response ''{"tag_name":"v0.34.0"}'')
      else if u = gecko_release ''0.34.0'' ''-linux64.tar.gz''
      then Inr (ok_response ''GZ-geckodriver'')
      else Inr not_found)\<close>

definition member_file :: "string \<Rightarrow> zip_file" where
  "member_file n =
     \<lparr>zip_file.Name = n, IsDir = False, Perm = 420, open_err = None,
      zip_file.data = ''ELF'', zip_file.read_err = None\<rparr>"

definition online :: env where
  \<open>online = offline
     \<lparr>http_Get := registry,
      json_Unmarshal := (\<lambda>b. if b = ''{"tag_name":"v0.34.0"}''
                              then Inr (Object [(''tag_name'', String ''v0.34.0'')])
                              else Inl ''unexpected end of JSON input''),
      zip_NewReader := (\<lambda>b. if b = ''PK-chromedriver''
                             then Inr [member_file ''chromedriver'',
                                       member_file ''LICENSE.chromedriver'']
                             else Inl ''zip: not a valid zip file''),
      gzip_tar_NewReader := (\<lambda>b. if b = ''GZ-geckodriver''
                                  then Inr [Header \<lparr>tar_header.Name = ''geckodriver'',
                                                    Typeflag = TypeReg, Mode = 493,
                                                    tar_header.data = ''ELF'',
                                                    tar_header.read_err = None\<rparr>]
                                  else Inl ''gzip: invalid header'')\<rparr>\<close>

definition chrome_commands :: "string \<Rightarrow> string list \<Rightarrow> string \<times> error option" where
  "chrome_commands c a =
     (if c = ''which'' \<and> a = [''google-chrome'']
      then (''/usr/bin/google-chrome'' @ [CHR 0x0A], None)
      else if c = ''google-chrome'' \<and> a = [''--version'']
      then (''Google Chrome 120.0.6099.109 '' @ [CHR 0x0A], None)
      else if c = ''/usr/local/bin/geckodriver'' \<and> a = [''--version'']
      then (''geckodriver 0.34.0 (c44f0d09630a 2024-01-02 15:36 +0000)'' @ [CHR 0x0A], None)
      else ([], Some ''exit status 1''))"

definition with_chrome :: env where
  "with_chrome = online\<lparr>CombinedOutput := chrome_commands\<rparr>"

definition with_chrome_offline :: env where
  "with_chrome_offline = offline\<lparr>CombinedOutput := chrome_commands\<rparr>"

text \<open>The machine of \<open>online\<close> with a search path that does not hold \<^verbatim>\<open>/usr/local/bin\<close>.\<close>

definition usr_bin_only :: env where
  "usr_bin_only = online\<lparr>PATH := [''/usr/bin'']\<rparr>"

text \<open>A file system in which both drivers are installed.\<close>

definition drivers_present :: world where
  "drivers_present = empty_world
     \<lparr>fs := [(''/usr/local/bin/chromedriver'', File ''ELF'' 493),
             (''/usr/local/bin/geckodriver'', File ''ELF'' 493)]\<rparr>"

text \<open>
  A path lies strictly inside a root when it is the cleaned root followed by one or more
  names, none of them empty, \<^verbatim>\<open>.\<close> or \<^verbatim>\<open>..\<close>. (For the roots \<^verbatim>\<open>/\<close> and \<^verbatim>\<open>.\<close> this is
  narrower than containment: no path is written that way.) A cleaned path consists of
  \<^verbatim>\<open>..\<close> only when every element of it is \<^verbatim>\<open>..\<close>.
\<close>

definition proper_name :: "string \<Rightarrow> bool" where
  "proper_name e = (e \<noteq> [] \<and> e \<noteq> ''.'' \<and> e \<noteq> ''..'')"

definition inside_root :: "string \<Rightarrow> string \<Rightarrow> bool" where
  "inside_root root p =
     (let r = split_path (filepath_Clean root); q = split_path p
      in length r < length q \<and> take (length r) q = r
         \<and> list_all proper_name (drop (length r) q))"

definition dotdot_only :: "string \<Rightarrow> bool" where
  "dotdot_only d = list_all (\<lambda>e. e = ''..'') (split_path d)"

text \<open>
  Two crafted archives in \<^verbatim>\<open>/tmp\<close>: the second member of each climbs out of the
  destination; and an archive with the single member \<^verbatim>\<open>../evil\<close>.
\<close>

definition tar_member :: "string \<Rightarrow> tar_item" where
  "tar_member n =
     Header \<lparr>tar_header.Name = n, Typeflag = TypeReg, Mode = 420,
             tar_header.data = ''ELF'', tar_header.read_err = None\<rparr>"

definition crafted :: env where
  "crafted = offline
     \<lparr>zip_NewReader := (\<lambda>b.
        if b = ''PK-evil''
        then Inr [member_file ''bin/tool'', member_file ''../../evil'', member_file ''late'']
        else if b = ''PK-up'' then Inr [member_file ''../evil'']
        else Inl ''zip: not a valid zip file''),
      gzip_tar_NewReader := (\<lambda>b.
        if b = ''GZ-evil''
        then Inr [tar_member ''bin/tool'', tar_member ''../../evil'', tar_member ''late'']
        else Inl ''gzip: invalid header'')\<rparr>"

definition with_archives :: world where
  "with_archives = empty_world
     \<lparr>fs := [(''/tmp/evil.zip'', File ''PK-evil'' 420),
             (''/tmp/evil.tar.gz'', File ''GZ-evil'' 420),
             (''/tmp/up.zip'', File ''PK-up'' 420)]\<rparr>"

text \<open>
  The machine of \<open>with_chrome\<close> behind a registry that answers every request with 404.
\<close>

definition registry_down :: env where
  "registry_down = with_chrome\<lparr>http_Get := (\<lambda>u. Inr not_found)\<rparr>"

text \<open>The URL of the driver archive for a driver version and a platform.\<close>

definition chromedriver_zip :: "string \<Rightarrow> string \<Rightarrow> string" where
  "chromedriver_zip driverVersion platform =
     ''https://chromedriver.storage.googleapis.com/'' @ driverVersion
     @ ''/chromedriver_'' @ platform @ ''.zip''"

subsection \<open>Notions used in the proofs\<close>

text \<open>
  A path element without separator; the stack of \<open>clean_elems\<close> holds names above
  \<^verbatim>\<open>..\<close> elements only (\<open>stack_ok\<close>), so that in a cleaned path everything after the
  first element other than \<^verbatim>\<open>..\<close> is a name (\<open>after_first\<close>); two states of the file
  system agree on the keys whose last element is \<open>e\<close> (\<open>same_named\<close>); the name of the
  Chrome driver and the directory \<^verbatim>\<open>getChromeDriverPath\<close> falls back to, for the platform.
\<close>

definition driver_name :: "env \<Rightarrow> string" where
  "driver_name env = (if GOOS env = ''windows'' then ''chromedriver.exe'' else ''chromedriver'')"

definition driver_dir :: "env \<Rightarrow> string" where
  "driver_dir env =
     (if GOOS env = ''windows'' then filepath_Join [Getenv env ''USERPROFILE'', ''bin'']
      else ''/usr/local/bin'')"

definition noslash :: "string \<Rightarrow> bool" where
  "noslash e = (CHR ''/'' \<notin> set e)"

fun stack_ok :: "string list \<Rightarrow> bool" where
  "stack_ok [] = True"
| "stack_ok (t # ts) = (if t = ''..'' then list_all (\<lambda>e. e = ''..'') ts else proper_name t \<and> stack_ok ts)"

fun after_first :: "string list \<Rightarrow> bool" where
  "after_first [] = True"
| "after_first (e # es) = (if e = ''..'' then after_first es else list_all proper_name es)"

definition same_named :: "string \<Rightarrow> world \<Rightarrow> world \<Rightarrow> bool" where
  "same_named e w w' = (\<forall>k. last (split_path k) = e \<longrightarrow> map_of (fs w') k = map_of (fs w) k)"

section \<open>Properties of the session clients\<close>

lemma Firefox_Launch_mock:
  "Firefox_Launch mock_driver [] new_Firefox =
     ([LogLine ''Launching Firefox...'', Start ''geckodriver'' [''--port=4444''], Sleep 2,
       HttpPost ''http://localhost:4444/session'' ''application/json'' (session_payload ''firefox''),
       LogLine ''Firefox session created: abc123''],
      launched_Firefox, Ok ())"
  by (simp add: Firefox_Launch_def Firefox_createSession_def mock_driver_def driver_replying_def
      reply_with_def decode_map_def mock_json_def new_Firefox_def launched_Firefox_def)

lemma WebKit_Launch_mock:
  "WebKit_Launch mock_driver [] new_WebKit =
     ([LogLine ''Launching Safari (WebKit)...'', Exec ''safaridriver'' [''--enable''],
       Start ''safaridriver'' [''--port=4444''], Sleep 2,
       HttpPost ''http://localhost:4444/session'' ''application/json'' (session_payload ''safari''),
       LogLine ''Safari session created: abc123''],
      launched_WebKit, Ok ())"
  by (simp add: WebKit_Launch_def WebKit_createSession_def mock_driver_def driver_replying_def
      reply_with_def decode_map_def mock_json_def new_WebKit_def launched_WebKit_def)

text \<open>A launch that does not succeed leaves the session id of a new client empty.\<close>

lemma Firefox_Launch_failed_sessionID:
  "Firefox_Launch env t new_Firefox = (t', f', r) \<Longrightarrow> r \<noteq> Ok () \<Longrightarrow> Firefox.sessionID f' = []"
  by (auto simp: Firefox_Launch_def new_Firefox_def Let_def
      split: sum.splits prod.splits outcome.splits)

lemma WebKit_Launch_failed_sessionID:
  "WebKit_Launch env t new_WebKit = (t', k', r) \<Longrightarrow> r \<noteq> Ok () \<Longrightarrow> WebKit.sessionID k' = []"
  by (auto simp: WebKit_Launch_def new_WebKit_def Let_def
      split: sum.splits prod.splits outcome.splits option.splits)

text \<open>
  Claim C2. On a Firefox or WebKit client whose session id is the empty string, \<^verbatim>\<open>OpenURL\<close>
  with any URL returns the error \<^verbatim>\<open>no active session, ...\<close> and leaves the trace as it
  was: no request is sent.
\<close>

theorem OpenURL_without_session:
  assumes "Firefox.sessionID f = []" and "WebKit.sessionID k = []"
  shows "Firefox_OpenURL env t f url = (t, Err ''no active session, start Firefox first'')
       \<and> WebKit_OpenURL env t k url = (t, Err ''no active session, start Safari first'')"
  using assms by (simp add: Firefox_OpenURL_def WebKit_OpenURL_def)

theorem OpenURL_without_session_witness:
  "Firefox.sessionID new_Firefox = [] \<and> WebKit.sessionID new_WebKit = []
   \<and> Firefox_OpenURL mock_driver [] new_Firefox ''https://example.com''
       = ([], Err ''no active session, start Firefox first'')
   \<and> WebKit_OpenURL mock_driver [] new_WebKit ''https://example.com''
       = ([], Err ''no active session, start Safari first'')"
  using OpenURL_without_session [of new_Firefox new_WebKit mock_driver "[]" "''https://example.com''"]
  by (simp add: new_Firefox_def new_WebKit_def)

text \<open>
  What \<^verbatim>\<open>createSession\<close> does with a response that decodes to the map \<open>result\<close>. When
  \<^verbatim>\<open>value\<close> is an object, both clients return the string at \<^verbatim>\<open>sessionId\<close> and an
  \<^verbatim>\<open>invalid session response format\<close> error when there is none.
\<close>

lemma createSession_value_object:
  assumes "post_result env t ''http://localhost:4444/session'' (session_payload b) = Inr resp"
    and "decode_map env resp = Inr result"
    and "map_of result ''value'' = Some (Object sessionData)"
  shows "b = ''firefox'' \<Longrightarrow> snd (Firefox_createSession env t) =
           (case map_of sessionData ''sessionId'' of
              Some (String sid) \<Rightarrow> Ok sid
            | _ \<Rightarrow> Err ''invalid session response format'')"
    and "b = ''safari'' \<Longrightarrow> snd (WebKit_createSession env t) =
           (case map_of sessionData ''sessionId'' of
              Some (String sid) \<Rightarrow> Ok sid
            | _ \<Rightarrow> Err ''invalid session response format: sessionId not found'')"
  using assms
  by (auto simp: Firefox_createSession_def WebKit_createSession_def Let_def
      split: option.splits go_value.splits)

text \<open>
  When \<^verbatim>\<open>value\<close> is absent or not an object, the WebKit client returns the error and the
  Firefox client panics.
\<close>

lemma createSession_value_not_object:
  assumes "post_result env t ''http://localhost:4444/session'' (session_payload b) = Inr resp"
    and "decode_map env resp = Inr result"
    and "\<forall>sessionData. map_of result ''value'' \<noteq> Some (Object sessionData)"
  shows "b = ''firefox'' \<Longrightarrow> snd (Firefox_createSession env t) =
           Panic ''interface conversion: interface {} is not map[string]interface {}''"
    and "b = ''safari'' \<Longrightarrow> snd (WebKit_createSession env t) =
           Err ''invalid session response format''"
  using assms
  by (auto simp: Firefox_createSession_def WebKit_createSession_def Let_def
      split: option.splits go_value.splits)

text \<open>
  Claim C3, at the response body \<^verbatim>\<open>{}\<close> (status 200, no \<^verbatim>\<open>value\<close> field):
  \<^verbatim>\<open>Firefox.createSession\<close> panics where the claim promises an
  \<^verbatim>\<open>invalid session response\<close> error; \<^verbatim>\<open>WebKit.createSession\<close> returns that error.
\<close>

theorem Firefox_createSession_panics:
  "Firefox_createSession (driver_replying ''{}'') [] =
     ([HttpPost ''http://localhost:4444/session'' ''application/json'' (session_payload ''firefox'')],
      Panic ''interface conversion: interface {} is not map[string]interface {}'')
   \<and> WebKit_createSession (driver_replying ''{}'') [] =
     ([HttpPost ''http://localhost:4444/session'' ''application/json'' (session_payload ''safari'')],
      Err ''invalid session response format'')"
  by (simp add: Firefox_createSession_def WebKit_createSession_def driver_replying_def
      reply_with_def decode_map_def mock_json_def)

text \<open>
  Claim C4. On a client with the non-empty session id \<open>S\<close>, \<^verbatim>\<open>OpenURL\<close> with the URL \<open>u\<close>
  adds exactly one POST to the trace, to \<^verbatim>\<open>http://localhost:4444/session/S/url\<close> with the
  JSON body \<^verbatim>\<open>{"url": u}\<close>; it returns success if and only if that request is answered
  with status 200; and an answer with any other status gives the error that carries the
  status code.
\<close>

theorem OpenURL_active_session:
  assumes "Firefox.sessionID f \<noteq> []" and "WebKit.sessionID k \<noteq> []"
  shows "posts (fst (Firefox_OpenURL env t f u)) =
           posts t @ [HttpPost (''http://localhost:4444/session/'' @ Firefox.sessionID f @ ''/url'')
                        ''application/json'' (Object [(''url'', String u)])]
       \<and> (snd (Firefox_OpenURL env t f u) = Ok () \<longleftrightarrow>
            (\<exists>resp. post_result env t (''http://localhost:4444/session/'' @ Firefox.sessionID f @ ''/url'')
                       (Object [(''url'', String u)]) = Inr resp \<and> StatusCode resp = 200))
       \<and> (\<forall>resp. post_result env t (''http://localhost:4444/session/'' @ Firefox.sessionID f @ ''/url'')
                       (Object [(''url'', String u)]) = Inr resp \<and> StatusCode resp \<noteq> 200 \<longrightarrow>
              snd (Firefox_OpenURL env t f u) =
                Err (''failed to navigate to URL, status code: '' @ itoa (StatusCode resp)))
       \<and> posts (fst (WebKit_OpenURL env t k u)) =
           posts t @ [HttpPost (''http://localhost:4444/session/'' @ WebKit.sessionID k @ ''/url'')
                        ''application/json'' (Object [(''url'', String u)])]
       \<and> (snd (WebKit_OpenURL env t k u) = Ok () \<longleftrightarrow>
            (\<exists>resp. post_result env t (''http://localhost:4444/session/'' @ WebKit.sessionID k @ ''/url'')
                       (Object [(''url'', String u)]) = Inr resp \<and> StatusCode resp = 200))
       \<and> (\<forall>resp. post_result env t (''http://localhost:4444/session/'' @ WebKit.sessionID k @ ''/url'')
                       (Object [(''url'', String u)]) = Inr resp \<and> StatusCode resp \<noteq> 200 \<longrightarrow>
              snd (WebKit_OpenURL env t k u) =
                Err (''failed to navigate to URL, status code: '' @ itoa (StatusCode resp)))"
  using assms
  by (auto simp: Firefox_OpenURL_def WebKit_OpenURL_def posts_def Let_def navigate_url_def
      navigate_payload_def split: sum.splits)

theorem OpenURL_active_session_witness:
  "Firefox.sessionID launched_Firefox \<noteq> [] \<and> WebKit.sessionID launched_WebKit \<noteq> []
   \<and> posts (fst (Firefox_OpenURL mock_driver [] launched_Firefox ''https://example.com'')) =
       [HttpPost ''http://localhost:4444/session/abc123/url'' ''application/json''
          (Object [(''url'', String ''https://example.com'')])]
   \<and> snd (Firefox_OpenURL mock_driver [] launched_Firefox ''https://example.com'') = Ok ()
   \<and> posts (fst (WebKit_OpenURL mock_driver [] launched_WebKit ''https://example.com'')) =
       [HttpPost ''http://localhost:4444/session/abc123/url'' ''application/json''
          (Object [(''url'', String ''https://example.com'')])]
   \<and> snd (WebKit_OpenURL mock_driver [] launched_WebKit ''https://example.com'') = Ok ()"
  using OpenURL_active_session [of launched_Firefox launched_WebKit mock_driver "[]"
      "''https://example.com''"]
  by (simp add: launched_Firefox_def launched_WebKit_def mock_driver_def driver_replying_def
      reply_with_def posts_def)

text \<open>
  Claim C9, as the code has it. \<^verbatim>\<open>Close\<close> on a client whose driver process was never
  started changes nothing and returns success. On a client whose process was started,
  every \<^verbatim>\<open>Close\<close> sends a kill to that process, whatever the trace holds already, and returns
  success exactly when that kill reports no error.
\<close>

theorem Close_kills_whenever_started:
  assumes "never_started (Firefox.cmd f0)" and "never_started (WebKit.cmd k0)"
    and "Firefox.cmd f1 = Some c" and "Process c = Some pid"
    and "WebKit.cmd k1 = Some c'" and "Process c' = Some pid'"
  shows "Firefox_Close env t f0 = (t, Ok ())
       \<and> WebKit_Close env t k0 = (t, Ok ())
       \<and> Firefox_Close env t f1 =
           (case kill_result env t pid of
              None \<Rightarrow> (t @ [Kill pid, LogLine ''Firefox browser closed successfully.''], Ok ())
            | Some e \<Rightarrow> (t @ [Kill pid], Err (''failed to close Firefox: '' @ e)))
       \<and> WebKit_Close env t k1 =
           (case kill_result env t pid' of
              None \<Rightarrow> (t @ [Kill pid', LogLine ''Safari WebDriver closed successfully.''], Ok ())
            | Some e \<Rightarrow> (t @ [Kill pid'], Err (''failed to close Safari WebDriver: '' @ e)))"
  using assms
  by (auto simp: Firefox_Close_def WebKit_Close_def never_started_def split: option.splits)

theorem Close_kills_whenever_started_witness:
  "never_started (Firefox.cmd new_Firefox) \<and> never_started (WebKit.cmd new_WebKit)
   \<and> Firefox_Close mock_driver [] new_Firefox = ([], Ok ())
   \<and> WebKit_Close mock_driver [] new_WebKit = ([], Ok ())
   \<and> Firefox_Close mock_driver [] launched_Firefox =
       ([Kill 1, LogLine ''Firefox browser closed successfully.''], Ok ())
   \<and> WebKit_Close mock_driver [] launched_WebKit =
       ([Kill 1, LogLine ''Safari WebDriver closed successfully.''], Ok ())"
  using Close_kills_whenever_started [of new_Firefox new_WebKit launched_Firefox
      "\<lparr>Path = ''geckodriver'', Args = [''--port=4444''], Process = Some 1\<rparr>" 1 launched_WebKit
      "\<lparr>Path = ''safaridriver'', Args = [''--port=4444''], Process = Some 1\<rparr>" 1 mock_driver "[]"]
  by (simp add: new_Firefox_def new_WebKit_def launched_Firefox_def launched_WebKit_def
      never_started_def mock_driver_def driver_replying_def)

text \<open>
  The claim as it is written fails: after a first \<^verbatim>\<open>Close\<close> has killed the driver, a second
  \<^verbatim>\<open>Close\<close> on the same client kills again and returns the error of that kill.
\<close>

theorem second_Close_fails:
  "Firefox_Close mock_driver [] launched_Firefox =
     ([Kill 1, LogLine ''Firefox browser closed successfully.''], Ok ())
   \<and> Firefox_Close mock_driver [Kill 1, LogLine ''Firefox browser closed successfully.'']
       launched_Firefox =
     ([Kill 1, LogLine ''Firefox browser closed successfully.'', Kill 1],
      Err ''failed to close Firefox: os: process already finished'')"
  by (simp add: Firefox_Close_def launched_Firefox_def mock_driver_def driver_replying_def)

section \<open>Properties of the installer\<close>

subsection \<open>The library functions at work\<close>

lemma TrimSpace_unicode:
  "TrimSpace ([CHR 0x20, CHR 0xE2, CHR 0x80, CHR 0x83] @ ''120.0.6099.71''
              @ [CHR 0xC2, CHR 0xA0, CHR 0x0D, CHR 0x0A, CHR 0xC2, CHR 0x85]) = ''120.0.6099.71''"
  "TrimSpace (''a b'' @ [CHR 0x09]) = ''a b''"
  "TrimSpace ([CHR 0xA0] @ ''x'' @ [CHR 0xC2]) = [CHR 0xA0] @ ''x'' @ [CHR 0xC2]"
  by code_simp+

lemma decode_TagName_keys:
  "decode_TagName [(''TAG_NAME'', String ''v0.34.0'')] [] = Inr ''v0.34.0''"
  "decode_TagName [(''tag_name'', String ''v1''), (''name'', Nil), (''Tag_Name'', String ''v2'')] [] = Inr ''v2''"
  "decode_TagName [(''tag_name'', String ''v1''), (''tag_name'', Nil)] [] = Inr ''v1''"
  "decode_TagName [(''tag-name'', String ''v1'')] [] = Inr []"
  "decode_TagName [(''tag_name'', Float64 1)] []
     = Inl ''json: cannot unmarshal number into Go struct field .tag_name of type string''"
  by code_simp+

lemma created_mode_bits:
  "created_mode offline 33188 = 420"
  "created_mode offline 438 = 420"
  "created_mode offline 511 = 493"
  by code_simp+

subsection \<open>What the probes leave untouched\<close>

lemma Println_fields [simp]:
  "fs (Println l w) = fs w" "writes (Println l w) = writes w"
  "requests (Println l w) = requests w" "commands (Println l w) = commands w"
  "stdout (Println l w) = stdout w @ [l]"
  by (simp_all add: Println_def)

lemma lookup_Println [simp]: "lookup (Println l w) p = lookup w p"
  by (simp add: lookup_def)

lemma run_command_fields:
  "run_command env w c a = (w', r) \<Longrightarrow>
     fs w' = fs w \<and> writes w' = writes w \<and> requests w' = requests w \<and> stdout w' = stdout w"
  by (auto simp: run_command_def)

lemma probe_which_quiet:
  "probe_which env w out names = (w', out') \<Longrightarrow>
     fs w' = fs w \<and> writes w' = writes w \<and> requests w' = requests w \<and> stdout w' = stdout w"
proof (induction names arbitrary: w out)
  case Nil
  then show ?case by simp
next
  case (Cons b bs)
  then show ?case
    by (auto simp: run_command_def split: prod.splits option.splits)
qed

lemma probe_paths_quiet:
  "probe_paths env w out mk paths = (w', out') \<Longrightarrow>
     fs w' = fs w \<and> writes w' = writes w \<and> requests w' = requests w \<and> stdout w' = stdout w"
proof (induction paths arbitrary: w out)
  case Nil
  then show ?case by simp
next
  case (Cons b bs)
  then show ?case
    by (auto simp: run_command_def split: prod.splits option.splits stat.splits)
qed

lemma chrome_probe_quiet:
  "chrome_probe env w = Inr (w', out) \<Longrightarrow>
     fs w' = fs w \<and> writes w' = writes w \<and> requests w' = requests w \<and> stdout w' = stdout w"
  unfolding chrome_probe_def
  by (auto simp del: probe_paths.simps probe_which.simps split: if_splits
      dest!: probe_which_quiet probe_paths_quiet)

lemma getInstalledChromeVersion_quiet:
  "getInstalledChromeVersion env w = (w', r) \<Longrightarrow>
     fs w' = fs w \<and> writes w' = writes w \<and> requests w' = requests w \<and> stdout w' = stdout w"
  unfolding getInstalledChromeVersion_def
  by (auto simp: Let_def split: sum.splits prod.splits if_splits option.splits dest: chrome_probe_quiet)

lemma os_Stat_fs: "fs w' = fs w \<Longrightarrow> os_Stat env w' p = os_Stat env w p"
  by (simp add: os_Stat_def lookup_def split: option.splits)

lemma probe_paths_absent:
  "list_all (\<lambda>p. case os_Stat env w p of StatOk n \<Rightarrow> False | _ \<Rightarrow> True) paths \<Longrightarrow>
     probe_paths env w out mk paths = (w, out)"
  by (induction paths) (auto split: stat.splits)

lemma probe_which_absent:
  "list_all (\<lambda>b. snd (CombinedOutput env ''which'' [b]) \<noteq> None) names \<Longrightarrow>
     snd (probe_which env w out names) = out"
proof (induction names arbitrary: w)
  case Nil
  then show ?case by simp
next
  case (Cons b bs)
  then show ?case
    by (auto simp: run_command_def split: prod.splits option.splits)
qed

lemma TrimSpace_Nil [simp]: "TrimSpace [] = []"
  by code_simp

lemma getInstalledChromeVersion_absent:
  assumes "chrome_absent env w"
  shows "snd (getInstalledChromeVersion env w) =
           Inl (if GOOS env \<in> {''darwin'', ''linux'', ''windows''} then ''Chrome not found''
                else ''unsupported OS for Chrome detection: '' @ GOOS env)"
proof -
  consider (d) "GOOS env = ''darwin''" | (l) "GOOS env = ''linux''" | (w) "GOOS env = ''windows''"
    | (o) "GOOS env \<notin> {''darwin'', ''linux'', ''windows''}" by auto
  then show ?thesis
  proof cases
    case d
    with assms show ?thesis
      by (simp add: getInstalledChromeVersion_def chrome_probe_def chrome_absent_def
          probe_paths_absent del: probe_paths.simps list.pred_inject)
  next
    case l
    with assms have "snd (probe_which env w [] [''google-chrome'', ''google-chrome-stable'', ''chromium'', ''chromium-browser'']) = []"
      by (intro probe_which_absent) (simp add: chrome_absent_def)
    with l show ?thesis
      by (cases "probe_which env w [] [''google-chrome'', ''google-chrome-stable'', ''chromium'', ''chromium-browser'']")
        (simp add: getInstalledChromeVersion_def chrome_probe_def del: probe_which.simps)
  next
    case w
    with assms show ?thesis
      by (simp add: getInstalledChromeVersion_def chrome_probe_def chrome_absent_def
          probe_paths_absent del: probe_paths.simps list.pred_inject)
  next
    case o
    then show ?thesis
      by (simp add: getInstalledChromeVersion_def chrome_probe_def)
  qed
qed

lemma chrome_absent_Println [simp]: "chrome_absent env (Println l w) = chrome_absent env w"
  by (simp add: chrome_absent_def os_Stat_fs [of "Println l w" w])

lemma getLatestChromeDriverVersion_requests:
  "getLatestChromeDriverVersion env w = (w', r) \<Longrightarrow>
     requests w' = requests w @ [LATEST_RELEASE] \<and> fs w' = fs w \<and> writes w' = writes w"
  by (auto simp: getLatestChromeDriverVersion_def http_get_def split: sum.splits if_splits option.splits)

lemma os_MkdirAll_quiet:
  "os_MkdirAll env w p = (w', r) \<Longrightarrow> requests w' = requests w \<and> writes w' = writes w"
  by (auto simp: os_MkdirAll_def put_def split: option.splits node.splits)

lemma getChromeDriverPath_quiet:
  "getChromeDriverPath env w = (w', r) \<Longrightarrow> requests w' = requests w \<and> writes w' = writes w"
  by (auto simp: getChromeDriverPath_def default_location_def Let_def
      split: sum.splits if_splits option.splits prod.splits dest: os_MkdirAll_quiet)

lemma getInstalledGeckoDriverVersion_quiet:
  "getInstalledGeckoDriverVersion env w = (w', r) \<Longrightarrow>
     fs w' = fs w \<and> writes w' = writes w \<and> requests w' = requests w"
  by (auto simp: getInstalledGeckoDriverVersion_def run_command_def
      split: sum.splits prod.splits option.splits)

lemma getLatestGeckoDriverVersion_requests:
  "getLatestGeckoDriverVersion env w = (w', r) \<Longrightarrow>
     requests w' = requests w @ [GECKO_LATEST] \<and> fs w' = fs w \<and> writes w' = writes w"
  by (auto simp: getLatestGeckoDriverVersion_def http_get_def split: sum.splits if_splits)

lemma report_stdout:
  "stdout (report errs w) =
     stdout w @ (if errs = [] then [''Setup completed successfully.'']
                 else ''Setup completed with some issues:'' # map (\<lambda>e. ''- '' @ e) errs)"
proof -
  have "stdout (foldl (\<lambda>w' e. Println (''- '' @ e) w') w0 errs) = stdout w0 @ map (\<lambda>e. ''- '' @ e) errs" for w0
    by (induction errs arbitrary: w0) simp_all
  then show ?thesis by (simp add: report_def)
qed

lemma report_fields [simp]:
  "fs (report errs w) = fs w" "writes (report errs w) = writes w"
  "requests (report errs w) = requests w" "commands (report errs w) = commands w"
proof -
  have "fs (foldl (\<lambda>w' e. Println (''- '' @ e) w') w0 errs) = fs w0
      \<and> writes (foldl (\<lambda>w' e. Println (''- '' @ e) w') w0 errs) = writes w0
      \<and> requests (foldl (\<lambda>w' e. Println (''- '' @ e) w') w0 errs) = requests w0
      \<and> commands (foldl (\<lambda>w' e. Println (''- '' @ e) w') w0 errs) = commands w0" for w0
    by (induction errs arbitrary: w0) simp_all
  then show "fs (report errs w) = fs w" "writes (report errs w) = writes w"
  "requests (report errs w) = requests w" "commands (report errs w) = commands w"
    by (simp_all add: report_def)
qed

subsection \<open>The setup command and the three families\<close>

text \<open>
  Claim C7. Whatever the three installers return, \<^verbatim>\<open>setup\<close> runs all of them, each on the
  state the one before it left: its final state is that of the third installer plus the
  printed report. The report lists one line for every installer that failed, the error
  returned counts them, and the process ends with status 0 if and only if none failed.
\<close>

theorem setup_attempts_all:
  assumes "installChromeDriver env (Println ''Setting up Owl Automation Framework...'' w) = (w1, r1)"
    and "installFirefoxDriver env w1 = (w2, r2)"
    and "installWebkitDriver env w2 = (w3, r3)"
  shows "fs (fst (owl_setup env w)) = fs w3 \<and> requests (fst (owl_setup env w)) = requests w3
       \<and> commands (fst (owl_setup env w)) = commands w3 \<and> writes (fst (owl_setup env w)) = writes w3
       \<and> stdout (fst (owl_setup env w)) =
           stdout w3
           @ (if r1 = None \<and> r2 = None \<and> r3 = None then [''Setup completed successfully.'']
              else ''Setup completed with some issues:''
                   # map (\<lambda>e. ''- '' @ e)
                       (issue ''Chrome'' r1 @ issue ''Firefox'' r2 @ issue ''Webkit'' r3))
           @ [''Run your tests with `go test ./tests -v`.'']
       \<and> snd (owl_setup env w) =
           (if r1 = None \<and> r2 = None \<and> r3 = None then None
            else Some (''setup completed with ''
                       @ itoa (int (length (filter (\<lambda>r. r \<noteq> None) [r1, r2, r3])))
                       @ '' issues''))
       \<and> (exit_code (snd (Run env w [''owl'', ''setup''])) = 0 \<longleftrightarrow>
            r1 = None \<and> r2 = None \<and> r3 = None)"
  using assms
  by (auto simp: owl_setup_def Run_def exit_code_def Let_def issue_def report_stdout
      split: option.splits)

theorem setup_attempts_all_witness:
  "snd (installChromeDriver online (Println ''Setting up Owl Automation Framework...'' empty_world))
     = Some ''failed to get installed Chrome version: Chrome not found''
   \<and> requests (fst (owl_setup online empty_world))
       = [GECKO_LATEST, gecko_release ''0.34.0'' ''-linux64.tar.gz'']
   \<and> snd (owl_setup online empty_world) = Some ''setup completed with 1 issues''
   \<and> exit_code (snd (Run online empty_world [''owl'', ''setup''])) \<noteq> 0"
proof -
  let ?c = "installChromeDriver online (Println ''Setting up Owl Automation Framework...'' empty_world)"
  let ?f = "installFirefoxDriver online (fst ?c)"
  let ?k = "installWebkitDriver online (fst ?f)"
  have a: "?c = (fst ?c, snd ?c)" "?f = (fst ?f, snd ?f)" "?k = (fst ?k, snd ?k)"
    by simp_all
  note T = setup_attempts_all [OF a]
  have r1: "snd ?c = Some ''failed to get installed Chrome version: Chrome not found''"
    by code_simp
  have r2: "snd ?f = None"
    by code_simp
  have r3: "snd ?k = None"
    by code_simp
  have q: "requests (fst ?k) = [GECKO_LATEST, gecko_release ''0.34.0'' ''-linux64.tar.gz'']"
    by code_simp
  have i: "itoa 1 = ''1''"
    by code_simp
  from T q have c2: "requests (fst (owl_setup online empty_world))
       = [GECKO_LATEST, gecko_release ''0.34.0'' ''-linux64.tar.gz'']" by simp
  from T r1 r2 r3 i have c3: "snd (owl_setup online empty_world) = Some ''setup completed with 1 issues''"
    by simp
  from T r1 have c4: "exit_code (snd (Run online empty_world [''owl'', ''setup''])) \<noteq> 0"
    by simp
  from r1 c2 c3 c4 show ?thesis by simp
qed

text \<open>
  Claim C10. Off macOS \<^verbatim>\<open>installWebkitDriver\<close> prints one line and returns success: it
  does not look for \<^verbatim>\<open>safaridriver\<close>, runs no command and sends no request. The
  \<^verbatim>\<open>setup\<close> command then ends with status 0 exactly when the Chrome and Firefox
  installers succeed; the witness is a Linux machine without any Safari driver on which
  it does.
\<close>

theorem installWebkitDriver_skips:
  assumes "GOOS env \<noteq> ''darwin''"
  shows "installWebkitDriver env w =
           (Println ''WebKit (Safari) automation is only supported on macOS. Skipping.'' w, None)
       \<and> (exit_code (snd (Run env w0 [''owl'', ''setup''])) = 0 \<longleftrightarrow>
            snd (installChromeDriver env (Println ''Setting up Owl Automation Framework...'' w0)) = None
          \<and> snd (installFirefoxDriver env
                   (fst (installChromeDriver env (Println ''Setting up Owl Automation Framework...'' w0)))) = None)"
  using assms
  by (auto simp: installWebkitDriver_def owl_setup_def Run_def exit_code_def Let_def issue_def
      split: option.splits prod.splits)

theorem installWebkitDriver_skips_witness:
  "GOOS with_chrome \<noteq> ''darwin''
   \<and> LookPath with_chrome drivers_present ''safaridriver''
       = Inl (''exec: '' @ quoted ''safaridriver'' @ '': executable file not found in $PATH'')
   \<and> installWebkitDriver with_chrome drivers_present =
       (Println ''WebKit (Safari) automation is only supported on macOS. Skipping.'' drivers_present, None)
   \<and> exit_code (snd (Run with_chrome drivers_present [''owl'', ''setup''])) = 0"
proof -
  have g: "GOOS with_chrome \<noteq> ''darwin''"
    by (simp add: with_chrome_def online_def offline_def)
  note T = installWebkitDriver_skips [OF g, of drivers_present drivers_present]
  have l: "LookPath with_chrome drivers_present ''safaridriver''
       = Inl (''exec: '' @ quoted ''safaridriver'' @ '': executable file not found in $PATH'')"
    by code_simp
  have c: "snd (installChromeDriver with_chrome
                 (Println ''Setting up Owl Automation Framework...'' drivers_present)) = None"
    by code_simp
  have f: "snd (installFirefoxDriver with_chrome
                   (fst (installChromeDriver with_chrome
                      (Println ''Setting up Owl Automation Framework...'' drivers_present)))) = None"
    by code_simp
  from T c f g l show ?thesis by simp
qed

text \<open>
  Claim C8, for the Chrome family. When Chrome is absent, \<^verbatim>\<open>installChromeDriver\<close> fails
  with \<^verbatim>\<open>failed to get installed Chrome version: Chrome not found\<close> (on a system it does
  not support, with the message that says so), sends no request, opens no file for
  writing and leaves the file system as it was: no driver is installed.
\<close>

theorem no_Chrome_no_driver:
  assumes "chrome_absent env w"
  shows "snd (installChromeDriver env w) =
           Some (''failed to get installed Chrome version: ''
                 @ (if GOOS env \<in> {''darwin'', ''linux'', ''windows''} then ''Chrome not found''
                    else ''unsupported OS for Chrome detection: '' @ GOOS env))
       \<and> requests (fst (installChromeDriver env w)) = requests w
       \<and> writes (fst (installChromeDriver env w)) = writes w
       \<and> fs (fst (installChromeDriver env w)) = fs w"
proof -
  obtain w1 r where g: "getInstalledChromeVersion env (Println ''Checking Chrome version...'' w) = (w1, r)"
    by (cases "getInstalledChromeVersion env (Println ''Checking Chrome version...'' w)")
  from assms have "snd (getInstalledChromeVersion env (Println ''Checking Chrome version...'' w)) =
           Inl (if GOOS env \<in> {''darwin'', ''linux'', ''windows''} then ''Chrome not found''
                else ''unsupported OS for Chrome detection: '' @ GOOS env)"
    by (intro getInstalledChromeVersion_absent) simp
  with g have r: "r = Inl (if GOOS env \<in> {''darwin'', ''linux'', ''windows''} then ''Chrome not found''
                else ''unsupported OS for Chrome detection: '' @ GOOS env)" by simp
  from getInstalledChromeVersion_quiet [OF g]
  have q: "fs w1 = fs w" "writes w1 = writes w" "requests w1 = requests w" by simp_all
  from g r have "installChromeDriver env w = (w1, Some (''failed to get installed Chrome version: ''
                 @ (if GOOS env \<in> {''darwin'', ''linux'', ''windows''} then ''Chrome not found''
                    else ''unsupported OS for Chrome detection: '' @ GOOS env)))"
    by (simp add: installChromeDriver_def)
  with q show ?thesis by simp
qed

theorem no_Chrome_no_driver_witness:
  "chrome_absent online empty_world
   \<and> snd (installChromeDriver online empty_world)
       = Some ''failed to get installed Chrome version: Chrome not found''
   \<and> requests (fst (installChromeDriver online empty_world)) = []
   \<and> writes (fst (installChromeDriver online empty_world)) = []
   \<and> fs (fst (installChromeDriver online empty_world)) = []"
proof -
  have a: "chrome_absent online empty_world"
    by code_simp
  have g: "GOOS online = ''linux''"
    by (simp add: online_def offline_def)
  from no_Chrome_no_driver [OF a] a g show ?thesis
    by (simp add: empty_world_def)
qed

text \<open>
  The claim as it is written, for every family, fails for the other two families.
  \<^verbatim>\<open>installFirefoxDriver\<close> never looks for Firefox: on a machine with no browser and no
  driver at all it downloads geckodriver and installs it. \<^verbatim>\<open>installWebkitDriver\<close> on the
  same machine, a Linux one on which Safari cannot be, returns success and not an error.
\<close>

theorem Firefox_driver_without_browser:
  "chrome_absent online empty_world
   \<and> LookPath online empty_world ''firefox'' = Inl (''exec: '' @ quoted ''firefox'' @ '': executable file not found in $PATH'')
   \<and> snd (installFirefoxDriver online empty_world) = None
   \<and> lookup (fst (installFirefoxDriver online empty_world)) ''/usr/local/bin/geckodriver''
       = Some (File ''ELF'' 493)
   \<and> LookPath online empty_world ''safaridriver''
       = Inl (''exec: '' @ quoted ''safaridriver'' @ '': executable file not found in $PATH'')
   \<and> snd (installWebkitDriver online empty_world) = None"
  by code_simp

section \<open>Properties of paths\<close>

lemma split_path_nonempty [simp]: "split_path s \<noteq> []"
  by (induction s) (auto split: list.splits)

lemma split_path_append: "split_path (a @ CHR ''/'' # b) = split_path a @ split_path b"
  by (induction a) (auto split: list.splits)

lemma join_sep_Cons: "es \<noteq> [] \<Longrightarrow> join_sep (e # es) = e @ CHR ''/'' # join_sep es"
  by (cases es) simp_all

lemma join_split: "join_sep (split_path s) = s"
proof (induction s)
  case Nil
  show ?case by simp
next
  case (Cons c s)
  show ?case
  proof (cases "c = CHR ''/''")
    case True
    with Cons show ?thesis by (simp add: join_sep_Cons)
  next
    case False
    obtain e es where es: "split_path s = e # es"
      by (cases "split_path s") auto
    with Cons have "join_sep (e # es) = s" by simp
    then have "join_sep ((c # e) # es) = c # s"
      by (cases es) auto
    with False es show ?thesis by simp
  qed
qed

lemma join_sep_append:
  "as \<noteq> [] \<Longrightarrow> bs \<noteq> [] \<Longrightarrow> join_sep (as @ bs) = join_sep as @ CHR ''/'' # join_sep bs"
proof (induction as)
  case Nil
  then show ?case by simp
next
  case (Cons a as)
  show ?case
  proof (cases "as = []")
    case True
    with Cons.prems show ?thesis by (simp add: join_sep_Cons)
  next
    case False
    with Cons show ?thesis by (simp add: join_sep_Cons)
  qed
qed

lemma split_path_noslash: "list_all noslash (split_path s)"
  by (induction s) (auto simp: noslash_def split: list.splits)

lemma split_noslash: "noslash e \<Longrightarrow> split_path e = [e]"
  by (induction e) (auto simp: noslash_def)

lemma split_join: "es \<noteq> [] \<Longrightarrow> list_all noslash es \<Longrightarrow> split_path (join_sep es) = es"
proof (induction es)
  case Nil
  then show ?case by simp
next
  case (Cons e es)
  show ?case
  proof (cases "es = []")
    case True
    with Cons.prems show ?thesis by (simp add: split_noslash)
  next
    case False
    with Cons have "split_path (join_sep es) = es" by simp
    with False Cons.prems show ?thesis
      by (simp add: join_sep_Cons split_path_append split_noslash)
  qed
qed


lemma after_first_dotdots: "list_all (\<lambda>e. e = ''..'') xs \<Longrightarrow> after_first (xs @ [t])"
  by (induction xs) auto

lemma after_first_snoc: "after_first xs \<Longrightarrow> proper_name t \<Longrightarrow> after_first (xs @ [t])"
  by (induction xs) auto

lemma stack_ok_rev: "stack_ok out \<Longrightarrow> after_first (rev out)"
  by (induction out) (auto simp: after_first_dotdots after_first_snoc split: if_splits)

lemma clean_elems_after_first:
  "stack_ok out \<Longrightarrow> after_first (clean_elems rooted out es)"
proof (induction es arbitrary: out)
  case Nil
  then show ?case by (simp add: stack_ok_rev)
next
  case (Cons e es)
  show ?case
  proof (cases "e = [] \<or> e = ''.''")
    case True
    with Cons show ?thesis by auto
  next
    case skip: False
    show ?thesis
    proof (cases "e = ''..''")
      case True
      show ?thesis
      proof (cases out)
        case Nil
        with True Cons show ?thesis by simp
      next
        case (Cons t ts)
        with True Cons.prems Cons.IH [of "''..'' # out"] Cons.IH [of ts] show ?thesis
          by (auto split: if_splits)
      qed
    next
      case False
      with skip have "proper_name e" by (simp add: proper_name_def)
      with Cons.prems have "stack_ok (e # out)" using False by simp
      from Cons.IH [OF this] skip False show ?thesis by simp
    qed
  qed
qed

lemma clean_elems_rooted_proper:
  "list_all proper_name out \<Longrightarrow> list_all proper_name (clean_elems True out es)"
proof (induction es arbitrary: out)
  case Nil
  then show ?case by simp
next
  case (Cons e es)
  then show ?case
    by (cases out) (auto simp: proper_name_def)
qed

lemma clean_elems_noslash:
  "list_all noslash out \<Longrightarrow> list_all noslash es \<Longrightarrow> list_all noslash (clean_elems rooted out es)"
proof (induction es arbitrary: out)
  case Nil
  then show ?case by simp
next
  case (Cons e es)
  then show ?case
    by (cases out) (auto simp: noslash_def)
qed

lemma clean_elems_nonempty:
  "list_all (\<lambda>e. e \<noteq> []) out \<Longrightarrow> list_all (\<lambda>e. e \<noteq> []) (clean_elems rooted out es)"
proof (induction es arbitrary: out)
  case Nil
  then show ?case by simp
next
  case (Cons e es)
  then show ?case
    by (cases out) auto
qed

lemma join_sep_Nil: "join_sep es = [] \<Longrightarrow> es = [] \<or> es = [[]]"
  by (induction es rule: join_sep.induct) auto

lemma Clean_nonempty [simp]: "filepath_Clean x \<noteq> []"
proof -
  have "list_all (\<lambda>e. e \<noteq> []) (clean_elems False [] (split_path x))"
    by (rule clean_elems_nonempty) simp
  then have "join_sep (clean_elems False [] (split_path x)) = [] \<Longrightarrow>
             clean_elems False [] (split_path x) = []"
    by (auto dest: join_sep_Nil)
  then show ?thesis
    by (auto simp: filepath_Clean_def Let_def)
qed

text \<open>The elements of a cleaned path.\<close>

lemma split_Clean:
  "x \<noteq> [] \<Longrightarrow> split_path (filepath_Clean x) =
     (let elems = clean_elems (hd x = CHR ''/'') [] (split_path x)
      in if hd x = CHR ''/'' then (if elems = [] then [[], []] else [] # elems)
         else if elems = [] then [''.''] else elems)"
  by (auto simp: filepath_Clean_def Let_def split_join clean_elems_noslash split_path_noslash)

lemma after_first_Clean:
  assumes "filepath_Clean x \<noteq> ''/''"
  shows "after_first (split_path (filepath_Clean x))"
proof (cases "x = []")
  case True
  then show ?thesis by (simp add: filepath_Clean_def proper_name_def)
next
  case False
  let ?r = "hd x = CHR ''/''"
  let ?e = "clean_elems ?r [] (split_path x)"
  show ?thesis
  proof (cases ?r)
    case True
    with assms False have ne: "?e \<noteq> []"
      by (auto simp: filepath_Clean_def Let_def)
    have "list_all proper_name (clean_elems True [] (split_path x))"
      by (rule clean_elems_rooted_proper) simp
    with True ne False show ?thesis
      by (simp add: split_Clean Let_def)
  next
    case False
    have "after_first ?e"
      by (rule clean_elems_after_first) simp
    with False \<open>x \<noteq> []\<close> show ?thesis
      by (simp add: split_Clean Let_def proper_name_def)
  qed
qed

lemma after_first_append:
  "after_first (a @ b) \<Longrightarrow> list_ex (\<lambda>e. e \<noteq> ''..'') a \<Longrightarrow> list_all proper_name b"
  by (induction a) (auto split: if_splits)

lemma Join_Clean: "filepath_Join elem = [] \<or> (\<exists>x. filepath_Join elem = filepath_Clean x)"
  by (auto simp: filepath_Join_def split: list.splits)

lemma guard_inside:
  assumes "\<not> dotdot_only (filepath_Clean destDir)"
    and "\<not> illegal_path destDir (filepath_Join elem)"
  shows "inside_root destDir (filepath_Join elem)"
proof -
  let ?D = "filepath_Clean destDir"
  let ?P = "filepath_Join elem"
  from assms(2) obtain t where P: "?P = ?D @ CHR ''/'' # t"
    by (auto simp: illegal_path_def HasPrefix_def Separator_def prefix_def)
  then have sp: "split_path ?P = split_path ?D @ split_path t"
    by (simp add: split_path_append)
  from P Join_Clean [of elem] obtain x where x: "?P = filepath_Clean x"
    by auto
  have "?P \<noteq> ''/''"
  proof
    assume "?P = ''/''"
    with P have "?D = []" by (cases ?D) auto
    then show False by simp
  qed
  with x have "after_first (split_path ?P)"
    using after_first_Clean [of x] by simp
  moreover from assms(1) have "list_ex (\<lambda>e. e \<noteq> ''..'') (split_path ?D)"
    by (simp add: dotdot_only_def list_all_iff list_ex_iff)
  ultimately have "list_all proper_name (split_path t)"
    using sp after_first_append by metis
  with sp show ?thesis
    by (simp add: inside_root_def Let_def)
qed

lemma inside_guard:
  assumes "inside_root destDir p"
  shows "\<not> illegal_path destDir p"
proof -
  let ?r = "split_path (filepath_Clean destDir)"
  let ?q = "split_path p"
  from assms have l: "length ?r < length ?q" and t: "take (length ?r) ?q = ?r"
    by (simp_all add: inside_root_def Let_def)
  have "?q = take (length ?r) ?q @ drop (length ?r) ?q" by simp
  with t have q: "?q = ?r @ drop (length ?r) ?q" by simp
  from l have ne: "drop (length ?r) ?q \<noteq> []" by simp
  have "p = join_sep ?q" by (simp add: join_split)
  also have "\<dots> = join_sep (?r @ drop (length ?r) ?q)" using q by simp
  also have "\<dots> = join_sep ?r @ CHR ''/'' # join_sep (drop (length ?r) ?q)"
    using ne by (simp add: join_sep_append)
  finally have "p = filepath_Clean destDir @ CHR ''/'' # join_sep (drop (length ?r) ?q)"
    by (simp add: join_split)
  then have "prefix (filepath_Clean destDir @ [CHR ''/'']) p"
    by (metis append.assoc append_Cons append_Nil prefixI)
  then show ?thesis
    by (simp add: illegal_path_def HasPrefix_def Separator_def)
qed

lemma clean_elems_snoc:
  "proper_name e \<Longrightarrow> clean_elems rooted out (es @ [e]) = clean_elems rooted out es @ [e]"
proof (induction es arbitrary: out)
  case Nil
  then show ?case by (simp add: proper_name_def)
next
  case (Cons a es)
  then show ?case
    by (cases out) auto
qed

lemma split_path_snoc:
  "split_path x \<noteq> [] \<Longrightarrow> split_path x = butlast (split_path x) @ [last (split_path x)]"
  by simp

text \<open>Cleaning keeps a last element that is a name.\<close>

lemma last_Clean:
  assumes "last (split_path x) = e" and "proper_name e"
  shows "last (split_path (filepath_Clean x)) = e"
proof -
  have sx: "split_path x = butlast (split_path x) @ [e]"
    using assms(1) split_path_snoc [of x] by simp
  from assms have "x \<noteq> []"
    by (auto simp: proper_name_def)
  let ?r = "hd x = CHR ''/''"
  have "clean_elems ?r [] (split_path x) = clean_elems ?r [] (butlast (split_path x)) @ [e]"
    using clean_elems_snoc [OF assms(2), of ?r "[]" "butlast (split_path x)"] sx by simp
  with \<open>x \<noteq> []\<close> show ?thesis
    by (simp add: split_Clean Let_def)
qed

lemma last_split_append:
  "noslash e \<Longrightarrow> last (split_path (y @ CHR ''/'' # e)) = e"
  by (simp add: split_path_append split_noslash)

lemma last_Join2:
  assumes "proper_name e" and "noslash e"
  shows "last (split_path (filepath_Join [d, e])) = e"
proof (cases "d = []")
  case True
  with assms have "filepath_Join [d, e] = filepath_Clean e"
    by (simp add: filepath_Join_def proper_name_def)
  with assms show ?thesis
    by (simp add: last_Clean split_noslash)
next
  case False
  then have "filepath_Join [d, e] = filepath_Clean (d @ CHR ''/'' # e)"
    by (simp add: filepath_Join_def)
  with assms show ?thesis
    by (simp add: last_Clean last_split_append)
qed

lemma digit_char:
  assumes "k < (10::nat)"
  shows "char_of (48 + k) \<noteq> CHR ''/''" and "char_of (48 + k) \<noteq> CHR ''.''"
proof -
  show "char_of (48 + k) \<noteq> CHR ''/''"
  proof
    assume "char_of (48 + k) = CHR ''/''"
    then have "of_char (char_of (48 + k)) = (of_char (CHR ''/'') :: nat)" by simp
    then have "(48 + k) mod 256 = 47" by (simp add: of_char_of)
    with assms show False by simp
  qed
  show "char_of (48 + k) \<noteq> CHR ''.''"
  proof
    assume "char_of (48 + k) = CHR ''.''"
    then have "of_char (char_of (48 + k)) = (of_char (CHR ''.'') :: nat)" by simp
    then have "(48 + k) mod 256 = 46" by (simp add: of_char_of)
    with assms show False by simp
  qed
qed

lemma digits_of_noslash: "noslash (digits_of n)"
proof (induction n rule: digits_of.induct)
  case (1 n)
  have d: "char_of (48 + k) \<noteq> CHR ''/''" if "k < 10" for k :: nat
    using that by (rule digit_char)
  show ?case
  proof (cases "n < 10")
    case True
    then show ?thesis
      using d [of n] by (subst digits_of.simps) (simp add: noslash_def)
  next
    case False
    with 1 have "noslash (digits_of (n div 10))" by simp
    moreover have "char_of (48 + n mod 10) \<noteq> CHR ''/''"
      by (rule d) simp
    ultimately show ?thesis
      using False by (subst digits_of.simps) (simp add: noslash_def)
  qed
qed

lemma digits_of_nonempty: "digits_of n \<noteq> []"
  by (subst digits_of.simps) simp

lemma digits_of_hd: "hd (digits_of n) \<noteq> CHR ''.''"
proof (induction n rule: digits_of.induct)
  case (1 n)
  have d: "char_of (48 + k) \<noteq> CHR ''.''" if "k < 10" for k :: nat
    using that by (rule digit_char)
  show ?case
  proof (cases "n < 10")
    case True
    then show ?thesis
      using d [of n] by (subst digits_of.simps) simp
  next
    case False
    with 1 digits_of_nonempty [of "n div 10"] show ?thesis
      by (subst digits_of.simps) simp
  qed
qed

text \<open>The name of a temporary directory ends in a name made of the pattern and digits.\<close>

lemma last_temp_name:
  assumes "noslash pattern"
  shows "last (split_path (temp_name env pattern i)) = pattern @ digits_of (nextRandom env i)"
proof -
  let ?n = "pattern @ digits_of (nextRandom env i)"
  have n: "noslash ?n"
    using assms digits_of_noslash [of "nextRandom env i"] by (simp add: noslash_def)
  have "TempDir env \<noteq> []"
    by (simp add: TempDir_def)
  then have "\<exists>y. temp_name env pattern i = y @ CHR ''/'' # ?n"
  proof (cases "last (TempDir env) = CHR ''/''")
    case True
    with \<open>TempDir env \<noteq> []\<close> have "TempDir env = butlast (TempDir env) @ [CHR ''/'']"
      by (metis append_butlast_last_id)
    then have "temp_name env pattern i = butlast (TempDir env) @ CHR ''/'' # ?n"
      using True \<open>TempDir env \<noteq> []\<close>
      by (simp add: temp_name_def joinPath_def)
    then show ?thesis by blast
  next
    case False
    then have "temp_name env pattern i = TempDir env @ CHR ''/'' # ?n"
      by (simp add: temp_name_def joinPath_def)
    then show ?thesis by blast
  qed
  then obtain y where "temp_name env pattern i = y @ CHR ''/'' # ?n" by blast
  with n show ?thesis
    by (simp add: last_split_append)
qed

lemma absolute_not_dotdot_only:
  assumes "IsAbs destDir"
  shows "\<not> dotdot_only (filepath_Clean destDir)"
proof -
  from assms obtain r where "destDir = CHR ''/'' # r"
    by (auto simp: IsAbs_def prefix_def)
  then have "hd (split_path (filepath_Clean destDir)) = []"
    by (simp add: filepath_Clean_def Let_def)
  then show ?thesis
    by (cases "split_path (filepath_Clean destDir)") (auto simp: dotdot_only_def)
qed

lemma temp_not_dotdot_only:
  assumes "noslash pattern" and "pattern \<noteq> []" and "hd pattern \<noteq> CHR ''.''"
  shows "\<not> dotdot_only (filepath_Clean (temp_name env pattern i))"
proof -
  let ?n = "pattern @ digits_of (nextRandom env i)"
  from assms(2,3) have p: "proper_name ?n"
    by (cases pattern) (auto simp: proper_name_def)
  have "last (split_path (temp_name env pattern i)) = ?n"
    using assms(1) by (rule last_temp_name)
  then have "last (split_path (filepath_Clean (temp_name env pattern i))) = ?n"
    using p by (rule last_Clean)
  moreover from p have "?n \<noteq> ''..''"
    by (simp add: proper_name_def)
  ultimately have "\<exists>e \<in> set (split_path (filepath_Clean (temp_name env pattern i))). e \<noteq> ''..''"
    by (metis last_in_set split_path_nonempty)
  then show ?thesis
    by (auto simp: dotdot_only_def list_all_iff)
qed

subsection \<open>Cleaning twice, and appending a name\<close>

lemma clean_elems_names:
  "list_all proper_name xs \<Longrightarrow> clean_elems rooted out xs = rev out @ xs"
  by (induction xs arbitrary: out) (auto simp: proper_name_def)

lemma clean_elems_dotdots:
  "list_all (\<lambda>e. e = ''..'') dd \<Longrightarrow> list_all (\<lambda>e. e = ''..'') out \<Longrightarrow>
     clean_elems False out (dd @ xs) = clean_elems False (rev dd @ out) xs"
proof (induction dd arbitrary: out)
  case Nil
  show ?case by simp
next
  case (Cons d dd)
  then show ?case
    by (cases out) auto
qed

lemma stack_ok_split:
  "stack_ok out \<Longrightarrow>
     \<exists>dd ns. rev out = dd @ ns \<and> list_all (\<lambda>e. e = ''..'') dd \<and> list_all proper_name ns"
proof (induction out)
  case Nil
  show ?case by simp
next
  case (Cons t ts)
  show ?case
  proof (cases "t = ''..''")
    case True
    with Cons.prems have "rev (t # ts) = rev (t # ts) @ [] \<and> list_all (\<lambda>e. e = ''..'') (rev (t # ts))
        \<and> list_all proper_name []"
      by (simp add: list_all_iff)
    then show ?thesis by blast
  next
    case False
    with Cons obtain dd ns where "rev ts = dd @ ns" "list_all (\<lambda>e. e = ''..'') dd" "list_all proper_name ns"
      and "proper_name t"
      by auto
    then have "rev (t # ts) = dd @ (ns @ [t]) \<and> list_all (\<lambda>e. e = ''..'') dd \<and> list_all proper_name (ns @ [t])"
      by simp
    then show ?thesis by blast
  qed
qed

lemma clean_elems_stack:
  "stack_ok out \<Longrightarrow> \<exists>out'. clean_elems rooted out es = rev out' \<and> stack_ok out'"
proof (induction es arbitrary: out)
  case Nil
  then show ?case by auto
next
  case (Cons e es)
  show ?case
  proof (cases "e = [] \<or> e = ''.''")
    case True
    with Cons show ?thesis by auto
  next
    case skip: False
    show ?thesis
    proof (cases "e = ''..''")
      case True
      show ?thesis
      proof (cases out)
        case Nil
        with True Cons.IH [of "if rooted then [] else [''..'']"] show ?thesis by simp
      next
        case (Cons t ts)
        with True Cons.prems Cons.IH [of "''..'' # out"] Cons.IH [of ts] show ?thesis
          by (auto split: if_splits)
      qed
    next
      case False
      with skip have "proper_name e" by (simp add: proper_name_def)
      with Cons.prems have "stack_ok (e # out)" using False by simp
      from Cons.IH [OF this] skip False show ?thesis by simp
    qed
  qed
qed

lemma clean_elems_again:
  assumes "es = clean_elems rooted [] xs"
  shows "clean_elems rooted [] es = es"
proof (cases rooted)
  case True
  have "list_all proper_name (clean_elems True [] xs)"
    by (rule clean_elems_rooted_proper) simp
  with assms True show ?thesis
    by (simp add: clean_elems_names)
next
  case False
  from clean_elems_stack [of "[]" rooted xs] obtain out' where o: "es = rev out'" "stack_ok out'"
    using assms by auto
  from stack_ok_split [OF o(2)] o(1) obtain dd ns where
    s: "es = dd @ ns" "list_all (\<lambda>e. e = ''..'') dd" "list_all proper_name ns"
    by auto
  have "clean_elems False [] (dd @ ns) = clean_elems False (rev dd @ []) ns"
    using s(2) by (intro clean_elems_dotdots) simp_all
  also have "\<dots> = dd @ ns"
    using s(3) by (simp add: clean_elems_names)
  finally show ?thesis
    using s(1) False by simp
qed

lemma clean_elems_hd:
  assumes "es = clean_elems rooted [] xs" and "es \<noteq> []"
  shows "hd es \<noteq> []"
proof -
  have "list_all (\<lambda>e. e \<noteq> []) (clean_elems rooted [] xs)"
    by (rule clean_elems_nonempty) simp
  then have "list_all (\<lambda>e. e \<noteq> []) es"
    using assms(1) by simp
  with assms(2) show "hd es \<noteq> []"
    by (cases es) auto
qed

lemma hd_join_sep: "es \<noteq> [] \<Longrightarrow> hd es \<noteq> [] \<Longrightarrow> hd (join_sep es) = hd (hd es)"
  by (induction es rule: join_sep.induct) auto

text \<open>Cleaning a cleaned path changes nothing.\<close>

lemma Clean_Clean [simp]: "filepath_Clean (filepath_Clean x) = filepath_Clean x"
proof (cases "x = []")
  case True
  have "filepath_Clean ''.'' = ''.''" by code_simp
  with True show ?thesis by (simp add: filepath_Clean_def)
next
  case False
  let ?r = "hd x = CHR ''/''"
  let ?e = "clean_elems ?r [] (split_path x)"
  have ns: "list_all noslash ?e"
    by (intro clean_elems_noslash split_path_noslash) simp
  have again: "clean_elems ?r [] ?e = ?e"
    by (rule clean_elems_again) simp
  show ?thesis
  proof (cases ?r)
    case True
    with False have P: "filepath_Clean x = CHR ''/'' # join_sep ?e"
      by (simp add: filepath_Clean_def Let_def)
    have "clean_elems True [] (split_path (CHR ''/'' # join_sep ?e)) = ?e"
    proof (cases "?e = []")
      case True
      then show ?thesis by simp
    next
      case ne: False
      with ns have "split_path (join_sep ?e) = ?e"
        by (simp add: split_join)
      with again True show ?thesis by simp
    qed
    with True show ?thesis
      unfolding P by (simp add: filepath_Clean_def Let_def)
  next
    case rel: False
    show ?thesis
    proof (cases "?e = []")
      case True
      have "filepath_Clean ''.'' = ''.''" by code_simp
      with True rel False show ?thesis
        by (simp add: filepath_Clean_def Let_def)
    next
      case ne: False
      with rel False have P: "filepath_Clean x = join_sep ?e"
        by (simp add: filepath_Clean_def Let_def)
      have h: "hd ?e \<noteq> []"
        using clean_elems_hd [OF refl ne] .
      from ns ne have "noslash (hd ?e)"
        by (cases ?e) auto
      with h have "hd (hd ?e) \<noteq> CHR ''/''"
        by (cases "hd ?e") (auto simp: noslash_def)
      with ne h have hdP: "hd (join_sep ?e) \<noteq> CHR ''/''"
        by (simp add: hd_join_sep)
      have neP: "join_sep ?e \<noteq> []"
        using P Clean_nonempty [of x] by simp
      from ns ne have sp: "split_path (join_sep ?e) = ?e"
        by (simp add: split_join)
      from hdP neP sp again rel ne show ?thesis
        unfolding P by (simp add: filepath_Clean_def Let_def)
    qed
  qed
qed

text \<open>Appending a name to a path that ends in a name.\<close>

lemma Clean_snoc:
  assumes "proper_name (last (split_path (filepath_Clean x)))"
    and "proper_name e" and "noslash e"
  shows "filepath_Clean (x @ CHR ''/'' # e) = filepath_Clean x @ CHR ''/'' # e"
proof -
  let ?r = "hd x = CHR ''/''"
  let ?e = "clean_elems ?r [] (split_path x)"
  have x: "x \<noteq> []"
  proof
    assume "x = []"
    then have "filepath_Clean x = ''.''" by (simp add: filepath_Clean_def)
    with assms(1) show False by (simp add: proper_name_def)
  qed
  have ne: "?e \<noteq> []"
  proof
    assume "?e = []"
    with x have "split_path (filepath_Clean x) = [[], []] \<or> split_path (filepath_Clean x) = [''.'']"
      by (simp add: split_Clean Let_def)
    with assms(1) show False by (auto simp: proper_name_def)
  qed
  have sp: "split_path (x @ CHR ''/'' # e) = split_path x @ [e]"
    using assms(3) by (simp add: split_path_append split_noslash)
  have ce: "clean_elems ?r [] (split_path x @ [e]) = ?e @ [e]"
    using assms(2) by (rule clean_elems_snoc)
  have j: "join_sep (?e @ [e]) = join_sep ?e @ CHR ''/'' # e"
    using ne by (simp add: join_sep_append)
  from x have hd: "hd (x @ CHR ''/'' # e) = hd x"
    by simp
  show ?thesis
  proof (cases ?r)
    case True
    with x ne ce j show ?thesis
      by (simp add: filepath_Clean_def Let_def hd sp)
  next
    case False
    with x ne ce j show ?thesis
      by (simp add: filepath_Clean_def Let_def hd sp)
  qed
qed

lemma Join2_snoc:
  assumes "proper_name (last (split_path (filepath_Clean d)))"
    and "proper_name e" and "noslash e"
  shows "filepath_Join [d, e] = filepath_Clean d @ CHR ''/'' # e"
proof -
  have "d \<noteq> []"
  proof
    assume "d = []"
    then have "filepath_Clean d = ''.''" by (simp add: filepath_Clean_def)
    with assms(1) show False by (simp add: proper_name_def)
  qed
  then have "filepath_Join [d, e] = filepath_Clean (d @ CHR ''/'' # e)"
    by (simp add: filepath_Join_def)
  with assms show ?thesis
    by (simp add: Clean_snoc)
qed

text \<open>A path below or at \<open>T\<close> whose last element is a name: its directory is below or at \<open>T\<close>, or it is \<open>T\<close>.\<close>

lemma at_or_under_snoc:
  assumes "at_or_under T (B @ CHR ''/'' # e)" and "noslash e"
  shows "at_or_under T B \<or> T = B @ CHR ''/'' # e"
proof -
  from assms(1) consider "B @ CHR ''/'' # e = T" | "prefix (T @ ''/'') (B @ CHR ''/'' # e)"
    by (auto simp: at_or_under_def)
  then show ?thesis
  proof cases
    case 1
    then show ?thesis by simp
  next
    case 2
    then consider "prefix (T @ ''/'') B"
      | us where "T @ ''/'' = B @ us" "prefix us (CHR ''/'' # e)"
      by (auto simp: prefix_append)
    then show ?thesis
    proof cases
      case 1
      then show ?thesis by (simp add: at_or_under_def)
    next
      case 2
      show ?thesis
      proof (cases us)
        case Nil
        with 2(1) have "prefix (T @ ''/'') B" by simp
        then show ?thesis by (simp add: at_or_under_def)
      next
        case (Cons u us')
        with 2(2) have u: "u = CHR ''/''" and p: "prefix us' e" by auto
        show ?thesis
        proof (cases "us' = []")
          case True
          with 2(1) Cons u have "T = B" by simp
          then show ?thesis by (simp add: at_or_under_def)
        next
          case False
          from 2(1) Cons have "last (T @ ''/'') = last us'"
            using False by (metis last_appendR last_ConsR list.distinct(1))
          then have "last us' = CHR ''/''" by simp
          with False have "CHR ''/'' \<in> set us'"
            by (metis last_in_set)
          with p have "CHR ''/'' \<in> set e"
            by (auto simp: prefix_def)
          with assms(2) show ?thesis by (simp add: noslash_def)
        qed
      qed
    qed
  qed
qed

subsection \<open>Temporary directories\<close>

text \<open>What \<^verbatim>\<open>os.MkdirTemp\<close> returns: a fresh name of the temporary directory, made a directory.\<close>

lemma try_MkdirTemp_result:
  "try_MkdirTemp env w pattern i = (w', r) \<Longrightarrow>
     (case r of Inl e \<Rightarrow> w' = w
      | Inr d \<Rightarrow> (\<exists>j. d = temp_name env pattern j) \<and> \<not> occupied w d \<and> w' = put d Dir w)"
proof (induction env w pattern i rule: try_MkdirTemp.induct)
  case (1 env w pattern i)
  show ?case
  proof (cases "10000 \<le> i")
    case True
    with "1.prems" show ?thesis
      by (subst (asm) try_MkdirTemp.simps) auto
  next
    case False
    show ?thesis
    proof (cases "fs_error env OpMkdir (temp_name env pattern i)")
      case (Some e)
      with False "1.prems" show ?thesis
        by (subst (asm) try_MkdirTemp.simps) (auto simp: Let_def)
    next
      case None
      show ?thesis
      proof (cases "occupied w (temp_name env pattern i)")
        case True
        with None False "1.prems" have "try_MkdirTemp env w pattern (Suc i) = (w', r)"
          by (subst (asm) try_MkdirTemp.simps) (simp add: Let_def)
        with "1.IH" [OF False refl None True] show ?thesis by simp
      next
        case free: False
        with None False "1.prems" show ?thesis
          by (subst (asm) try_MkdirTemp.simps) (auto simp: Let_def)
      qed
    qed
  qed
qed

section \<open>Properties of the archive extraction\<close>

lemma os_MkdirAll_writes: "writes (fst (os_MkdirAll env w p)) = writes w"
  by (auto simp: os_MkdirAll_def put_def split: option.splits node.splits)

lemma os_OpenFile_writes':
  "writes (fst (os_OpenFile env w p perm)) =
     writes w @ (if snd (os_OpenFile env w p perm) = None then [p] else [])"
  by (auto simp: os_OpenFile_def put_def split: option.splits node.splits)

lemma os_OpenFile_writes:
  "os_OpenFile env w p perm = (w', r) \<Longrightarrow>
     writes w' = writes w @ (if r = None then [p] else [])"
  using os_OpenFile_writes' [of env w p perm] by simp

lemma io_Copy_writes: "writes (fst (io_Copy env w p c e)) = writes w"
  by (auto simp: io_Copy_def put_def split: option.splits node.splits)

text \<open>Every path the zip loop opens has passed the guard.\<close>

lemma extractZip_files_writes:
  "\<exists>new. writes (fst (extractZip_files env w destDir files)) = writes w @ new
        \<and> list_all (\<lambda>p. \<not> illegal_path destDir p \<and> (\<exists>n. p = filepath_Join [destDir, n])) new"
proof (induction files arbitrary: w)
  case Nil
  show ?case by simp
next
  case (Cons m ms)
  let ?path = "filepath_Join [destDir, zip_file.Name m]"
  show ?case
  proof (cases "illegal_path destDir ?path")
    case True
    then show ?thesis by (simp add: Let_def)
  next
    case legal: False
    show ?thesis
    proof (cases "IsDir m")
      case True
      from Cons [of "fst (os_MkdirAll env w ?path)"] legal True show ?thesis
        by (simp add: Let_def os_MkdirAll_writes)
    next
      case False
      obtain w1 r1 where m: "os_MkdirAll env w (filepath_Dir ?path) = (w1, r1)"
        by (cases "os_MkdirAll env w (filepath_Dir ?path)")
      then have w1: "writes w1 = writes w"
        using os_MkdirAll_writes [of env w "filepath_Dir ?path"] by simp
      obtain w2 r2 where o: "os_OpenFile env w1 ?path (Perm m) = (w2, r2)"
        by (cases "os_OpenFile env w1 ?path (Perm m)")
      note w2 = os_OpenFile_writes [OF o]
      obtain w3 r3 where c: "io_Copy env w2 ?path (zip_file.data m) (zip_file.read_err m) = (w3, r3)"
        by (cases "io_Copy env w2 ?path (zip_file.data m) (zip_file.read_err m)")
      then have w3: "writes w3 = writes w2"
        using io_Copy_writes [of env w2 ?path "zip_file.data m" "zip_file.read_err m"] by simp
      from Cons [of w3] obtain new where
        n: "writes (fst (extractZip_files env w3 destDir ms)) = writes w3 @ new"
          "list_all (\<lambda>p. \<not> illegal_path destDir p \<and> (\<exists>n. p = filepath_Join [destDir, n])) new"
        by blast
      have step: "extractZip_files env w destDir (m # ms) =
            (case r1 of Some e \<Rightarrow> (w1, Some e)
             | None \<Rightarrow> (case r2 of Some e \<Rightarrow> (w2, Some e)
                | None \<Rightarrow> (case open_err m of Some e \<Rightarrow> (w2, Some e)
                   | None \<Rightarrow> (case r3 of Some e \<Rightarrow> (w3, Some e)
                      | None \<Rightarrow> extractZip_files env w3 destDir ms))))"
        using legal False m o c by (simp add: Let_def split: option.splits)
      show ?thesis
      proof (cases r1)
        case (Some e)
        with step w1 show ?thesis by simp
      next
        case r1: None
        show ?thesis
        proof (cases r2)
          case (Some e)
          with step r1 w1 w2 show ?thesis by simp
        next
          case r2: None
          have one: "list_all (\<lambda>p. \<not> illegal_path destDir p \<and> (\<exists>n. p = filepath_Join [destDir, n])) [?path]"
            using legal by auto
          show ?thesis
          proof (cases "open_err m")
            case (Some e)
            with step r1 r2 w1 w2 one show ?thesis by simp
          next
            case oe: None
            show ?thesis
            proof (cases r3)
              case (Some e)
              with step r1 r2 oe w1 w2 w3 one show ?thesis by simp
            next
              case None
              with step r1 r2 oe w1 w2 w3 one n show ?thesis by simp
            qed
          qed
        qed
      qed
    qed
  qed
qed

text \<open>A member that fails the guard makes the zip loop return an error.\<close>

lemma extractZip_files_illegal:
  "f \<in> set files \<Longrightarrow> illegal_path destDir (filepath_Join [destDir, zip_file.Name f]) \<Longrightarrow>
     snd (extractZip_files env w destDir files) \<noteq> None"
proof (induction files arbitrary: w)
  case Nil
  then show ?case by simp
next
  case (Cons m ms)
  show ?case
  proof (cases "illegal_path destDir (filepath_Join [destDir, zip_file.Name m])")
    case True
    then show ?thesis by (simp add: Let_def)
  next
    case False
    with Cons.prems have "f \<in> set ms" by auto
    with Cons have "\<And>w. snd (extractZip_files env w destDir ms) \<noteq> None" by simp
    with False show ?thesis
      by (auto simp: Let_def split: prod.splits option.splits)
  qed
qed


lemma extractTarGz_items_writes:
  "\<exists>new. writes (fst (extractTarGz_items env w destDir items)) = writes w @ new
        \<and> list_all (\<lambda>p. \<not> illegal_path destDir p \<and> (\<exists>n. p = filepath_Join [destDir, n])) new"
proof (induction items arbitrary: w)
  case Nil
  show ?case by simp
next
  case (Cons item items)
  show ?case
  proof (cases item)
    case (Broken e)
    then show ?thesis by simp
  next
    case (Header h)
    let ?path = "filepath_Join [destDir, tar_header.Name h]"
    show ?thesis
    proof (cases "illegal_path destDir ?path")
      case True
      with Header show ?thesis by (simp add: Let_def)
    next
      case legal: False
      consider (dir) "Typeflag h = TypeDir" | (reg) "Typeflag h \<noteq> TypeDir" "Typeflag h = TypeReg"
        | (other) "Typeflag h \<noteq> TypeDir" "Typeflag h \<noteq> TypeReg" by blast
      then show ?thesis
      proof cases
        case dir
        obtain w1 r1 where m: "os_MkdirAll env w ?path = (w1, r1)"
          by (cases "os_MkdirAll env w ?path")
        then have w1: "writes w1 = writes w"
          using os_MkdirAll_writes [of env w ?path] by simp
        from Cons [of w1] w1 Header legal dir m show ?thesis
          by (cases r1) (simp_all add: Let_def)
      next
        case other
        with Cons [of w] Header legal show ?thesis
          by (simp add: Let_def)
      next
        case reg
        obtain w1 r1 where m: "os_MkdirAll env w (filepath_Dir ?path) = (w1, r1)"
          by (cases "os_MkdirAll env w (filepath_Dir ?path)")
        then have w1: "writes w1 = writes w"
          using os_MkdirAll_writes [of env w "filepath_Dir ?path"] by simp
        obtain w2 r2 where o: "os_OpenFile env w1 ?path (Mode h) = (w2, r2)"
          by (cases "os_OpenFile env w1 ?path (Mode h)")
        note w2 = os_OpenFile_writes [OF o]
        obtain w3 r3 where c: "io_Copy env w2 ?path (tar_header.data h) (tar_header.read_err h) = (w3, r3)"
          by (cases "io_Copy env w2 ?path (tar_header.data h) (tar_header.read_err h)")
        then have w3: "writes w3 = writes w2"
          using io_Copy_writes [of env w2 ?path "tar_header.data h" "tar_header.read_err h"] by simp
        from Cons [of w3] obtain new where
          n: "writes (fst (extractTarGz_items env w3 destDir items)) = writes w3 @ new"
            "list_all (\<lambda>p. \<not> illegal_path destDir p \<and> (\<exists>n. p = filepath_Join [destDir, n])) new"
          by blast
        have step: "extractTarGz_items env w destDir (item # items) =
              (case r1 of Some e \<Rightarrow> (w1, Some e)
               | None \<Rightarrow> (case r2 of Some e \<Rightarrow> (w2, Some e)
                  | None \<Rightarrow> (case r3 of Some e \<Rightarrow> (w3, Some e)
                        | None \<Rightarrow> extractTarGz_items env w3 destDir items)))"
          using Header legal reg m o c by (simp add: Let_def split: option.splits)
        have one: "list_all (\<lambda>p. \<not> illegal_path destDir p \<and> (\<exists>n. p = filepath_Join [destDir, n])) [?path]"
          using legal by auto
        show ?thesis
        proof (cases r1)
          case (Some e)
          with step w1 show ?thesis by simp
        next
          case r1: None
          show ?thesis
          proof (cases r2)
            case (Some e)
            with step r1 w1 w2 show ?thesis by simp
          next
            case r2: None
            show ?thesis
            proof (cases r3)
              case (Some e)
              with step r1 r2 w1 w2 w3 one show ?thesis by simp
            next
              case None
              with step r1 r2 w1 w2 w3 one n show ?thesis by simp
            qed
          qed
        qed
      qed
    qed
  qed
qed

lemma extractTarGz_items_illegal:
  "Header h \<in> set items \<Longrightarrow> illegal_path destDir (filepath_Join [destDir, tar_header.Name h]) \<Longrightarrow>
     snd (extractTarGz_items env w destDir items) \<noteq> None"
proof (induction items arbitrary: w)
  case Nil
  then show ?case by simp
next
  case (Cons item items)
  show ?case
  proof (cases item)
    case (Broken e)
    then show ?thesis by simp
  next
    case (Header h')
    show ?thesis
    proof (cases "illegal_path destDir (filepath_Join [destDir, tar_header.Name h'])")
      case True
      with Header show ?thesis by (simp add: Let_def)
    next
      case False
      with Cons.prems Header have "Header h \<in> set items" by auto
      with Cons have "\<And>w. snd (extractTarGz_items env w destDir items) \<noteq> None" by simp
      with False Header show ?thesis
        by (auto simp: Let_def split: prod.splits option.splits)
    qed
  qed
qed

text \<open>From the guard to the meaning of the written paths.\<close>

lemma guarded_writes_inside:
  assumes "\<not> dotdot_only (filepath_Clean destDir)"
    and "list_all (\<lambda>p. \<not> illegal_path destDir p \<and> (\<exists>n. p = filepath_Join [destDir, n])) new"
  shows "list_all (inside_root destDir) new"
  using assms by (auto simp: list_all_iff intro: guard_inside)

lemma extractZip_writes:
  assumes "\<not> dotdot_only (filepath_Clean destDir)"
  shows "\<exists>new. writes (fst (extractZip env w zipPath destDir)) = writes w @ new
             \<and> list_all (inside_root destDir) new"
proof (cases "\<exists>bytes files. read_archive env w zipPath = Inr bytes \<and> zip_NewReader env bytes = Inr files")
  case True
  then obtain bytes files where "read_archive env w zipPath = Inr bytes" "zip_NewReader env bytes = Inr files"
    by blast
  then have "extractZip env w zipPath destDir = extractZip_files env w destDir files"
    by (simp add: extractZip_def)
  with extractZip_files_writes [of env w destDir files] guarded_writes_inside [OF assms]
  show ?thesis by auto
next
  case False
  then have "fst (extractZip env w zipPath destDir) = w"
    by (auto simp: extractZip_def split: sum.splits)
  then show ?thesis by simp
qed

lemma extractTarGz_writes:
  assumes "\<not> dotdot_only (filepath_Clean destDir)"
  shows "\<exists>new. writes (fst (extractTarGz env w tarGzPath destDir)) = writes w @ new
             \<and> list_all (inside_root destDir) new"
proof (cases "\<exists>bytes items. read_archive env w tarGzPath = Inr bytes \<and> gzip_tar_NewReader env bytes = Inr items")
  case True
  then obtain bytes items where "read_archive env w tarGzPath = Inr bytes" "gzip_tar_NewReader env bytes = Inr items"
    by blast
  then have "extractTarGz env w tarGzPath destDir = extractTarGz_items env w destDir items"
    by (simp add: extractTarGz_def)
  with extractTarGz_items_writes [of env w destDir items] guarded_writes_inside [OF assms]
  show ?thesis by auto
next
  case False
  then have "fst (extractTarGz env w tarGzPath destDir) = w"
    by (auto simp: extractTarGz_def split: sum.splits)
  then show ?thesis by simp
qed

text \<open>
  Where the guard of the extractors is sound: let the cleaned destination directory not
  consist of \<^verbatim>\<open>..\<close> elements only. Then every path that \<^verbatim>\<open>extractZip\<close> or
  \<^verbatim>\<open>extractTarGz\<close> opens for writing lies strictly inside the destination; and when the
  archive holds a member whose joined path does not, the extraction returns an error and
  never opens that path.
\<close>

lemma extraction_guarded:
  assumes "\<not> dotdot_only (filepath_Clean destDir)"
  shows "(\<exists>new. writes (fst (extractZip env w zipPath destDir)) = writes w @ new
              \<and> list_all (inside_root destDir) new
              \<and> (\<forall>bytes files f.
                    read_archive env w zipPath = Inr bytes \<and> zip_NewReader env bytes = Inr files
                    \<and> f \<in> set files
                    \<and> \<not> inside_root destDir (filepath_Join [destDir, zip_file.Name f])
                    \<longrightarrow> snd (extractZip env w zipPath destDir) \<noteq> None
                        \<and> filepath_Join [destDir, zip_file.Name f] \<notin> set new))
       \<and> (\<exists>new. writes (fst (extractTarGz env w' tarGzPath destDir)) = writes w' @ new
              \<and> list_all (inside_root destDir) new
              \<and> (\<forall>bytes items h.
                    read_archive env w' tarGzPath = Inr bytes \<and> gzip_tar_NewReader env bytes = Inr items
                    \<and> Header h \<in> set items
                    \<and> \<not> inside_root destDir (filepath_Join [destDir, tar_header.Name h])
                    \<longrightarrow> snd (extractTarGz env w' tarGzPath destDir) \<noteq> None
                        \<and> filepath_Join [destDir, tar_header.Name h] \<notin> set new))"
proof -
  have bad: "illegal_path destDir (filepath_Join [destDir, n])"
    if "\<not> inside_root destDir (filepath_Join [destDir, n])" for n
    using that guard_inside [OF assms] by blast
  from extractZip_writes [OF assms, of env w zipPath] obtain new where
    z: "writes (fst (extractZip env w zipPath destDir)) = writes w @ new"
       "list_all (inside_root destDir) new" by blast
  have "snd (extractZip env w zipPath destDir) \<noteq> None \<and> filepath_Join [destDir, zip_file.Name f] \<notin> set new"
    if "read_archive env w zipPath = Inr bytes" "zip_NewReader env bytes = Inr files" "f \<in> set files"
       "\<not> inside_root destDir (filepath_Join [destDir, zip_file.Name f])" for bytes files f
  proof -
    from that(1,2) have "extractZip env w zipPath destDir = extractZip_files env w destDir files"
      by (simp add: extractZip_def)
    with extractZip_files_illegal [OF that(3) bad [OF that(4)]]
    have "snd (extractZip env w zipPath destDir) \<noteq> None" by simp
    moreover from z(2) that(4) have "filepath_Join [destDir, zip_file.Name f] \<notin> set new"
      by (auto simp: list_all_iff)
    ultimately show ?thesis by simp
  qed
  with z have Z: "\<exists>new. writes (fst (extractZip env w zipPath destDir)) = writes w @ new
              \<and> list_all (inside_root destDir) new
              \<and> (\<forall>bytes files f.
                    read_archive env w zipPath = Inr bytes \<and> zip_NewReader env bytes = Inr files
                    \<and> f \<in> set files
                    \<and> \<not> inside_root destDir (filepath_Join [destDir, zip_file.Name f])
                    \<longrightarrow> snd (extractZip env w zipPath destDir) \<noteq> None
                        \<and> filepath_Join [destDir, zip_file.Name f] \<notin> set new)"
    by blast
  from extractTarGz_writes [OF assms, of env w' tarGzPath] obtain new' where
    t: "writes (fst (extractTarGz env w' tarGzPath destDir)) = writes w' @ new'"
       "list_all (inside_root destDir) new'" by blast
  have "snd (extractTarGz env w' tarGzPath destDir) \<noteq> None \<and> filepath_Join [destDir, tar_header.Name h] \<notin> set new'"
    if "read_archive env w' tarGzPath = Inr bytes" "gzip_tar_NewReader env bytes = Inr items" "Header h \<in> set items"
       "\<not> inside_root destDir (filepath_Join [destDir, tar_header.Name h])" for bytes items h
  proof -
    from that(1,2) have "extractTarGz env w' tarGzPath destDir = extractTarGz_items env w' destDir items"
      by (simp add: extractTarGz_def)
    with extractTarGz_items_illegal [OF that(3) bad [OF that(4)]]
    have "snd (extractTarGz env w' tarGzPath destDir) \<noteq> None" by simp
    moreover from t(2) that(4) have "filepath_Join [destDir, tar_header.Name h] \<notin> set new'"
      by (auto simp: list_all_iff)
    ultimately show ?thesis by simp
  qed
  with t have T: "\<exists>new. writes (fst (extractTarGz env w' tarGzPath destDir)) = writes w' @ new
              \<and> list_all (inside_root destDir) new
              \<and> (\<forall>bytes items h.
                    read_archive env w' tarGzPath = Inr bytes \<and> gzip_tar_NewReader env bytes = Inr items
                    \<and> Header h \<in> set items
                    \<and> \<not> inside_root destDir (filepath_Join [destDir, tar_header.Name h])
                    \<longrightarrow> snd (extractTarGz env w' tarGzPath destDir) \<noteq> None
                        \<and> filepath_Join [destDir, tar_header.Name h] \<notin> set new)"
    by blast
  from Z T show ?thesis by blast
qed



text \<open>
  The guard compares strings, and the premise on the destination cannot be dropped from
  \<open>extraction_guarded\<close>: handed the destination \<^verbatim>\<open>..\<close>, which no call of the program
  passes, \<^verbatim>\<open>extractZip\<close> joins the member \<^verbatim>\<open>../evil\<close> to \<^verbatim>\<open>../../evil\<close>, which starts with
  \<^verbatim>\<open>../\<close> and passes the guard.
\<close>

lemma guard_at_dotdot:
  "\<not> inside_root ''..'' (filepath_Join [''..'', ''../evil''])
   \<and> filepath_Join [''..'', ''../evil''] = ''../../evil''
   \<and> snd (extractZip crafted with_archives ''/tmp/up.zip'' ''..'') = None
   \<and> writes (fst (extractZip crafted with_archives ''/tmp/up.zip'' ''..'')) = [''../../evil'']"
  by code_simp

section \<open>Properties of the Chrome driver installation\<close>

subsection \<open>Frames\<close>

lemma lookup_put: "lookup (put p n w) q = (if filepath_Clean q = filepath_Clean p then Some n else lookup w q)"
  by (simp add: lookup_def put_def)

lemma put_fields [simp]:
  "requests (put p n w) = requests w" "writes (put p n w) = writes w"
  "stdout (put p n w) = stdout w" "commands (put p n w) = commands w"
  by (simp_all add: put_def)

lemma os_MkdirAll_requests [simp]: "requests (fst (os_MkdirAll env w p)) = requests w"
  by (auto simp: os_MkdirAll_def split: option.splits node.splits)

lemma os_OpenFile_requests [simp]: "requests (fst (os_OpenFile env w p perm)) = requests w"
  by (auto simp: os_OpenFile_def split: option.splits node.splits)

lemma os_Create_requests [simp]: "requests (fst (os_Create env w p)) = requests w"
  by (simp add: os_Create_def)

lemma io_Copy_requests [simp]: "requests (fst (io_Copy env w p c e)) = requests w"
  by (auto simp: io_Copy_def split: option.splits node.splits)

lemma os_Chmod_requests [simp]: "requests (fst (os_Chmod env w p perm)) = requests w"
  by (auto simp: os_Chmod_def split: option.splits node.splits)

lemma os_RemoveAll_requests [simp]: "requests (os_RemoveAll w p) = requests w"
  by (simp add: os_RemoveAll_def)

lemma copyFile_requests [simp]: "requests (fst (copyFile env w src dst)) = requests w"
  by (simp add: copyFile_def case_prod_beta split: option.splits node.splits)

lemma downloadFile_requests [simp]:
  "requests (fst (downloadFile env w url out)) = requests w @ [url]"
  by (simp add: downloadFile_def http_get_def case_prod_beta split: option.splits sum.splits)

lemma extractZip_files_requests [simp]:
  "requests (fst (extractZip_files env w destDir files)) = requests w"
proof (induction files arbitrary: w)
  case Nil
  show ?case by simp
next
  case (Cons m ms)
  show ?case
    by (simp add: Let_def case_prod_beta Cons split: option.splits)
qed

lemma extractZip_requests [simp]: "requests (fst (extractZip env w zipPath destDir)) = requests w"
  by (simp add: extractZip_def split: sum.splits)

lemma os_MkdirTemp_requests [simp]: "requests (fst (os_MkdirTemp env w pattern)) = requests w"
proof -
  obtain w' r where t: "try_MkdirTemp env w pattern 0 = (w', r)"
    by (cases "try_MkdirTemp env w pattern 0")
  from try_MkdirTemp_result [OF t] t show ?thesis
    by (cases r) (auto simp: os_MkdirTemp_def)
qed

lemma getChromeDriverPath_requests [simp]:
  "requests (fst (getChromeDriverPath env w)) = requests w"
  by (simp add: getChromeDriverPath_def default_location_def Let_def case_prod_beta
      split: sum.splits option.splits)

lemma place_chromedriver_requests:
  "requests (fst (place_chromedriver env w tempDir url ver)) = requests w @ [url]"
  by (simp add: place_chromedriver_def Let_def case_prod_beta split: option.splits sum.splits)


lemma downloadAndInstallChromeDriver_requests:
  "\<exists>rest. requests (fst (downloadAndInstallChromeDriver env w M)) =
            requests w @ [LATEST_RELEASE @ ''_'' @ M] @ rest
        \<and> (rest = [] \<or>
            (\<exists>resp platform. http_Get env (LATEST_RELEASE @ ''_'' @ M) = Inr resp
                \<and> chrome_platform env = Some platform
                \<and> rest = [chromedriver_zip (TrimSpace (Body resp)) platform]))"
  by (auto simp: downloadAndInstallChromeDriver_def http_get_def Let_def case_prod_beta
      place_chromedriver_requests chromedriver_zip_def
      split: option.splits sum.splits)

subsection \<open>The first resolution of the install path\<close>

lemma find_in_PATH_exists:
  "find_in_PATH w dirs name = Some path \<Longrightarrow> lookup w path \<noteq> None"
  by (induction dirs) (auto simp: Let_def split: option.splits if_splits)

lemma first_existing_exists:
  "first_existing env w dirs name = Some path \<Longrightarrow> os_Stat env w path \<noteq> NotExist"
  by (induction dirs) (auto simp: Let_def split: stat.splits)

lemma usr_local_bin_chromedriver:
  "filepath_Join [''/usr/local/bin'', ''chromedriver''] = ''/usr/local/bin/chromedriver''"
  by code_simp

lemma driver_name_proper [simp]:
  "proper_name (driver_name env)" "noslash (driver_name env)"
  "driver_name env \<noteq> ''bin''" "driver_name env \<noteq> ''chromedriver.zip''"
  by (simp_all add: driver_name_def proper_name_def noslash_def)

lemma driver_dir_last: "last (split_path (filepath_Clean (driver_dir env))) = ''bin''"
proof (cases "GOOS env = ''windows''")
  case True
  have p: "proper_name ''bin''" "noslash ''bin''"
    by (simp_all add: proper_name_def noslash_def)
  then have "last (split_path (filepath_Join [Getenv env ''USERPROFILE'', ''bin''])) = ''bin''"
    by (rule last_Join2)
  then have "last (split_path (filepath_Clean (filepath_Join [Getenv env ''USERPROFILE'', ''bin'']))) = ''bin''"
    using p(1) by (rule last_Clean)
  with True show ?thesis by (simp add: driver_dir_def)
next
  case False
  have "last (split_path (filepath_Clean ''/usr/local/bin'')) = ''bin''" by code_simp
  with False show ?thesis by (simp add: driver_dir_def)
qed

text \<open>The path in the fallback directory, as a string and as a key of the file system.\<close>

lemma driver_path:
  "filepath_Join [driver_dir env, driver_name env]
     = filepath_Clean (driver_dir env) @ CHR ''/'' # driver_name env"
  "filepath_Clean (filepath_Join [driver_dir env, driver_name env])
     = filepath_Join [driver_dir env, driver_name env]"
proof -
  have b: "proper_name (last (split_path (filepath_Clean (driver_dir env))))"
    by (simp add: driver_dir_last proper_name_def)
  then show "filepath_Join [driver_dir env, driver_name env]
     = filepath_Clean (driver_dir env) @ CHR ''/'' # driver_name env"
    by (rule Join2_snoc) simp_all
  have "driver_dir env \<noteq> []"
  proof
    assume "driver_dir env = []"
    then have "filepath_Clean (driver_dir env) = ''.''" by (simp add: filepath_Clean_def)
    with b show False by (simp add: proper_name_def)
  qed
  then have "filepath_Join [driver_dir env, driver_name env]
           = filepath_Clean (driver_dir env @ CHR ''/'' # driver_name env)"
    by (simp add: filepath_Join_def)
  then show "filepath_Clean (filepath_Join [driver_dir env, driver_name env])
     = filepath_Join [driver_dir env, driver_name env]"
    by simp
qed

lemma getChromeDriverPath_unfold:
  "getChromeDriverPath env w =
        (case LookPath env w (driver_name env) of
           Inr path \<Rightarrow> (w, Inr path)
         | Inl e \<Rightarrow>
             if GOOS env = ''darwin'' \<or> GOOS env = ''linux'' then
               (case first_existing env w [''/usr/local/bin'', ''/usr/bin''] (driver_name env) of
                  Some path \<Rightarrow> (w, Inr path)
                | None \<Rightarrow> default_location env w (driver_dir env) (driver_name env))
             else if GOOS env = ''windows'' then
               default_location env w (driver_dir env) (driver_name env)
             else (w, Inl (''unsupported OS for ChromeDriver: '' @ GOOS env)))"
  by (auto simp: getChromeDriverPath_def driver_name_def driver_dir_def Let_def
      simp del: first_existing.simps split: sum.splits option.splits)

text \<open>
  When the resolved install path holds no driver, the search path and the two system
  directories have none, and the path is the one in the fallback directory, which has
  just been created.
\<close>

lemma getChromeDriverPath_missing:
  assumes "getChromeDriverPath env w = (w', Inr p)"
    and "os_Stat env w' p = NotExist"
  shows "p = filepath_Join [driver_dir env, driver_name env]"
    and "find_in_PATH w (PATH env) (driver_name env) = None
         \<or> (\<exists>q. find_in_PATH w (PATH env) (driver_name env) = Some q \<and> \<not> IsAbs q)"
    and "GOOS env = ''windows''
         \<or> first_existing env w [''/usr/local/bin'', ''/usr/bin''] (driver_name env) = None"
    and "os_MkdirAll env w (driver_dir env) = (w', None)"
    and "GOOS env = ''darwin'' \<or> GOOS env = ''linux'' \<or> GOOS env = ''windows''"
proof -
  let ?n = "driver_name env"
  note g = getChromeDriverPath_unfold [of env w]
  have L: "LookPath env w ?n \<noteq> Inr q" for q
  proof
    assume l: "LookPath env w ?n = Inr q"
    with assms(1) g have "w' = w" "p = q"
      by simp_all
    moreover from l have "lookup w q \<noteq> None"
      by (auto simp: LookPath_def split: option.splits if_splits dest: find_in_PATH_exists)
    ultimately show False
      using assms(2) by (auto simp: os_Stat_def split: option.splits)
  qed
  then obtain e where l: "LookPath env w ?n = Inl e"
    by (cases "LookPath env w ?n") auto
  then show "find_in_PATH w (PATH env) ?n = None
         \<or> (\<exists>q. find_in_PATH w (PATH env) ?n = Some q \<and> \<not> IsAbs q)"
    by (auto simp: LookPath_def split: option.splits if_splits)
  from assms(1) g l show os: "GOOS env = ''darwin'' \<or> GOOS env = ''linux'' \<or> GOOS env = ''windows''"
    by (auto split: if_splits)
  show f: "GOOS env = ''windows''
         \<or> first_existing env w [''/usr/local/bin'', ''/usr/bin''] ?n = None"
  proof (rule ccontr)
    assume a: "\<not> (GOOS env = ''windows''
         \<or> first_existing env w [''/usr/local/bin'', ''/usr/bin''] ?n = None)"
    then obtain q where q: "first_existing env w [''/usr/local/bin'', ''/usr/bin''] ?n = Some q"
      by auto
    with assms(1) g l a os have "w' = w" "p = q"
      by (auto simp del: first_existing.simps)
    with first_existing_exists [OF q] assms(2) show False by simp
  qed
  from assms(1) g l f os have d: "default_location env w (driver_dir env) ?n = (w', Inr p)"
    by (auto simp del: first_existing.simps split: if_splits)
  then show "p = filepath_Join [driver_dir env, ?n]"
    by (auto simp: default_location_def split: prod.splits option.splits)
  from d show "os_MkdirAll env w (driver_dir env) = (w', None)"
    by (auto simp: default_location_def split: prod.splits option.splits)
qed


subsection \<open>Keys with a given last element\<close>

lemma same_named_refl [simp]: "same_named e w w"
  by (simp add: same_named_def)

lemma same_named_trans: "same_named e w w' \<Longrightarrow> same_named e w' w'' \<Longrightarrow> same_named e w w''"
  by (simp add: same_named_def)

lemma same_named_fs: "fs w' = fs w \<Longrightarrow> same_named e w w'"
  by (simp add: same_named_def)

lemma same_named_put:
  "last (split_path (filepath_Clean p)) \<noteq> e \<Longrightarrow> same_named e w (put p n w)"
  by (auto simp: same_named_def put_def)

lemma same_named_lookup:
  "same_named e w w' \<Longrightarrow> last (split_path (filepath_Clean q)) = e \<Longrightarrow> lookup w' q = lookup w q"
  by (simp add: same_named_def lookup_def)

lemma same_named_find_in_PATH:
  assumes "same_named e w w'" and "proper_name e" and "noslash e"
  shows "find_in_PATH w' dirs e = find_in_PATH w dirs e"
proof (induction dirs)
  case Nil
  show ?case by simp
next
  case (Cons d ds)
  have "lookup w' (filepath_Join [if d = [] then ''.'' else d, e])
      = lookup w (filepath_Join [if d = [] then ''.'' else d, e])"
    using assms by (intro same_named_lookup) (simp_all add: last_Clean last_Join2)
  with Cons show ?case by (auto simp: Let_def split: option.splits if_splits)
qed

lemma same_named_first_existing:
  assumes "same_named e w w'" and "proper_name e" and "noslash e"
  shows "first_existing env w' dirs e = first_existing env w dirs e"
proof (induction dirs)
  case Nil
  show ?case by simp
next
  case (Cons d ds)
  have "lookup w' (filepath_Join [d, e]) = lookup w (filepath_Join [d, e])"
    using assms by (intro same_named_lookup) (simp_all add: last_Clean last_Join2)
  then have "os_Stat env w' (filepath_Join [d, e]) = os_Stat env w (filepath_Join [d, e])"
    by (simp add: os_Stat_def split: option.splits)
  with Cons show ?case by (simp add: Let_def split: stat.splits)
qed

lemma same_named_os_Create:
  "last (split_path (filepath_Clean p)) \<noteq> e \<Longrightarrow> same_named e w (fst (os_Create env w p))"
  by (auto simp: os_Create_def os_OpenFile_def same_named_def put_def split: option.splits node.splits)

lemma same_named_io_Copy:
  "last (split_path (filepath_Clean p)) \<noteq> e \<Longrightarrow> same_named e w (fst (io_Copy env w p c r))"
  by (auto simp: io_Copy_def same_named_def put_def split: option.splits node.splits)

lemma same_named_downloadFile:
  assumes "last (split_path (filepath_Clean out)) \<noteq> e"
  shows "same_named e w (fst (downloadFile env w url out))"
proof -
  let ?w1 = "fst (http_get env w url)"
  have 1: "same_named e w ?w1"
    by (simp add: http_get_def same_named_def)
  have 2: "same_named e ?w1 (fst (os_Create env ?w1 out))"
    using assms by (rule same_named_os_Create)
  have 3: "same_named e (fst (os_Create env ?w1 out))
             (fst (io_Copy env (fst (os_Create env ?w1 out)) out c r))" for c r
    using assms by (rule same_named_io_Copy)
  from 1 2 3 show ?thesis
    by (auto simp: downloadFile_def case_prod_beta split: sum.splits option.splits
        intro: same_named_trans)
qed

lemma chromedriver_name [simp]:
  "proper_name ''chromedriver''" "noslash ''chromedriver''"
  "proper_name ''chromedriver.zip''" "noslash ''chromedriver.zip''"
  by (simp_all add: proper_name_def noslash_def)

lemma temp_chromedriver:
  fixes env i
  defines "n \<equiv> ''chromedriver'' @ digits_of (nextRandom env i)"
  shows "last (split_path (filepath_Clean (temp_name env ''chromedriver'' i))) = n"
    and "n \<noteq> ''chromedriver''" and "n \<noteq> ''bin''" and "n \<noteq> ''chromedriver.zip''"
    and "n \<notin> set [[], ''usr'', ''local'', ''bin'']"
proof -
  have p: "proper_name n"
    by (simp add: n_def proper_name_def)
  have "last (split_path (temp_name env ''chromedriver'' i)) = n"
    unfolding n_def by (rule last_temp_name) simp
  then show "last (split_path (filepath_Clean (temp_name env ''chromedriver'' i))) = n"
    using p by (rule last_Clean)
  show "n \<noteq> ''chromedriver''"
    using digits_of_nonempty [of "nextRandom env i"] by (simp add: n_def)
  show "n \<noteq> ''bin''" by (simp add: n_def)
  show "n \<notin> set [[], ''usr'', ''local'', ''bin'']" by (simp add: n_def)
  show "n \<noteq> ''chromedriver.zip''"
    using digits_of_hd [of "nextRandom env i"] digits_of_nonempty [of "nextRandom env i"]
    by (cases "digits_of (nextRandom env i)") (auto simp: n_def)
qed


subsection \<open>The second resolution, the copy and the removal\<close>

lemma temp_not_driver_name:
  "''chromedriver'' @ digits_of (nextRandom env i) \<noteq> driver_name env"
  using digits_of_hd [of "nextRandom env i"] digits_of_nonempty [of "nextRandom env i"]
  by (cases "digits_of (nextRandom env i)") (auto simp: driver_name_def)

lemma second_resolution:
  assumes "GOOS env = ''darwin'' \<or> GOOS env = ''linux'' \<or> GOOS env = ''windows''"
    and "find_in_PATH wA (PATH env) (driver_name env) = None
         \<or> (\<exists>q. find_in_PATH wA (PATH env) (driver_name env) = Some q \<and> \<not> IsAbs q)"
    and "GOOS env = ''windows''
         \<or> first_existing env wA [''/usr/local/bin'', ''/usr/bin''] (driver_name env) = None"
    and "os_MkdirAll env wA (driver_dir env) = (w4, None)"
    and "same_named (driver_name env) wA wd"
    and "same_named ''bin'' w4 wd"
  shows "getChromeDriverPath env wd =
           (put (driver_dir env) Dir wd, Inr (filepath_Join [driver_dir env, driver_name env]))"
proof -
  have f: "find_in_PATH wd (PATH env) (driver_name env) = find_in_PATH wA (PATH env) (driver_name env)"
    using assms(5) by (rule same_named_find_in_PATH) simp_all
  with assms(2) obtain e where l: "LookPath env wd (driver_name env) = Inl e"
    by (auto simp: LookPath_def)
  have x: "GOOS env = ''windows''
         \<or> first_existing env wd [''/usr/local/bin'', ''/usr/bin''] (driver_name env) = None"
    using same_named_first_existing [OF assms(5), of env "[''/usr/local/bin'', ''/usr/bin'']"] assms(3)
    by simp
  from assms(4) have m: "fs_error env OpMkdir (driver_dir env) = None" "w4 = put (driver_dir env) Dir wA"
    by (auto simp: os_MkdirAll_def split: option.splits node.splits)
  then have "lookup w4 (driver_dir env) = Some Dir"
    by (simp add: lookup_put)
  moreover have "lookup wd (driver_dir env) = lookup w4 (driver_dir env)"
    using assms(6) by (rule same_named_lookup) (rule driver_dir_last)
  ultimately have "lookup wd (driver_dir env) = Some Dir" by simp
  with m have "os_MkdirAll env wd (driver_dir env) = (put (driver_dir env) Dir wd, None)"
    by (simp add: os_MkdirAll_def)
  then have "default_location env wd (driver_dir env) (driver_name env)
           = (put (driver_dir env) Dir wd, Inr (filepath_Join [driver_dir env, driver_name env]))"
    by (simp add: default_location_def)
  with assms(1) l x show ?thesis
    by (auto simp: getChromeDriverPath_unfold simp del: first_existing.simps)
qed

lemma copyFile_success:
  assumes "snd (copyFile env w src dst) = None"
  shows "\<exists>c m. lookup (fst (copyFile env w src dst)) dst = Some (File c m)"
proof -
  from assms obtain n where n: "fs_error env OpOpen src = None" "lookup w src = Some n"
    by (auto simp: copyFile_def split: option.splits)
  let ?w1 = "fst (os_Create env w dst)"
  from assms n have c: "snd (os_Create env w dst) = None"
    by (auto simp: copyFile_def case_prod_beta split: option.splits)
  then obtain m1 where l1: "lookup ?w1 dst = Some (File [] m1)"
    by (auto simp: os_Create_def os_OpenFile_def lookup_put lookup_def put_def
        split: option.splits node.splits)
  from assms n c obtain c0 m0 where s: "lookup ?w1 src = Some (File c0 m0)"
    by (auto simp: copyFile_def case_prod_beta split: option.splits node.splits)
  let ?w2 = "fst (io_Copy env ?w1 dst c0 None)"
  from assms n c s have i: "snd (io_Copy env ?w1 dst c0 None) = None"
    by (auto simp: copyFile_def case_prod_beta split: option.splits)
  with l1 have "lookup ?w2 dst = Some (File c0 m1)"
    by (auto simp: io_Copy_def lookup_put split: option.splits)
  moreover from assms n c s i have "fst (copyFile env w src dst) = ?w2"
    by (auto simp: copyFile_def case_prod_beta split: option.splits)
  ultimately show ?thesis by auto
qed

lemma os_Chmod_success:
  assumes "snd (os_Chmod env w p perm) = None" and "lookup w p = Some (File c m)"
  shows "lookup (fst (os_Chmod env w p perm)) p = Some (File c (perm mod 512))"
  using assms by (auto simp: os_Chmod_def lookup_put split: option.splits)

text \<open>
  A successful run of the installation proper leaves a regular file at the path of the
  second resolution, with the permission bits 0755 unless the system is Windows.
\<close>

lemma place_chromedriver_installs:
  assumes "snd (place_chromedriver env w tempDir url ver) = None"
    and "snd (getChromeDriverPath env
                (fst (downloadFile env w url (filepath_Join [tempDir, ''chromedriver.zip''])))) = Inr driverPath"
  shows "\<exists>c m. lookup (fst (place_chromedriver env w tempDir url ver)) driverPath = Some (File c m)
               \<and> (GOOS env \<noteq> ''windows'' \<longrightarrow> m = 493)"
proof -
  let ?a = "filepath_Join [tempDir, ''chromedriver.zip'']"
  let ?w1 = "fst (downloadFile env w url ?a)"
  let ?w2 = "fst (getChromeDriverPath env ?w1)"
  let ?w3 = "fst (extractZip env ?w2 ?a tempDir)"
  let ?w4 = "fst (os_MkdirAll env ?w3 (filepath_Dir driverPath))"
  let ?src = "filepath_Join [tempDir, ''chromedriver''] @ (if GOOS env = ''windows'' then ''.exe'' else [])"
  let ?w5 = "fst (copyFile env ?w4 ?src driverPath)"
  let ?w6 = "fst (if GOOS env \<noteq> ''windows'' then os_Chmod env ?w5 driverPath 493 else (?w5, None))"
  from assms have steps:
    "snd (copyFile env ?w4 ?src driverPath) = None"
    "snd (if GOOS env \<noteq> ''windows'' then os_Chmod env ?w5 driverPath 493 else (?w5, None)) = None"
    "fst (place_chromedriver env w tempDir url ver)
       = Println (''ChromeDriver '' @ ver @ '' installed successfully at '' @ driverPath) ?w6"
    by (auto simp: place_chromedriver_def Let_def case_prod_beta split: option.splits sum.splits if_splits)
  from copyFile_success [OF steps(1)] obtain c m where l5: "lookup ?w5 driverPath = Some (File c m)"
    by blast
  show ?thesis
  proof (cases "GOOS env = ''windows''")
    case True
    with l5 steps(3) show ?thesis by simp
  next
    case False
    with steps(2) have "snd (os_Chmod env ?w5 driverPath 493) = None" by simp
    from os_Chmod_success [OF this l5] False steps(3) show ?thesis
      by simp
  qed
qed

lemma map_of_filter_fst:
  "map_of (filter (\<lambda>kv. P (fst kv)) al) k = (if P k then map_of al k else None)"
  by (induction al) auto

lemma lookup_RemoveAll:
  "lookup (os_RemoveAll w d) q =
     (if at_or_under (filepath_Clean d) (filepath_Clean q) then None else lookup w q)"
  using map_of_filter_fst [of "\<lambda>k. \<not> at_or_under (filepath_Clean d) k" "fs w" "filepath_Clean q"]
  by (simp add: os_RemoveAll_def lookup_def)

text \<open>
  The temporary directory is a fresh name, and the fallback directory exists when it is
  chosen: the install path does not lie in the temporary directory.
\<close>

lemma temp_not_above_driver:
  assumes "\<not> occupied w (temp_name env ''chromedriver'' i)"
    and "map_of (fs w) (filepath_Clean (driver_dir env)) \<noteq> None"
  shows "\<not> at_or_under (filepath_Clean (temp_name env ''chromedriver'' i))
            (filepath_Join [driver_dir env, driver_name env])"
proof
  let ?T = "filepath_Clean (temp_name env ''chromedriver'' i)"
  let ?D = "filepath_Clean (driver_dir env)"
  assume "at_or_under ?T (filepath_Join [driver_dir env, driver_name env])"
  then have "at_or_under ?T (?D @ CHR ''/'' # driver_name env)"
    by (simp add: driver_path(1))
  then consider "at_or_under ?T ?D" | "?T = ?D @ CHR ''/'' # driver_name env"
    using at_or_under_snoc [of ?T ?D "driver_name env"] by auto
  then show False
  proof cases
    case 1
    from assms(2) obtain n where "(?D, n) \<in> set (fs w)"
      by (auto dest: map_of_SomeD)
    with 1 have "occupied w (temp_name env ''chromedriver'' i)"
      unfolding occupied_def list_ex_iff by force
    with assms(1) show False by simp
  next
    case 2
    then have "last (split_path ?T) = driver_name env"
      by (simp add: last_split_append)
    with temp_chromedriver(1) [of env i] temp_not_driver_name [of env i] show False
      by simp
  qed
qed

lemma downloadAndInstallChromeDriver_installs:
  assumes "GOOS env = ''darwin'' \<or> GOOS env = ''linux'' \<or> GOOS env = ''windows''"
    and "find_in_PATH wA (PATH env) (driver_name env) = None
         \<or> (\<exists>q. find_in_PATH wA (PATH env) (driver_name env) = Some q \<and> \<not> IsAbs q)"
    and "GOOS env = ''windows''
         \<or> first_existing env wA [''/usr/local/bin'', ''/usr/bin''] (driver_name env) = None"
    and "os_MkdirAll env wA (driver_dir env) = (w4, None)"
    and "fs w0 = fs w4"
    and "snd (downloadAndInstallChromeDriver env w0 M) = None"
  shows "\<exists>c m. lookup (fst (downloadAndInstallChromeDriver env w0 M))
                  (filepath_Join [driver_dir env, driver_name env]) = Some (File c m)
               \<and> (GOOS env \<noteq> ''windows'' \<longrightarrow> m = 493)"
proof -
  let ?p = "filepath_Join [driver_dir env, driver_name env]"
  let ?u = "LATEST_RELEASE @ ''_'' @ M"
  let ?w1 = "fst (http_get env w0 ?u)"
  from assms(6) obtain resp where resp: "snd (http_get env w0 ?u) = Inr resp"
    "StatusCode resp = 200" "BodyErr resp = None"
    by (auto simp: downloadAndInstallChromeDriver_def Let_def case_prod_beta
        split: sum.splits if_splits option.splits)
  from assms(6) resp obtain platform where pl: "chrome_platform env = Some platform"
    by (auto simp: downloadAndInstallChromeDriver_def Let_def case_prod_beta
        split: option.splits)
  let ?ver = "TrimSpace (Body resp)"
  let ?url = "''https://chromedriver.storage.googleapis.com/'' @ ?ver
              @ ''/chromedriver_'' @ platform @ ''.zip''"
  let ?w2 = "Println (''Downloading ChromeDriver '' @ ?ver @ '' for Chrome '' @ M
                      @ '' from '' @ ?url) ?w1"
  from assms(6) resp pl obtain tempDir where td: "snd (os_MkdirTemp env ?w2 ''chromedriver'') = Inr tempDir"
    by (auto simp: downloadAndInstallChromeDriver_def Let_def case_prod_beta
        split: sum.splits)
  let ?w3 = "fst (os_MkdirTemp env ?w2 ''chromedriver'')"
  let ?pl = "place_chromedriver env ?w3 tempDir ?url ?ver"
  from assms(6) resp pl td have ok: "snd ?pl = None"
    and fin: "fst (downloadAndInstallChromeDriver env w0 M) = os_RemoveAll (fst ?pl) tempDir"
    by (auto simp: downloadAndInstallChromeDriver_def Let_def case_prod_beta)
  from td try_MkdirTemp_result [of env ?w2 "''chromedriver''" 0 ?w3 "Inr tempDir"]
  obtain j where j: "tempDir = temp_name env ''chromedriver'' j" and w3: "?w3 = put tempDir Dir ?w2"
    and fresh: "\<not> occupied ?w2 tempDir"
    by (auto simp: os_MkdirTemp_def) (metis prod.collapse)
  note t = temp_chromedriver [of env j]
  have fs2: "fs ?w2 = fs w4"
    using assms(5) by (simp add: http_get_def)
  from assms(4) have w4: "w4 = put (driver_dir env) Dir wA"
    by (auto simp: os_MkdirAll_def split: option.splits node.splits)
  let ?a = "filepath_Join [tempDir, ''chromedriver.zip'']"
  let ?wd = "fst (downloadFile env ?w3 ?url ?a)"
  have la: "last (split_path (filepath_Clean ?a)) = ''chromedriver.zip''"
    by (simp add: last_Clean last_Join2)
  have agree: "same_named e w4 ?wd" if "e \<noteq> ''chromedriver.zip''"
    "e \<noteq> ''chromedriver'' @ digits_of (nextRandom env j)" for e
  proof -
    have "same_named e w4 ?w2"
      using fs2 by (rule same_named_fs)
    moreover have "same_named e ?w2 ?w3"
      unfolding w3 using that(2) t(1) j by (intro same_named_put) simp
    moreover have "same_named e ?w3 ?wd"
      using that(1) la by (intro same_named_downloadFile) simp
    ultimately show ?thesis
      by (blast intro: same_named_trans)
  qed
  have A: "same_named (driver_name env) wA w4"
    unfolding w4 using driver_name_proper(3) [of env]
    by (intro same_named_put) (simp add: driver_dir_last del: driver_name_proper)
  have c: "same_named (driver_name env) wA ?wd"
    using A agree [of "driver_name env"] temp_not_driver_name [of env j]
    by (auto intro: same_named_trans)
  have b: "same_named ''bin'' w4 ?wd"
    using agree [of "''bin''"] t(3) by auto
  have "getChromeDriverPath env ?wd = (put (driver_dir env) Dir ?wd, Inr ?p)"
    using assms(1-4) c b by (rule second_resolution)
  then have "snd (getChromeDriverPath env ?wd) = Inr ?p"
    by simp
  from place_chromedriver_installs [OF ok this]
  obtain cc m where l: "lookup (fst ?pl) ?p = Some (File cc m)" "GOOS env \<noteq> ''windows'' \<longrightarrow> m = 493"
    by blast
  have "map_of (fs w4) (filepath_Clean (driver_dir env)) \<noteq> None"
    by (simp add: w4 put_def)
  then have "map_of (fs ?w2) (filepath_Clean (driver_dir env)) \<noteq> None"
    using fs2 by metis
  with fresh j have "\<not> at_or_under (filepath_Clean tempDir) ?p"
    by (simp add: temp_not_above_driver)
  then have "\<not> at_or_under (filepath_Clean tempDir) (filepath_Clean ?p)"
    by (simp add: driver_path(2))
  with l show ?thesis
    by (simp add: fin lookup_RemoveAll)
qed




section \<open>Properties of a run that finds a driver\<close>

lemma find_in_PATH_fs: "fs u = fs w \<Longrightarrow> find_in_PATH u dirs name = find_in_PATH w dirs name"
  by (induction dirs) (simp_all add: lookup_def Let_def split: option.splits)

lemma first_existing_fs:
  "fs u = fs w \<Longrightarrow> first_existing env u dirs name = first_existing env w dirs name"
  by (induction dirs) (simp_all add: os_Stat_fs [of u w] Let_def split: stat.splits)

lemma os_MkdirAll_lookup_mono:
  "lookup w q \<noteq> None \<Longrightarrow> lookup (fst (os_MkdirAll env w p)) q \<noteq> None"
  by (auto simp: os_MkdirAll_def lookup_put split: option.splits node.splits)

text \<open>
  With something stored at the path in the fallback directory, no resolution of the
  install path ends at a path that holds no driver.
\<close>

lemma driver_present_stable:
  assumes "lookup w (filepath_Join [driver_dir env, driver_name env]) \<noteq> None"
    and "fs u = fs w"
    and "getChromeDriverPath env u = (u', Inr p')"
  shows "os_Stat env u' p' \<noteq> NotExist"
proof
  assume n: "os_Stat env u' p' = NotExist"
  note second = getChromeDriverPath_missing [OF assms(3) n]
  from assms(1,2) have "lookup u p' \<noteq> None"
    by (simp add: second(1) lookup_def)
  then have "lookup (fst (os_MkdirAll env u (driver_dir env))) p' \<noteq> None"
    by (rule os_MkdirAll_lookup_mono)
  with second(4) have "lookup u' p' \<noteq> None" by simp
  with n show False
    by (auto simp: os_Stat_def split: option.splits)
qed

text \<open>
  When one resolution of the install path ends at a path that holds a driver, so does
  every later one on the same file system.
\<close>

lemma getChromeDriverPath_stable:
  assumes "getChromeDriverPath env w = (w', Inr p)"
    and "os_Stat env w' p \<noteq> NotExist"
    and "fs u = fs w'"
    and "getChromeDriverPath env u = (u', Inr p')"
  shows "os_Stat env u' p' \<noteq> NotExist"
proof
  assume n: "os_Stat env u' p' = NotExist"
  note second = getChromeDriverPath_missing [OF assms(4) n]
  note g = getChromeDriverPath_unfold [of env w]
  show False
  proof (cases "LookPath env w (driver_name env)")
    case (Inr q)
    with assms(1) g have "w' = w" by simp
    with assms(3) have "find_in_PATH u (PATH env) (driver_name env)
                      = find_in_PATH w (PATH env) (driver_name env)"
      by (intro find_in_PATH_fs) simp
    with Inr second(2) show False
      by (auto simp: LookPath_def split: option.splits if_splits)
  next
    case (Inl e)
    show False
    proof (cases "GOOS env \<noteq> ''windows''
        \<and> first_existing env w [''/usr/local/bin'', ''/usr/bin''] (driver_name env) \<noteq> None")
      case True
      then obtain q where q: "first_existing env w [''/usr/local/bin'', ''/usr/bin''] (driver_name env) = Some q"
        by auto
      with assms(1) g Inl True second(5) have "w' = w"
        by (auto simp del: first_existing.simps)
      with assms(3) have "first_existing env u [''/usr/local/bin'', ''/usr/bin''] (driver_name env)
                        = first_existing env w [''/usr/local/bin'', ''/usr/bin''] (driver_name env)"
        by (intro first_existing_fs) simp
      with q second(3) True show False by simp
    next
      case False
      with assms(1) g Inl second(5)
      have d: "default_location env w (driver_dir env) (driver_name env) = (w', Inr p)"
        by (auto simp del: first_existing.simps split: if_splits)
      then have p: "p = filepath_Join [driver_dir env, driver_name env]"
        by (auto simp: default_location_def split: prod.splits option.splits)
      from n have e: "fs_error env OpStat p' = None" "lookup u' p' = None"
        by (auto simp: os_Stat_def split: option.splits)
      have "lookup u p' = None"
      proof (rule ccontr)
        assume "lookup u p' \<noteq> None"
        then have "lookup (fst (os_MkdirAll env u (driver_dir env))) p' \<noteq> None"
          by (rule os_MkdirAll_lookup_mono)
        with second(4) e(2) show False by simp
      qed
      with assms(3) have "lookup w' p' = None"
        by (simp add: lookup_def)
      with e(1) p second(1) assms(2) show False
        by (simp add: os_Stat_def)
    qed
  qed
qed

text \<open>
  When every resolution of the install path on the present file system ends at a path
  that holds a driver, the Chrome installer fetches no archive, whatever else happens: it
  sends the query for the latest version at most, and opens no file for writing.
\<close>

lemma installChromeDriver_no_fetch:
  assumes H: "\<And>u u' p'. fs u = fs w \<Longrightarrow> getChromeDriverPath env u = (u', Inr p') \<Longrightarrow>
               os_Stat env u' p' \<noteq> NotExist"
  shows "(requests (fst (installChromeDriver env w)) = requests w
          \<or> requests (fst (installChromeDriver env w)) = requests w @ [LATEST_RELEASE])
       \<and> writes (fst (installChromeDriver env w)) = writes w"
proof -
  obtain w1 r1 where a: "getInstalledChromeVersion env (Println ''Checking Chrome version...'' w) = (w1, r1)"
    by (cases "getInstalledChromeVersion env (Println ''Checking Chrome version...'' w)")
  note q1 = getInstalledChromeVersion_quiet [OF a]
  show ?thesis
  proof (cases r1)
    case (Inl e)
    with a q1 show ?thesis by (simp add: installChromeDriver_def)
  next
    case (Inr v)
    obtain w2 r2 where b: "getLatestChromeDriverVersion env w1 = (w2, r2)"
      by (cases "getLatestChromeDriverVersion env w1")
    note q2 = getLatestChromeDriverVersion_requests [OF b]
    show ?thesis
    proof (cases "v = [] \<or> (\<exists>e. r2 = Inl e)")
      case True
      with a b Inr q1 q2 show ?thesis
        by (auto simp: installChromeDriver_def)
    next
      case False
      then obtain latest where r2: "r2 = Inr latest" and v: "v \<noteq> []"
        by (cases r2) auto
      let ?w3 = "Println (''Chrome version: '' @ v @ '', Latest ChromeDriver: '' @ latest) w2"
      obtain w4 r4 where c: "getChromeDriverPath env ?w3 = (w4, r4)"
        by (cases "getChromeDriverPath env ?w3")
      note q4 = getChromeDriverPath_quiet [OF c]
      have f3: "fs ?w3 = fs w"
        using q1 q2 by simp
      show ?thesis
      proof (cases "major_version v")
        case None
        with a b Inr r2 v q1 q2 show ?thesis
          by (simp add: installChromeDriver_def)
      next
        case (Some M)
        show ?thesis
        proof (cases r4)
          case (Inl e)
          with a b c Inr r2 v Some q1 q2 q4 show ?thesis
            by (simp add: installChromeDriver_def)
        next
          case p: (Inr p)
          with c have "os_Stat env w4 p \<noteq> NotExist"
            using H [OF f3] by simp
          with a b c Inr r2 v Some p q1 q2 q4 show ?thesis
            by (simp add: installChromeDriver_def split: stat.splits)
        qed
      qed
    qed
  qed
qed

text \<open>So it is when a driver is stored at the path in the fallback directory.\<close>

lemma installChromeDriver_again:
  assumes "lookup w (filepath_Join [driver_dir env, driver_name env]) \<noteq> None"
  shows "(requests (fst (installChromeDriver env w)) = requests w
          \<or> requests (fst (installChromeDriver env w)) = requests w @ [LATEST_RELEASE])
       \<and> writes (fst (installChromeDriver env w)) = writes w"
  by (rule installChromeDriver_no_fetch) (rule driver_present_stable [OF assms])

text \<open>After a successful run of the Chrome installer the premise of \<open>installChromeDriver_no_fetch\<close> holds.\<close>

lemma installChromeDriver_leaves_driver:
  assumes "snd (installChromeDriver env w) = None"
    and "fs u = fs (fst (installChromeDriver env w))"
    and "getChromeDriverPath env u = (u', Inr p')"
  shows "os_Stat env u' p' \<noteq> NotExist"
proof -
  obtain w1 r1 where a: "getInstalledChromeVersion env (Println ''Checking Chrome version...'' w) = (w1, r1)"
    by (cases "getInstalledChromeVersion env (Println ''Checking Chrome version...'' w)")
  from assms(1) a obtain v where r1: "r1 = Inr v" and v: "v \<noteq> []"
    by (cases r1) (auto simp: installChromeDriver_def split: if_splits)
  obtain w2 r2 where b: "getLatestChromeDriverVersion env w1 = (w2, r2)"
    by (cases "getLatestChromeDriverVersion env w1")
  from assms(1) a r1 v b obtain latest where r2: "r2 = Inr latest"
    by (cases r2) (auto simp: installChromeDriver_def)
  let ?w3 = "Println (''Chrome version: '' @ v @ '', Latest ChromeDriver: '' @ latest) w2"
  from assms(1) a r1 v b r2 obtain M where M: "major_version v = Some M"
    by (cases "major_version v") (auto simp: installChromeDriver_def)
  obtain w4 r4 where c: "getChromeDriverPath env ?w3 = (w4, r4)"
    by (cases "getChromeDriverPath env ?w3")
  from assms(1) a r1 v b r2 M c obtain p where r4: "r4 = Inr p"
    by (cases r4) (auto simp: installChromeDriver_def)
  let ?w0 = "Println ''ChromeDriver not found. Installing...'' w4"
  show ?thesis
  proof (cases "os_Stat env w4 p = NotExist")
    case True
    with a r1 v b r2 M c r4 have run: "installChromeDriver env w = downloadAndInstallChromeDriver env ?w0 M"
      by (simp add: installChromeDriver_def)
    note first = getChromeDriverPath_missing [OF c [unfolded r4] True]
    from run assms(1) have "snd (downloadAndInstallChromeDriver env ?w0 M) = None" by simp
    from downloadAndInstallChromeDriver_installs [OF first(5,2,3,4) _ this] run
    have "lookup (fst (installChromeDriver env w)) (filepath_Join [driver_dir env, driver_name env]) \<noteq> None"
      by auto
    then show ?thesis
      using assms(2,3) by (rule driver_present_stable)
  next
    case False
    with a r1 v b r2 M c r4 have "fs (fst (installChromeDriver env w)) = fs w4"
      by (simp add: installChromeDriver_def split: stat.splits)
    with assms(2) have "fs u = fs w4" by simp
    from getChromeDriverPath_stable [OF c [unfolded r4] False this assms(3)] show ?thesis .
  qed
qed

text \<open>
  Claim C5, for each family as the code has it. Chrome: when \<^verbatim>\<open>os.Stat\<close> of the resolved
  install path does not report that the driver is missing, the installer returns success
  after exactly one request, the query for the latest version, and opens no file for
  writing: no archive is fetched; and after a run that returned success, a second run
  sends that query at most and opens no file for writing. Firefox: when the geckodriver
  on the search path reports the latest version, the installer returns success after
  exactly one request, the query for the latest release, and leaves the file system as it
  was. The premises of the first and the last part name the steps of the run up to the
  test for the driver.
\<close>

theorem present_driver_skips_download:
  "(getInstalledChromeVersion env (Println ''Checking Chrome version...'' w) = (w1, Inr v)
      \<and> getLatestChromeDriverVersion env w1 = (w2, Inr latest)
      \<and> major_version v = Some M
      \<and> getChromeDriverPath env
            (Println (''Chrome version: '' @ v @ '', Latest ChromeDriver: '' @ latest) w2) = (w4, Inr p)
      \<and> os_Stat env w4 p \<noteq> NotExist
    \<longrightarrow> snd (installChromeDriver env w) = None
        \<and> requests (fst (installChromeDriver env w)) = requests w @ [LATEST_RELEASE]
        \<and> writes (fst (installChromeDriver env w)) = writes w)
   \<and> (snd (installChromeDriver env w0) = None
    \<longrightarrow> (requests (fst (installChromeDriver env (fst (installChromeDriver env w0))))
            = requests (fst (installChromeDriver env w0))
          \<or> requests (fst (installChromeDriver env (fst (installChromeDriver env w0))))
            = requests (fst (installChromeDriver env w0)) @ [LATEST_RELEASE])
        \<and> writes (fst (installChromeDriver env (fst (installChromeDriver env w0))))
            = writes (fst (installChromeDriver env w0)))
   \<and> (getInstalledGeckoDriverVersion env (Println ''Checking Geckodriver version...'' u) = (u1, Inr g)
      \<and> getLatestGeckoDriverVersion env u1 = (u2, Inr g)
    \<longrightarrow> snd (installFirefoxDriver env u) = None
        \<and> requests (fst (installFirefoxDriver env u)) = requests u @ [GECKO_LATEST]
        \<and> writes (fst (installFirefoxDriver env u)) = writes u
        \<and> fs (fst (installFirefoxDriver env u)) = fs u)"
proof (intro conjI impI)
  assume a: "getInstalledChromeVersion env (Println ''Checking Chrome version...'' w) = (w1, Inr v)
      \<and> getLatestChromeDriverVersion env w1 = (w2, Inr latest)
      \<and> major_version v = Some M
      \<and> getChromeDriverPath env
            (Println (''Chrome version: '' @ v @ '', Latest ChromeDriver: '' @ latest) w2) = (w4, Inr p)
      \<and> os_Stat env w4 p \<noteq> NotExist"
  then have a1: "getInstalledChromeVersion env (Println ''Checking Chrome version...'' w) = (w1, Inr v)"
    and a2: "getLatestChromeDriverVersion env w1 = (w2, Inr latest)"
    and a3: "major_version v = Some M"
    and a4: "getChromeDriverPath env
            (Println (''Chrome version: '' @ v @ '', Latest ChromeDriver: '' @ latest) w2) = (w4, Inr p)"
    and a5: "os_Stat env w4 p \<noteq> NotExist"
    by blast+
  from a3 have v: "v \<noteq> []"
    by (auto simp: major_version_def digit_run_def)
  have c: "installChromeDriver env w =
          (Println (''ChromeDriver is already installed. '' @ ''Use 'owl setup --force' to reinstall drivers.'') w4, None)"
    using a1 a2 a3 a4 a5 v by (simp add: installChromeDriver_def split: stat.splits)
  have r1: "requests w1 = requests w" "writes w1 = writes w"
    using getInstalledChromeVersion_quiet [OF a1] by simp_all
  have r2: "requests w2 = requests w1 @ [LATEST_RELEASE]" "writes w2 = writes w1"
    using getLatestChromeDriverVersion_requests [OF a2] by simp_all
  have r4: "requests w4 = requests w2" "writes w4 = writes w2"
    using getChromeDriverPath_quiet [OF a4] by simp_all
  show "snd (installChromeDriver env w) = None" by (simp add: c)
  show "requests (fst (installChromeDriver env w)) = requests w @ [LATEST_RELEASE]"
    by (simp add: c r1 r2 r4)
  show "writes (fst (installChromeDriver env w)) = writes w"
    by (simp add: c r1 r2 r4)
next
  assume s: "snd (installChromeDriver env w0) = None"
  let ?w' = "fst (installChromeDriver env w0)"
  have "(requests (fst (installChromeDriver env ?w')) = requests ?w'
          \<or> requests (fst (installChromeDriver env ?w')) = requests ?w' @ [LATEST_RELEASE])
       \<and> writes (fst (installChromeDriver env ?w')) = writes ?w'"
    by (rule installChromeDriver_no_fetch) (rule installChromeDriver_leaves_driver [OF s])
  then show "requests (fst (installChromeDriver env ?w')) = requests ?w'
          \<or> requests (fst (installChromeDriver env ?w')) = requests ?w' @ [LATEST_RELEASE]"
    and "writes (fst (installChromeDriver env ?w')) = writes ?w'"
    by simp_all
next
  assume a: "getInstalledGeckoDriverVersion env (Println ''Checking Geckodriver version...'' u) = (u1, Inr g)
      \<and> getLatestGeckoDriverVersion env u1 = (u2, Inr g)"
  then have b1: "getInstalledGeckoDriverVersion env (Println ''Checking Geckodriver version...'' u) = (u1, Inr g)"
    and b2: "getLatestGeckoDriverVersion env u1 = (u2, Inr g)"
    by blast+
  have f: "installFirefoxDriver env u = (Println (''Geckodriver is up to date (version '' @ g @ '')'') u2, None)"
    using b1 b2 by (simp add: installFirefoxDriver_def update_geckodriver_def)
  have s1: "requests u1 = requests u" "writes u1 = writes u" "fs u1 = fs u"
    using getInstalledGeckoDriverVersion_quiet [OF b1] by simp_all
  have s2: "requests u2 = requests u1 @ [GECKO_LATEST]" "writes u2 = writes u1" "fs u2 = fs u1"
    using getLatestGeckoDriverVersion_requests [OF b2] by simp_all
  show "snd (installFirefoxDriver env u) = None" by (simp add: f)
  show "requests (fst (installFirefoxDriver env u)) = requests u @ [GECKO_LATEST]"
    by (simp add: f s1 s2)
  show "writes (fst (installFirefoxDriver env u)) = writes u"
    by (simp add: f s1 s2)
  show "fs (fst (installFirefoxDriver env u)) = fs u"
    by (simp add: f s1 s2)
qed

theorem present_driver_skips_download_witness:
  "os_Stat with_chrome drivers_present ''/usr/local/bin/chromedriver'' = StatOk (File ''ELF'' 493)
   \<and> snd (installChromeDriver with_chrome drivers_present) = None
   \<and> requests (fst (installChromeDriver with_chrome drivers_present)) = [LATEST_RELEASE]
   \<and> writes (fst (installChromeDriver with_chrome drivers_present)) = []
   \<and> snd (installChromeDriver with_chrome empty_world) = None
   \<and> requests (fst (installChromeDriver with_chrome empty_world))
       = [LATEST_RELEASE, LATEST_RELEASE @ ''_120'', chromedriver_zip ''120.0.6099.71'' ''linux64'']
   \<and> requests (fst (installChromeDriver with_chrome (fst (installChromeDriver with_chrome empty_world))))
       = [LATEST_RELEASE, LATEST_RELEASE @ ''_120'', chromedriver_zip ''120.0.6099.71'' ''linux64'',
          LATEST_RELEASE]
   \<and> writes (fst (installChromeDriver with_chrome (fst (installChromeDriver with_chrome empty_world))))
       = writes (fst (installChromeDriver with_chrome empty_world))
   \<and> snd (installFirefoxDriver with_chrome drivers_present) = None
   \<and> requests (fst (installFirefoxDriver with_chrome drivers_present)) = [GECKO_LATEST]
   \<and> fs (fst (installFirefoxDriver with_chrome drivers_present)) = fs drivers_present"
proof -
  let ?a = "getInstalledChromeVersion with_chrome (Println ''Checking Chrome version...'' drivers_present)"
  let ?b = "getLatestChromeDriverVersion with_chrome (fst ?a)"
  let ?c = "getChromeDriverPath with_chrome
              (Println (''Chrome version: '' @ ''120.0.6099.109'' @ '', Latest ChromeDriver: '' @ ''121.0.6167.85'') (fst ?b))"
  let ?d = "getInstalledGeckoDriverVersion with_chrome (Println ''Checking Geckodriver version...'' drivers_present)"
  let ?e = "getLatestGeckoDriverVersion with_chrome (fst ?d)"
  have h1: "?a = (fst ?a, Inr ''120.0.6099.109'')" by code_simp
  have h2: "?b = (fst ?b, Inr ''121.0.6167.85'')" by code_simp
  have h3: "major_version ''120.0.6099.109'' = Some ''120''" by code_simp
  have h4: "?c = (fst ?c, Inr ''/usr/local/bin/chromedriver'')" by code_simp
  have h5: "os_Stat with_chrome (fst ?c) ''/usr/local/bin/chromedriver'' \<noteq> NotExist" by code_simp
  have h6: "?d = (fst ?d, Inr ''0.34.0'')" by code_simp
  have h7: "?e = (fst ?e, Inr ''0.34.0'')" by code_simp
  have h8: "snd (installChromeDriver with_chrome empty_world) = None" by code_simp
  note T = present_driver_skips_download
    [where env = with_chrome and w = drivers_present and ?w1.0 = "fst ?a" and v = "''120.0.6099.109''"
       and ?w2.0 = "fst ?b" and latest = "''121.0.6167.85''" and M = "''120''" and ?w4.0 = "fst ?c"
       and p = "''/usr/local/bin/chromedriver''" and ?w0.0 = empty_world and u = drivers_present
       and ?u1.0 = "fst ?d" and g = "''0.34.0''" and ?u2.0 = "fst ?e"]
  from T h1 h2 h3 h4 h5 have chrome:
    "snd (installChromeDriver with_chrome drivers_present) = None
     \<and> requests (fst (installChromeDriver with_chrome drivers_present)) = requests drivers_present @ [LATEST_RELEASE]
     \<and> writes (fst (installChromeDriver with_chrome drivers_present)) = writes drivers_present"
    by blast
  from T h8 have again:
    "writes (fst (installChromeDriver with_chrome (fst (installChromeDriver with_chrome empty_world))))
       = writes (fst (installChromeDriver with_chrome empty_world))"
    by blast
  from T h6 h7 have firefox:
    "snd (installFirefoxDriver with_chrome drivers_present) = None
     \<and> requests (fst (installFirefoxDriver with_chrome drivers_present)) = requests drivers_present @ [GECKO_LATEST]
     \<and> fs (fst (installFirefoxDriver with_chrome drivers_present)) = fs drivers_present"
    by blast
  have s: "os_Stat with_chrome drivers_present ''/usr/local/bin/chromedriver'' = StatOk (File ''ELF'' 493)"
    by code_simp
  have q1: "requests (fst (installChromeDriver with_chrome empty_world))
       = [LATEST_RELEASE, LATEST_RELEASE @ ''_120'', chromedriver_zip ''120.0.6099.71'' ''linux64'']"
    by code_simp
  have q2: "requests (fst (installChromeDriver with_chrome (fst (installChromeDriver with_chrome empty_world))))
       = [LATEST_RELEASE, LATEST_RELEASE @ ''_120'', chromedriver_zip ''120.0.6099.71'' ''linux64'',
          LATEST_RELEASE]"
    by code_simp
  have e: "requests drivers_present = []" "writes drivers_present = []"
    by (simp_all add: drivers_present_def empty_world_def)
  from chrome again firefox s h8 q1 q2 e show ?thesis
    by simp
qed

text \<open>
  The claim as it is written fails in both of its parts. With the driver present the
  installers still ask the registry for the latest version, and the Chrome installer
  returns an error without network. And the Firefox installer is not idempotent: on a
  machine whose search path does not hold \<^verbatim>\<open>/usr/local/bin\<close>, where it installs
  geckodriver, a second run does not find the driver of the first and fetches the archive
  again.
\<close>

theorem present_driver_still_asks_registry:
  "lookup drivers_present ''/usr/local/bin/chromedriver'' = Some (File ''ELF'' 493)
   \<and> snd (installChromeDriver with_chrome drivers_present) = None
   \<and> requests (fst (installChromeDriver with_chrome drivers_present)) = [LATEST_RELEASE]
   \<and> snd (installChromeDriver with_chrome_offline drivers_present)
       = Some ''failed to get latest Chrome driver version: dial tcp: no route to host''
   \<and> snd (installFirefoxDriver with_chrome drivers_present) = None
   \<and> requests (fst (installFirefoxDriver with_chrome drivers_present)) = [GECKO_LATEST]
   \<and> snd (installFirefoxDriver usr_bin_only empty_world) = None
   \<and> lookup (fst (installFirefoxDriver usr_bin_only empty_world)) ''/usr/local/bin/geckodriver''
       = Some (File ''ELF'' 493)
   \<and> snd (installFirefoxDriver usr_bin_only (fst (installFirefoxDriver usr_bin_only empty_world))) = None
   \<and> requests (fst (installFirefoxDriver usr_bin_only (fst (installFirefoxDriver usr_bin_only empty_world))))
       = [GECKO_LATEST, gecko_release ''0.34.0'' ''-linux64.tar.gz'',
          GECKO_LATEST, gecko_release ''0.34.0'' ''-linux64.tar.gz'']"
  by code_simp

end
